(* ===== verification/Prelude.thy ===== *)
theory Prelude
  imports Main "HOL-Library.State_Monad" "HOL-Library.Word" "HOL-Library.AList"
begin

text \<open>
  Shared vocabulary of the development: JSON documents, Go errors, 32-bit integers, the
  run of a reconciler as a state transformer, and the generic lemmas on lists and
  association lists that the component theories use.

  \<^item> A Go \<^verbatim>\<open>error\<close> is a value of \<open>go_error\<close>: \<open>LibError\<close> is an error made by code outside the
    repository (its text), \<open>Errorf fmt args cause\<close> is \<^verbatim>\<open>fmt.Errorf\<close> with its format string, the
    arguments of its verbs and the error wrapped by \<^verbatim>\<open>%w\<close>.  The formatted text is not built:
    two errors are the same when format, arguments and cause are.
  \<^item> A function that returns \<^verbatim>\<open>(T, error)\<close> returns \<open>go_error + 'a\<close>; one that returns only
    \<^verbatim>\<open>error\<close> returns \<open>go_error option\<close>, \<open>None\<close> for \<^verbatim>\<open>nil\<close>.
  \<^item> A reconciler is a \<open>('s, go_error option) state\<close> of the library's state monad: every return
    statement of the sources passes the same empty \<^verbatim>\<open>ctrl.Result{}\<close>, so only the error is kept.
  \<^item> Go maps of the API objects are association lists: the code copies them whole and asks
    for their length only.
\<close>

section \<open>JSON documents\<close>

text \<open>
  The value a JSON text denotes.  Numbers are integers: the API types of the repository
  hold no others.
\<close>

datatype json =
    JNull
  | JBool bool
  | JNum int
  | JStr string
  | JArr "json list"
  | JObj "(string \<times> json) list"

section \<open>Errors\<close>

datatype go_error =
    LibError string
  | Errorf string "string list" "go_error option"

text \<open>\<^verbatim>\<open>if err != nil { return fmt.Errorf(msg, ..., err) }\<close>\<close>

abbreviation wrap :: "string \<Rightarrow> string list \<Rightarrow> go_error \<Rightarrow> go_error" where
  "wrap msg args e \<equiv> Errorf msg args (Some e)"

text \<open>The success component of a fallible result, mapped; errors pass through.\<close>

definition bind_sum :: "'e + 'a \<Rightarrow> ('a \<Rightarrow> 'e + 'b) \<Rightarrow> 'e + 'b" where
  "bind_sum r f = (case r of Inl e \<Rightarrow> Inl e | Inr x \<Rightarrow> f x)"

lemma bind_sum_simps [simp]:
  "bind_sum (Inl e) f = Inl e"
  "bind_sum (Inr x) f = f x"
  by (simp_all add: bind_sum_def)

lemma bind_sum_Inr [simp]: "bind_sum r Inr = r"
  by (cases r) simp_all

lemma bind_sum_eq_Inr: "bind_sum r f = Inr y \<longleftrightarrow> (\<exists>x. r = Inr x \<and> f x = Inr y)"
  by (cases r) simp_all

section \<open>Machine integers\<close>

text \<open>Go's \<^verbatim>\<open>int32\<close>; comparisons of the code are signed (\<open><s\<close>).\<close>

type_synonym int32 = "32 word"

section \<open>Strings\<close>

text \<open>\<^verbatim>\<open>fmt.Sprintf("%s-%s", a, b)\<close>\<close>

definition dashed :: "string \<Rightarrow> string \<Rightarrow> string" where
  "dashed a b = a @ ''-'' @ b"

lemma dashed_inject_right [simp]: "dashed a b = dashed a b' \<longleftrightarrow> b = b'"
  by (simp add: dashed_def)

lemma dashed_inject_left [simp]: "dashed a b = dashed a' b \<longleftrightarrow> a = a'"
  by (simp add: dashed_def)

lemma dashed_nonempty [simp]: "dashed a b \<noteq> []"
  by (simp add: dashed_def)

section \<open>Running state transformers\<close>

lemma run_bindE:
  assumes "run_state (State_Monad.bind m f) s = (b, t)"
  obtains a s' where "run_state m s = (a, s')" "run_state (f a) s' = (b, t)"
  using assms by (auto split: prod.splits)

text \<open>Rearranging the bodies of handlers: binds over branches, returns of branches.\<close>

lemma bind_case_sum:
  "State_Monad.bind (case r of Inl e \<Rightarrow> f e | Inr x \<Rightarrow> g x) k =
     (case r of Inl e \<Rightarrow> State_Monad.bind (f e) k | Inr x \<Rightarrow> State_Monad.bind (g x) k)"
  by (cases r) simp_all

lemma bind_if:
  "State_Monad.bind (if b then m else n) k =
     (if b then State_Monad.bind m k else State_Monad.bind n k)"
  by simp

lemma return_if:
  "State_Monad.return (if b then x else y) =
     (if b then State_Monad.return x else State_Monad.return y)"
  by simp

lemma if_branches:
  "(if \<not> b then x else y) = (if b then y else x)"
  "(if a \<or> b then x else y) = (if a then x else if b then x else y)"
  by simp_all

lemma return_map_option:
  "case_option (State_Monad.return None) (\<lambda>x. State_Monad.return (Some (f x))) =
     (\<lambda>e. State_Monad.return (map_option f e))"
  by (rule ext) (auto split: option.split)

lemma run_state_outcome: "fst (run_state m s) = r \<Longrightarrow> run_state m s = (r, snd (run_state m s))"
  by (cases "run_state m s") simp

text \<open>
  A transformer preserves a view of the state when every run leaves the view as it was;
  composition keeps this, so the frame of a handler follows from those of its calls.
\<close>

definition preserves :: "('s \<Rightarrow> 'v) \<Rightarrow> ('s, 'a) state \<Rightarrow> bool" where
  "preserves view m \<longleftrightarrow> (\<forall>s. view (snd (run_state m s)) = view s)"

lemma preservesD:
  assumes "preserves view m" and "run_state m s = (r, s')"
  shows "view s' = view s"
  using assms by (metis preserves_def snd_conv)

lemma preservesI:
  assumes "\<And>s r s'. run_state m s = (r, s') \<Longrightarrow> view s' = view s"
  shows "preserves view m"
  unfolding preserves_def using assms by (metis prod.collapse)

lemma preserves_return [simp, intro]: "preserves view (State_Monad.return x)"
  by (simp add: preserves_def)

lemma preserves_bind [intro]:
  assumes "preserves view m" and "\<And>x. preserves view (f x)"
  shows "preserves view (State_Monad.bind m f)"
proof (rule preservesI)
  fix s r s'
  assume "run_state (State_Monad.bind m f) s = (r, s')"
  then obtain a t where "run_state m s = (a, t)" and "run_state (f a) t = (r, s')"
    by (rule run_bindE)
  with assms show "view s' = view s"
    by (metis preservesD)
qed

lemma preserves_if [intro]:
  "(b \<Longrightarrow> preserves view m) \<Longrightarrow> (\<not> b \<Longrightarrow> preserves view n) \<Longrightarrow>
     preserves view (if b then m else n)"
  by simp

lemma preserves_case_sum [intro]:
  assumes "\<And>e. r = Inl e \<Longrightarrow> preserves view (f e)" and "\<And>x. r = Inr x \<Longrightarrow> preserves view (g x)"
  shows "preserves view (case r of Inl e \<Rightarrow> f e | Inr x \<Rightarrow> g x)"
  using assms by (cases r) simp_all

lemma preserves_case_option [intro]:
  assumes "r = None \<Longrightarrow> preserves view m" and "\<And>x. r = Some x \<Longrightarrow> preserves view (g x)"
  shows "preserves view (case r of None \<Rightarrow> m | Some x \<Rightarrow> g x)"
  using assms by (cases r) simp_all

section \<open>Lists\<close>

text \<open>
  The loop shape of the volume and mount updates: the first element that satisfies \<open>p\<close> is
  replaced (\<^verbatim>\<open>xs[i] = ...; found = true; break\<close>), and when there is none a new one is appended.
\<close>

fun update_first :: "('a \<Rightarrow> bool) \<Rightarrow> ('a \<Rightarrow> 'a) \<Rightarrow> 'a list \<Rightarrow> bool \<times> 'a list" where
  "update_first p f [] = (False, [])"
| "update_first p f (x # xs) =
     (if p x then (True, f x # xs)
      else (let (found, ys) = update_first p f xs in (found, x # ys)))"

text \<open>The whole update: replace the first match, or append.\<close>

definition upsert :: "('a \<Rightarrow> bool) \<Rightarrow> ('a \<Rightarrow> 'a) \<Rightarrow> 'a \<Rightarrow> 'a list \<Rightarrow> 'a list" where
  "upsert p f new xs =
     (let (found, ys) = update_first p f xs in if found then ys else ys @ [new])"

section \<open>Association lists as stores\<close>

lemma map_of_alist_update [simp]: "map_of (AList.update k v xs) = (map_of xs)(k \<mapsto> v)"
  by (rule update_conv')

lemma map_of_alist_delete [simp]: "map_of (AList.delete k xs) = (map_of xs)(k := None)"
  by (rule delete_conv')

end
