(* ===== verification/K8s_Types.thy ===== *)
theory K8s_Types
  imports Prelude
begin

text \<open>
  The Kubernetes objects the controllers read and write, as far as the repository's code
  touches their fields: the object header shared by all kinds, and one record per spec.
  The Go types come from \<^verbatim>\<open>k8s.io/api\<close> and \<^verbatim>\<open>k8s.io/apimachinery\<close>, which are not in the
  repository; every record holds the fields the code names and keeps the others in a
  \<open>rest\<close> component, an uninterpreted JSON value that the code never reads nor writes.
  \<open>JNull\<close> stands for the zero values of those other fields.  Slices are lists (a nil slice
  is the empty list), pointers to values are options.
\<close>

section \<open>The object header\<close>

record OwnerReference =
  or_APIVersion :: string
  or_Kind :: string
  or_Name :: string
  or_UID :: string
  or_Controller :: bool
  or_BlockOwnerDeletion :: bool

record ObjectMeta =
  om_Name :: string
  om_Namespace :: string
  om_UID :: string
  om_Labels :: "(string \<times> string) list"
  om_OwnerReferences :: "OwnerReference list"
  om_rest :: json

record TypeMeta =
  tm_Kind :: string
  tm_APIVersion :: string

text \<open>
  An API object: header, spec and status.  A \<^verbatim>\<open>Role\<close> or \<^verbatim>\<open>RoleBinding\<close> has no spec; its
  top-level fields are the record in the place of the spec.
\<close>

record ('spec, 'status) object =
  obj_TypeMeta :: TypeMeta
  obj_Meta :: ObjectMeta
  obj_Spec :: 'spec
  obj_Status :: 'status

text \<open>\<^verbatim>\<open>client.ObjectKey{Namespace, Name}\<close>, also \<^verbatim>\<open>ctrl.Request\<close>\<close>

type_synonym key = "string \<times> string"

definition key_of :: "('spec, 'status) object \<Rightarrow> key" where
  "key_of x = (om_Namespace (obj_Meta x), om_Name (obj_Meta x))"

text \<open>
  The zero \<^verbatim>\<open>ObjectMeta\<close> with name and namespace set, as in every composite literal
  \<^verbatim>\<open>metav1.ObjectMeta{Name: ..., Namespace: ...}\<close> of the controllers.
\<close>

definition named_meta :: "string \<Rightarrow> string \<Rightarrow> ObjectMeta" where
  "named_meta name namespace =
     \<lparr>om_Name = name, om_Namespace = namespace, om_UID = '''', om_Labels = [],
      om_OwnerReferences = [], om_rest = JNull\<rparr>"

definition zero_TypeMeta :: TypeMeta where
  "zero_TypeMeta = \<lparr>tm_Kind = '''', tm_APIVersion = ''''\<rparr>"

definition named_object ::
    "string \<Rightarrow> string \<Rightarrow> 'spec \<Rightarrow> 'status \<Rightarrow> ('spec, 'status) object" where
  "named_object name namespace spec status =
     \<lparr>obj_TypeMeta = zero_TypeMeta, obj_Meta = named_meta name namespace,
      obj_Spec = spec, obj_Status = status\<rparr>"

lemma named_meta_simps [simp]:
  "om_Name (named_meta n ns) = n"
  "om_Namespace (named_meta n ns) = ns"
  "om_OwnerReferences (named_meta n ns) = []"
  by (simp_all add: named_meta_def)

lemma named_object_simps [simp]:
  "obj_Meta (named_object n ns sp st) = named_meta n ns"
  "obj_Spec (named_object n ns sp st) = sp"
  "obj_Status (named_object n ns sp st) = st"
  "obj_TypeMeta (named_object n ns sp st) = zero_TypeMeta"
  by (simp_all add: named_object_def)

lemma key_of_named_object [simp]: "key_of (named_object n ns sp st) = (ns, n)"
  by (simp add: key_of_def)

lemma key_of_update [simp]:
  "key_of (x\<lparr>obj_Spec := sp\<rparr>) = key_of x"
  "key_of (x\<lparr>obj_Status := st\<rparr>) = key_of x"
  "key_of (x\<lparr>obj_TypeMeta := tm\<rparr>) = key_of x"
  by (simp_all add: key_of_def)

lemma key_of_Meta_cong: "obj_Meta x = obj_Meta y \<Longrightarrow> key_of x = key_of y"
  by (simp add: key_of_def)

section \<open>Shared API values\<close>

text \<open>
  \<^verbatim>\<open>intstr.IntOrString\<close>: the discriminator \<open>ios_Type\<close> (0 for the integer, 1 for the string)
  and both values.
\<close>

record IntOrString =
  ios_Type :: int
  ios_IntVal :: int32
  ios_StrVal :: string

record LabelSelector =
  ls_MatchLabels :: "(string \<times> string) list"
  ls_rest :: json

text \<open>
  A parsed \<^verbatim>\<open>resource.Quantity\<close>; the code hands it from the parser to the claim without
  looking inside, so it is kept as the text of its canonical form.
\<close>

type_synonym quantity = string

section \<open>autoscaling/v2\<close>

record CrossVersionObjectReference =
  xref_APIVersion :: string
  xref_Kind :: string
  xref_Name :: string

record MetricTarget =
  mt_Type :: string
  mt_AverageUtilization :: "int32 option"
  mt_rest :: json

record ResourceMetricSource =
  rms_Name :: string
  rms_Target :: MetricTarget

record MetricSpec =
  ms_Type :: string
  ms_Resource :: "ResourceMetricSource option"
  ms_rest :: json

record HorizontalPodAutoscalerSpec =
  hpa_ScaleTargetRef :: CrossVersionObjectReference
  hpa_MinReplicas :: "int32 option"
  hpa_MaxReplicas :: int32
  hpa_Metrics :: "MetricSpec list"
  hpa_rest :: json

type_synonym HorizontalPodAutoscaler = "(HorizontalPodAutoscalerSpec, json) object"

definition zero_HPASpec :: HorizontalPodAutoscalerSpec where
  "zero_HPASpec =
     \<lparr>hpa_ScaleTargetRef = \<lparr>xref_APIVersion = '''', xref_Kind = '''', xref_Name = ''''\<rparr>,
      hpa_MinReplicas = None, hpa_MaxReplicas = 0, hpa_Metrics = [], hpa_rest = JNull\<rparr>"

section \<open>policy/v1\<close>

record PodDisruptionBudgetSpec =
  pdb_MinAvailable :: "IntOrString option"
  pdb_Selector :: "LabelSelector option"
  pdb_MaxUnavailable :: "IntOrString option"
  pdb_rest :: json

type_synonym PodDisruptionBudget = "(PodDisruptionBudgetSpec, json) object"

definition zero_PDBSpec :: PodDisruptionBudgetSpec where
  "zero_PDBSpec =
     \<lparr>pdb_MinAvailable = None, pdb_Selector = None, pdb_MaxUnavailable = None,
      pdb_rest = JNull\<rparr>"

section \<open>apps/v1 Deployment and the pod template\<close>

record Affinity =
  aff_NodeAffinity :: "json option"
  aff_PodAffinity :: "json option"
  aff_PodAntiAffinity :: "json option"

type_synonym TopologySpreadConstraint = json

record PersistentVolumeClaimVolumeSource =
  pvcvs_ClaimName :: string
  pvcvs_ReadOnly :: bool

record VolumeSource =
  vs_PersistentVolumeClaim :: "PersistentVolumeClaimVolumeSource option"
  vs_rest :: json

record Volume =
  vol_Name :: string
  vol_VolumeSource :: VolumeSource

record VolumeMount =
  vm_Name :: string
  vm_MountPath :: string
  vm_rest :: json

record Container =
  ct_Name :: string
  ct_VolumeMounts :: "VolumeMount list"
  ct_rest :: json

record PodSpec =
  ps_Volumes :: "Volume list"
  ps_Containers :: "Container list"
  ps_NodeSelector :: "(string \<times> string) list"
  ps_Affinity :: "Affinity option"
  ps_TopologySpreadConstraints :: "TopologySpreadConstraint list"
  ps_rest :: json

record DeploymentSpec =
  dep_Selector :: "LabelSelector option"
  dep_Template_Spec :: PodSpec
  dep_rest :: json

type_synonym Deployment = "(DeploymentSpec, json) object"

section \<open>core/v1 PersistentVolumeClaim and Service\<close>

record VolumeResourceRequirements =
  vrr_Limits :: "(string \<times> quantity) list"
  vrr_Requests :: "(string \<times> quantity) list"

record PersistentVolumeClaimSpec =
  pvc_AccessModes :: "string list"
  pvc_Resources :: VolumeResourceRequirements
  pvc_StorageClassName :: "string option"
  pvc_rest :: json

type_synonym PersistentVolumeClaim = "(PersistentVolumeClaimSpec, json) object"

definition zero_PVCSpec :: PersistentVolumeClaimSpec where
  "zero_PVCSpec =
     \<lparr>pvc_AccessModes = [], pvc_Resources = \<lparr>vrr_Limits = [], vrr_Requests = []\<rparr>,
      pvc_StorageClassName = None, pvc_rest = JNull\<rparr>"

record ServicePort =
  sp_Name :: string
  sp_Port :: int32
  sp_rest :: json

record K8sServiceSpec =
  svc_Ports :: "ServicePort list"
  svc_Selector :: "(string \<times> string) list"
  svc_Type :: string
  svc_rest :: json

type_synonym Service = "(K8sServiceSpec, json) object"

definition zero_ServiceSpec :: K8sServiceSpec where
  "zero_ServiceSpec =
     \<lparr>svc_Ports = [], svc_Selector = [], svc_Type = '''', svc_rest = JNull\<rparr>"

section \<open>networking.k8s.io/v1 Ingress\<close>

record ServiceBackendPort =
  sbp_Name :: string
  sbp_Number :: int32

record IngressServiceBackend =
  isb_Name :: string
  isb_Port :: ServiceBackendPort

record IngressBackend =
  ib_Service :: "IngressServiceBackend option"
  ib_Resource :: "json option"

record HTTPIngressPath =
  hip_Path :: string
  hip_PathType :: "string option"
  hip_Backend :: IngressBackend

text \<open>
  The embedded \<^verbatim>\<open>IngressRuleValue\<close> has the single field \<^verbatim>\<open>HTTP\<close>, a pointer to the list of
  paths.
\<close>

record IngressRule =
  rule_Host :: string
  rule_HTTP :: "HTTPIngressPath list option"

record IngressTLS =
  itls_Hosts :: "string list"
  itls_SecretName :: string

record K8sIngressSpec =
  ing_TLS :: "IngressTLS list"
  ing_Rules :: "IngressRule list"
  ing_rest :: json

type_synonym Ingress = "(K8sIngressSpec, json) object"

definition zero_IngressSpec :: K8sIngressSpec where
  "zero_IngressSpec = \<lparr>ing_TLS = [], ing_Rules = [], ing_rest = JNull\<rparr>"

section \<open>rbac.authorization.k8s.io/v1\<close>

record PolicyRule =
  pr_Verbs :: "string list"
  pr_APIGroups :: "string list"
  pr_Resources :: "string list"
  pr_ResourceNames :: "string list"
  pr_NonResourceURLs :: "string list"

record RoleBody =
  role_Rules :: "PolicyRule list"

type_synonym Role = "(RoleBody, unit) object"

record RoleRef =
  rr_APIGroup :: string
  rr_Kind :: string
  rr_Name :: string

record Subject =
  subj_Kind :: string
  subj_APIGroup :: string
  subj_Name :: string
  subj_Namespace :: string

record RoleBindingBody =
  rb_Subjects :: "Subject list"
  rb_RoleRef :: RoleRef

type_synonym RoleBinding = "(RoleBindingBody, unit) object"

definition zero_RoleBindingBody :: RoleBindingBody where
  "zero_RoleBindingBody =
     \<lparr>rb_Subjects = [],
      rb_RoleRef = \<lparr>rr_APIGroup = '''', rr_Kind = '''', rr_Name = ''''\<rparr>\<rparr>"

section \<open>Unstructured objects\<close>

text \<open>
  \<^verbatim>\<open>unstructured.Unstructured\<close>: a JSON object whose \<^verbatim>\<open>metadata\<close> is read and written through
  accessors.  The code sets the kind, the name, the namespace and the member \<^verbatim>\<open>spec\<close>; the
  other members are the status component.  \<open>None\<close> is an object without \<^verbatim>\<open>spec\<close>.
\<close>

type_synonym Unstructured = "(json option, json) object"

end
