(* ===== verification/V1alpha1.thy ===== *)
theory V1alpha1
  imports K8s_Types
begin

text \<open>
  The custom resources of \<^verbatim>\<open>api/v1alpha1\<close>: one record per Go struct, with the struct's
  fields in their order.  \<^verbatim>\<open>int32\<close> fields are 32-bit words, string-valued enumerations of
  \<^verbatim>\<open>k8s.io/api\<close> (service type, access modes) are strings.  The status structs hold a list
  of conditions that no controller touches.
\<close>

section \<open>types\_shared.go\<close>

record ResourceRef =
  ref_Resource :: string
  ref_Kind :: string
  ref_ApiVersion :: string
  ref_Namespace :: string

record EscapeHatch =
  hatch_Kind :: string
  hatch_PatchType :: string
  hatch_Patch :: string

section \<open>compute\_types.go\<close>

record AutoscalingSpec =
  as_MinReplicas :: int32
  as_MaxReplicas :: int32
  as_TargetCPUUtilizationPercentage :: int32
  as_TargetMemoryUtilizationPercentage :: int32

record SchedulingSpec =
  sch_NodeSelector :: "(string \<times> string) list"
  sch_Affinity :: Affinity
  sch_TopologySpreadConstraints :: "TopologySpreadConstraint list"

record PDBSpec =
  pdbs_MinAvailable :: IntOrString
  pdbs_MaxUnavailable :: IntOrString

record ComputeSpec =
  cs_TargetRef :: ResourceRef
  cs_Autoscaling :: AutoscalingSpec
  cs_Scheduling :: SchedulingSpec
  cs_PodDisruptionBudget :: PDBSpec
  cs_EscapeHatches :: "EscapeHatch list"

record ComputeStatus =
  compute_Conditions :: "json list"

type_synonym Compute = "(ComputeSpec, ComputeStatus) object"

section \<open>storage\_types.go\<close>

record VolumeSpec =
  vsp_Name :: string
  vsp_Size :: string
  vsp_MountPath :: string
  vsp_AccessModes :: "string list"

record StorageSpec =
  ss_TargetRef :: ResourceRef
  ss_StorageClassName :: string
  ss_Volumes :: "VolumeSpec list"
  ss_EscapeHatches :: "EscapeHatch list"

record StorageStatus =
  storage_Conditions :: "json list"

type_synonym Storage = "(StorageSpec, StorageStatus) object"

section \<open>networking\_types.go\<close>

record ServiceSpec =
  sspec_Ports :: "ServicePort list"
  sspec_Type :: string

record GatewayRoute =
  route_Hostnames :: "string list"
  route_Paths :: "string list"

record TLSSpec =
  tls_SecretName :: string

record IngressSpec =
  ingress_PrivateRoutes :: "GatewayRoute list"
  ingress_PublicRoutes :: "GatewayRoute list"
  ingress_TLS :: TLSSpec

record NetworkingSpec =
  ns_TargetRef :: ResourceRef
  ns_Service :: ServiceSpec
  ns_Ingress :: IngressSpec
  ns_EscapeHatches :: "EscapeHatch list"

record NetworkingStatus =
  networking_Conditions :: "json list"

type_synonym Networking = "(NetworkingSpec, NetworkingStatus) object"

section \<open>observability\_types.go\<close>

record ServiceMonitorSpec =
  sm_Enabled :: bool
  sm_Interval :: string
  sm_Path :: string

record PodMonitorSpec =
  pm_Enabled :: bool
  pm_Interval :: string
  pm_Path :: string

record ObservabilitySpec =
  os_TargetRef :: ResourceRef
  os_ServiceMonitor :: ServiceMonitorSpec
  os_PodMonitor :: PodMonitorSpec
  os_EscapeHatches :: "EscapeHatch list"

record ObservabilityStatus =
  observability_Conditions :: "json list"

type_synonym Observability = "(ObservabilitySpec, ObservabilityStatus) object"

section \<open>security\_types.go\<close>

record RBACSpec =
  rbac_CreateRole :: bool
  rbac_Rules :: "PolicyRule list"

record SecuritySpec =
  sec_TargetRef :: ResourceRef
  sec_RBAC :: RBACSpec
  sec_EscapeHatches :: "EscapeHatch list"

record SecurityStatus =
  security_Conditions :: "json list"

type_synonym Security = "(SecuritySpec, SecurityStatus) object"

section \<open>workload\_types.go\<close>

record WorkloadSpec =
  ws_TargetRef :: ResourceRef
  ws_Compute :: ComputeSpec
  ws_Storage :: StorageSpec
  ws_Networking :: NetworkingSpec
  ws_Observability :: ObservabilitySpec
  ws_Security :: SecuritySpec

record WorkloadStatus =
  workload_Conditions :: "json list"

type_synonym Workload = "(WorkloadSpec, WorkloadStatus) object"

section \<open>Zero values\<close>

text \<open>
  The value a Go variable of the type has before it is assigned: what
  \<^verbatim>\<open>&calypsov1alpha1.Compute{ObjectMeta: ...}\<close> leaves in the spec and the status.
\<close>

definition zero_ResourceRef :: ResourceRef where
  "zero_ResourceRef =
     \<lparr>ref_Resource = '''', ref_Kind = '''', ref_ApiVersion = '''', ref_Namespace = ''''\<rparr>"

definition zero_IntOrString :: IntOrString where
  "zero_IntOrString = \<lparr>ios_Type = 0, ios_IntVal = 0, ios_StrVal = ''''\<rparr>"

definition zero_Affinity :: Affinity where
  "zero_Affinity =
     \<lparr>aff_NodeAffinity = None, aff_PodAffinity = None, aff_PodAntiAffinity = None\<rparr>"

definition zero_AutoscalingSpec :: AutoscalingSpec where
  "zero_AutoscalingSpec =
     \<lparr>as_MinReplicas = 0, as_MaxReplicas = 0, as_TargetCPUUtilizationPercentage = 0,
      as_TargetMemoryUtilizationPercentage = 0\<rparr>"

definition zero_ComputeSpec :: ComputeSpec where
  "zero_ComputeSpec =
     \<lparr>cs_TargetRef = zero_ResourceRef,
      cs_Autoscaling = zero_AutoscalingSpec,
      cs_Scheduling = \<lparr>sch_NodeSelector = [], sch_Affinity = zero_Affinity,
                       sch_TopologySpreadConstraints = []\<rparr>,
      cs_PodDisruptionBudget = \<lparr>pdbs_MinAvailable = zero_IntOrString,
                                pdbs_MaxUnavailable = zero_IntOrString\<rparr>,
      cs_EscapeHatches = []\<rparr>"

definition zero_StorageSpec :: StorageSpec where
  "zero_StorageSpec =
     \<lparr>ss_TargetRef = zero_ResourceRef, ss_StorageClassName = '''', ss_Volumes = [],
      ss_EscapeHatches = []\<rparr>"

definition zero_NetworkingSpec :: NetworkingSpec where
  "zero_NetworkingSpec =
     \<lparr>ns_TargetRef = zero_ResourceRef,
      ns_Service = \<lparr>sspec_Ports = [], sspec_Type = ''''\<rparr>,
      ns_Ingress = \<lparr>ingress_PrivateRoutes = [], ingress_PublicRoutes = [],
                    ingress_TLS = \<lparr>tls_SecretName = ''''\<rparr>\<rparr>,
      ns_EscapeHatches = []\<rparr>"

definition zero_ObservabilitySpec :: ObservabilitySpec where
  "zero_ObservabilitySpec =
     \<lparr>os_TargetRef = zero_ResourceRef,
      os_ServiceMonitor = \<lparr>sm_Enabled = False, sm_Interval = '''', sm_Path = ''''\<rparr>,
      os_PodMonitor = \<lparr>pm_Enabled = False, pm_Interval = '''', pm_Path = ''''\<rparr>,
      os_EscapeHatches = []\<rparr>"

definition zero_SecuritySpec :: SecuritySpec where
  "zero_SecuritySpec =
     \<lparr>sec_TargetRef = zero_ResourceRef,
      sec_RBAC = \<lparr>rbac_CreateRole = False, rbac_Rules = []\<rparr>,
      sec_EscapeHatches = []\<rparr>"

lemmas zero_spec_defs =
  zero_ResourceRef_def zero_IntOrString_def zero_Affinity_def zero_AutoscalingSpec_def
  zero_ComputeSpec_def zero_StorageSpec_def zero_NetworkingSpec_def
  zero_ObservabilitySpec_def zero_SecuritySpec_def

end
