(* ===== verification/Api.thy ===== *)
theory Api
  imports V1alpha1
begin

text \<open>
  The code outside the repository that the reconcilers call, as parameters of the model.

  \<^item> \<open>api\<close> is the controller-runtime client for one kind: \<^verbatim>\<open>r.Get\<close>, \<^verbatim>\<open>r.List\<close>, \<^verbatim>\<open>r.Delete\<close>,
    \<^verbatim>\<open>r.Patch\<close> with \<^verbatim>\<open>client.MergeFrom\<close>, and \<^verbatim>\<open>controllerutil.CreateOrUpdate\<close>.  Every call may
    fail with any error, and every call may change the state \<open>'s\<close> of the environment.
  \<^item> \<open>lib\<close> collects the pure functions: \<^verbatim>\<open>client.IgnoreNotFound\<close>, \<^verbatim>\<open>apierrors.IsNotFound\<close>,
    \<^verbatim>\<open>ctrl.SetControllerReference\<close>, \<^verbatim>\<open>resource.ParseQuantity\<close> and the three entry points of
    \<^verbatim>\<open>json-patch\<close>.

  What the code relies on is stated as locales: \<open>runtime_lib\<close> for the pure functions,
  \<open>object_store\<close> for the client of one kind over an abstract store (\<open>view\<close>, the objects
  the API server holds), \<open>healthy_store\<close> for its behaviour while no call is disturbed by a
  fault, \<open>owner_child_stores\<close> for two kinds over the same state.  The locale predicates
  serve as the named hypotheses of the properties; \<open>Mem_Cluster\<close> interprets all of them.

  The laws idealise two things: reads are not stale, and the server stores the object it
  was sent (no defaulting, no admission plugin, no finalizer that delays a deletion).
\<close>

section \<open>The client and the library functions\<close>

record ('s, 'a) api =
  api_get :: "key \<Rightarrow> ('s, go_error + 'a) state"
  api_list :: "string \<Rightarrow> ('s, go_error + 'a list) state"
  api_delete :: "'a \<Rightarrow> ('s, go_error option) state"
  api_patch :: "'a \<Rightarrow> 'a \<Rightarrow> ('s, go_error option) state"
  api_createOrUpdate :: "'a \<Rightarrow> ('a \<Rightarrow> go_error + 'a) \<Rightarrow> ('s, go_error option) state"

text \<open>
  \<open>lib_SetControllerReference kind owner controlled\<close> gets the owner's kind (which the Go
  function looks up in the scheme) and the two object headers, and returns the changed
  header of the controlled object.  A decoded JSON patch is the list of its operations.
\<close>

record lib =
  lib_IgnoreNotFound :: "go_error \<Rightarrow> go_error option"
  lib_IsNotFound :: "go_error \<Rightarrow> bool"
  lib_SetControllerReference :: "string \<Rightarrow> ObjectMeta \<Rightarrow> ObjectMeta \<Rightarrow> go_error + ObjectMeta"
  lib_ParseQuantity :: "string \<Rightarrow> go_error + quantity"
  lib_DecodePatch :: "string \<Rightarrow> go_error + json list"
  lib_PatchApply :: "json list \<Rightarrow> json \<Rightarrow> go_error + json"
  lib_MergePatch :: "json \<Rightarrow> string \<Rightarrow> go_error + json"

text \<open>
  What a \<^verbatim>\<open>SetupWithManager\<close> tells the builder: the kind whose objects are reconciled, the
  kinds of children whose changes requeue their controller owner, the kinds watched through
  a map function, and the name of the controller.
\<close>

record controller_setup =
  setup_For :: string
  setup_Owns :: "string list"
  setup_Watches :: "string list"
  setup_Named :: string

text \<open>
  \<^verbatim>\<open>if err := ...; err != nil { return ctrl.Result{}, err }; return ctrl.Result{}, nil\<close> returns what
  the call returned.
\<close>

lemma return_error [simp]:
  "(case e of None \<Rightarrow> State_Monad.return None | Some x \<Rightarrow> State_Monad.return (Some x)) =
     State_Monad.return e"
  by (cases e) simp_all

text \<open>\<^verbatim>\<open>ctrl.SetControllerReference(&owner, target, r.Scheme)\<close> on a whole object.\<close>

definition set_owner ::
    "lib \<Rightarrow> string \<Rightarrow> ('p, 'q) object \<Rightarrow> ('sp, 'st) object \<Rightarrow> go_error + ('sp, 'st) object" where
  "set_owner L kind owner x =
     bind_sum (lib_SetControllerReference L kind (obj_Meta owner) (obj_Meta x))
       (\<lambda>m. Inr (x\<lparr>obj_Meta := m\<rparr>))"

text \<open>The controller owner references of a header, as kind and name.\<close>

definition controllers_of :: "ObjectMeta \<Rightarrow> (string \<times> string) list" where
  "controllers_of m =
     map (\<lambda>r. (or_Kind r, or_Name r)) (filter or_Controller (om_OwnerReferences m))"

section \<open>Laws of the library functions\<close>

text \<open>
  \<^item> \<^verbatim>\<open>IgnoreNotFound\<close> drops exactly the not-found errors.
  \<^item> \<^verbatim>\<open>SetControllerReference\<close> changes the owner references only, records the owner as
    controller, is idempotent, refuses an object another controller owns, and accepts one
  that no controller owns when the owner is cluster-scoped or of the object's namespace (the
  kinds of the owners are registered in the scheme, by the \<^verbatim>\<open>init\<close> function of \<^verbatim>\<open>main.go\<close>).
\<close>

locale runtime_lib =
  fixes L :: lib
  assumes ignore_not_found:
      "lib_IgnoreNotFound L e = (if lib_IsNotFound L e then None else Some e)"
    and scr_frame:
      "lib_SetControllerReference L kind owner m = Inr m' \<Longrightarrow>
         m' = m\<lparr>om_OwnerReferences := om_OwnerReferences m'\<rparr>"
    and scr_controls:
      "lib_SetControllerReference L kind owner m = Inr m' \<Longrightarrow>
         (kind, om_Name owner) \<in> set (controllers_of m')"
    and scr_idem:
      "lib_SetControllerReference L kind owner m = Inr m' \<Longrightarrow>
         lib_SetControllerReference L kind owner m' = Inr m'"
    and scr_refuses:
      "c \<in> set (controllers_of m) \<Longrightarrow> c \<noteq> (kind, om_Name owner) \<Longrightarrow>
         \<exists>e. lib_SetControllerReference L kind owner m = Inl e"
    and scr_accepts:
      "controllers_of m = [] \<Longrightarrow> om_Namespace owner \<in> {'''', om_Namespace m} \<Longrightarrow>
         \<exists>m'. lib_SetControllerReference L kind owner m = Inr m'"
begin

lemma scr_name:
  assumes "lib_SetControllerReference L kind owner m = Inr m'"
  shows "om_Name m' = om_Name m" and "om_Namespace m' = om_Namespace m"
  using arg_cong [OF scr_frame [OF assms], of om_Name]
    arg_cong [OF scr_frame [OF assms], of om_Namespace] by simp_all

lemma set_owner_InrD:
  assumes "set_owner L kind owner x = Inr y"
  shows "key_of y = key_of x" "obj_Spec y = obj_Spec x" "obj_Status y = obj_Status x"
    "obj_TypeMeta y = obj_TypeMeta x"
    "(kind, om_Name (obj_Meta owner)) \<in> set (controllers_of (obj_Meta y))"
  using assms
  by (auto simp: set_owner_def bind_sum_eq_Inr key_of_def scr_name scr_controls)

lemma set_owner_idem:
  assumes "set_owner L kind owner x = Inr y"
  shows "set_owner L kind owner y = Inr y"
proof -
  from assms obtain m where m: "lib_SetControllerReference L kind (obj_Meta owner) (obj_Meta x) = Inr m"
    and y: "y = x\<lparr>obj_Meta := m\<rparr>"
    by (auto simp: set_owner_def bind_sum_eq_Inr)
  from m have "lib_SetControllerReference L kind (obj_Meta owner) m = Inr m"
    by (rule scr_idem)
  then show ?thesis by (simp add: set_owner_def y)
qed

text \<open>Setting the owner and writing the spec are independent.\<close>

lemma set_owner_spec_update:
  "set_owner L kind owner (x\<lparr>obj_Spec := sp\<rparr>) =
     bind_sum (set_owner L kind owner x) (\<lambda>y. Inr (y\<lparr>obj_Spec := sp\<rparr>))"
  by (cases "lib_SetControllerReference L kind (obj_Meta owner) (obj_Meta x)")
    (simp_all add: set_owner_def)

text \<open>
  A callback that assigns fields of the spec and then sets the owner is idempotent when the
  assignment is.
\<close>

lemma set_owner_fill_idem:
  assumes "set_owner L kind owner (x\<lparr>obj_Spec := f (obj_Spec x)\<rparr>) = Inr y"
    and "\<And>a. f (f a) = f a"
  shows "set_owner L kind owner (y\<lparr>obj_Spec := f (obj_Spec y)\<rparr>) = Inr y"
proof -
  from set_owner_InrD(2) [OF assms(1)] assms(2) have "f (obj_Spec y) = obj_Spec y" by simp
  then have "y\<lparr>obj_Spec := f (obj_Spec y)\<rparr> = y" by simp
  with set_owner_idem [OF assms(1)] show ?thesis by simp
qed

lemma set_owner_accepts:
  assumes "controllers_of (obj_Meta x) = []"
    and "om_Namespace (obj_Meta owner) \<in> {'''', om_Namespace (obj_Meta x)}"
  obtains y where "set_owner L kind owner x = Inr y"
proof -
  obtain m where "lib_SetControllerReference L kind (obj_Meta owner) (obj_Meta x) = Inr m"
    using scr_accepts [OF assms] by blast
  then have "set_owner L kind owner x = Inr (x\<lparr>obj_Meta := m\<rparr>)" by (simp add: set_owner_def)
  then show thesis by (rule that)
qed

lemma set_owner_header:
  assumes "set_owner L kind owner x = Inr y"
  shows "obj_Meta y = (obj_Meta x)\<lparr>om_OwnerReferences := om_OwnerReferences (obj_Meta y)\<rparr>"
  using assms scr_frame by (auto simp: set_owner_def bind_sum_eq_Inr)

lemma set_owner_labels:
  assumes "set_owner L kind owner x = Inr y"
  shows "om_Labels (obj_Meta y) = om_Labels (obj_Meta x)"
  using assms arg_cong [OF scr_frame, of kind "obj_Meta owner" "obj_Meta x" _ om_Labels]
  by (auto simp: set_owner_def bind_sum_eq_Inr)

lemma set_owner_refuses:
  assumes "c \<in> set (controllers_of (obj_Meta x))" and "c \<noteq> (kind, om_Name (obj_Meta owner))"
  shows "\<exists>e. set_owner L kind owner x = Inl e"
  using scr_refuses [OF assms] by (auto simp: set_owner_def)

end

section \<open>The store behind the client of one kind\<close>

text \<open>
  \<open>view s\<close> is what the API server holds in state \<open>s\<close>.  A failed write may or may not have
  taken effect (the answer can be lost), but it changes no other key.
\<close>

definition current :: "(key \<Rightarrow> 'a option) \<Rightarrow> key \<Rightarrow> 'a \<Rightarrow> 'a" where
  "current v k x = (case v k of None \<Rightarrow> x | Some y \<Rightarrow> y)"

text \<open>Every stored object has a property.\<close>

definition all_stored :: "(key \<Rightarrow> 'a option) \<Rightarrow> ('a \<Rightarrow> bool) \<Rightarrow> bool" where
  "all_stored v P \<longleftrightarrow> (\<forall>k y. v k = Some y \<longrightarrow> P y)"

lemma all_storedI: "(\<And>k y. v k = Some y \<Longrightarrow> P y) \<Longrightarrow> all_stored v P"
  unfolding all_stored_def by blast

lemma all_storedD: "all_stored v P \<Longrightarrow> v k = Some y \<Longrightarrow> P y"
  unfolding all_stored_def by blast

lemma all_stored_upd: "all_stored v P \<Longrightarrow> P y \<Longrightarrow> all_stored (v(k \<mapsto> y)) P"
  by (simp add: all_stored_def)

lemma all_stored_del: "all_stored v P \<Longrightarrow> all_stored (v(k := None)) P"
  by (simp add: all_stored_def)

locale object_store =
  fixes api :: "('s, ('sp, 'st) object) api"
    and view :: "'s \<Rightarrow> key \<Rightarrow> ('sp, 'st) object option"
    and is_nf :: "go_error \<Rightarrow> bool"
  assumes view_key: "view s k = Some x \<Longrightarrow> key_of x = k"
    and get_view: "preserves view (api_get api k)"
    and get_found: "run_state (api_get api k) s = (Inr x, s') \<Longrightarrow> view s k = Some x"
    and get_missing: "run_state (api_get api k) s = (Inl e, s') \<Longrightarrow> is_nf e \<Longrightarrow> view s k = None"
    and list_view: "preserves view (api_list api ns)"
    and list_found:
      "run_state (api_list api ns) s = (Inr xs, s') \<Longrightarrow>
         set xs = {x. \<exists>n. view s (ns, n) = Some x}"
    and delete_ok:
      "run_state (api_delete api x) s = (None, s') \<Longrightarrow> view s' = (view s)(key_of x := None)"
    and delete_err:
      "run_state (api_delete api x) s = (Some e, s') \<Longrightarrow>
         view s' = view s \<or> view s' = (view s)(key_of x := None)"
    and cou_ok:
      "run_state (api_createOrUpdate api x f) s = (None, s') \<Longrightarrow>
         \<exists>y. f (current (view s) (key_of x) x) = Inr y \<and> key_of y = key_of x \<and>
             view s' = (view s)(key_of x \<mapsto> y)"
    and cou_err:
      "run_state (api_createOrUpdate api x f) s = (Some e, s') \<Longrightarrow>
         view s' = view s \<or>
         (\<exists>y. f (current (view s) (key_of x) x) = Inr y \<and> key_of y = key_of x \<and>
              view s' = (view s)(key_of x \<mapsto> y))"
    and patch_ok:
      "run_state (api_patch api new old) s = (None, s') \<Longrightarrow> view s (key_of new) = Some old \<Longrightarrow>
         view s' = (view s)(key_of new \<mapsto> new)"
    and patch_err:
      "run_state (api_patch api new old) s = (Some e, s') \<Longrightarrow> view s (key_of new) = Some old \<Longrightarrow>
         view s' = view s \<or> view s' = (view s)(key_of new \<mapsto> new)"
    and patch_frame:
      "run_state (api_patch api new old) s = (r, s') \<Longrightarrow> k \<noteq> key_of new \<Longrightarrow>
         view s' k = view s k"
begin

lemma get_result:
  assumes "run_state (api_get api k) s = (r, s')"
  shows "view s' = view s"
  using get_view assms by (rule preservesD)

lemma get_of_present:
  assumes "run_state (api_get api k) s = (r, s')" and "view s k = Some x"
  obtains (found) "r = Inr x" | (failed) e where "r = Inl e" "\<not> is_nf e"
proof (cases r)
  case (Inl e)
  with assms get_missing have "\<not> is_nf e" by fastforce
  with Inl show ?thesis by (rule failed)
next
  case (Inr y)
  with assms get_found have "r = Inr x" by fastforce
  then show ?thesis by (rule found)
qed

lemma get_of_absent:
  assumes "run_state (api_get api k) s = (r, s')" and "view s k = None"
  obtains e where "r = Inl e"
  using assms get_found by (cases r) fastforce+

text \<open>The keys of the listed objects that satisfy a condition.\<close>

lemma list_keys:
  assumes "run_state (api_list api ns) s = (Inr xs, s')"
  shows "set (map key_of (filter p xs)) = {k. \<exists>x. view s k = Some x \<and> fst k = ns \<and> p x}"
proof (intro set_eqI iffI)
  fix k
  assume "k \<in> set (map key_of (filter p xs))"
  then obtain x where x: "k = key_of x" "x \<in> set xs" "p x" by auto
  then obtain n where "view s (ns, n) = Some x" using list_found [OF assms] by auto
  with x view_key [OF this] show "k \<in> {k. \<exists>x. view s k = Some x \<and> fst k = ns \<and> p x}" by auto
next
  fix k
  assume "k \<in> {k. \<exists>x. view s k = Some x \<and> fst k = ns \<and> p x}"
  then obtain x n where x: "view s (ns, n) = Some x" "p x" "k = (ns, n)" by (cases k) auto
  then have "x \<in> set (filter p xs)" using list_found [OF assms] by auto
  with x view_key [OF x(1)] show "k \<in> set (map key_of (filter p xs))" by (metis image_eqI set_map)
qed

text \<open>Whatever a write returns, the view changes at its own key only.\<close>

lemma delete_frame:
  assumes "run_state (api_delete api x) s = (r, s')" and "k \<noteq> key_of x"
  shows "view s' k = view s k"
  using assms delete_ok delete_err by (cases r) fastforce+

lemma cou_frame:
  assumes "run_state (api_createOrUpdate api x f) s = (r, s')" and "k \<noteq> key_of x"
  shows "view s' k = view s k"
proof (cases r)
  case None
  with assms cou_ok show ?thesis by fastforce
next
  case (Some e)
  with assms cou_err show ?thesis by fastforce
qed

text \<open>The two outcomes of a create-or-update at its own key.\<close>

lemma cou_cases:
  assumes "run_state (api_createOrUpdate api x f) s = (r, s')"
  obtains (unchanged) "r \<noteq> None" "view s' = view s"
  | (written) y where "f (current (view s) (key_of x) x) = Inr y" "key_of y = key_of x"
      "view s' = (view s)(key_of x \<mapsto> y)"
  using assms cou_ok cou_err by (cases r) blast+

lemma cou_callback_fails:
  assumes "run_state (api_createOrUpdate api x f) s = (r, s')"
    and "f (current (view s) (key_of x) x) = Inl e"
  shows "r \<noteq> None" and "view s' = view s"
  using assms by (auto elim: cou_cases)

end

section \<open>Undisturbed operation\<close>

text \<open>
  In a healthy state no fault interferes: a read of a stored object finds it, a read of a
  missing one says so, a write goes through, and the state stays healthy.
\<close>

locale healthy_store = object_store api view is_nf
  for api :: "('s, ('sp, 'st) object) api" and view and is_nf +
  fixes healthy :: "'s \<Rightarrow> bool"
  assumes healthy_get:
      "healthy s \<Longrightarrow> run_state (api_get api k) s = (rg, s') \<Longrightarrow>
         healthy s' \<and> (view s k = None \<longrightarrow> (\<exists>e. rg = Inl e \<and> is_nf e)) \<and>
         (\<forall>x. view s k = Some x \<longrightarrow> rg = Inr x)"
    and healthy_delete:
      "healthy s \<Longrightarrow> run_state (api_delete api x) s = (r, s') \<Longrightarrow>
         healthy s' \<and> (view s (key_of x) \<noteq> None \<longrightarrow> r = None)"
    and healthy_cou:
      "healthy s \<Longrightarrow> run_state (api_createOrUpdate api x f) s = (r, s') \<Longrightarrow>
         healthy s' \<and>
         (\<forall>e. f (current (view s) (key_of x) x) = Inl e \<longrightarrow> r = Some e) \<and>
         (\<forall>y. f (current (view s) (key_of x) x) = Inr y \<and> key_of y = key_of x \<longrightarrow> r = None)"
    and healthy_patch:
      "healthy s \<Longrightarrow> run_state (api_patch api new old) s = (r, s') \<Longrightarrow>
         healthy s' \<and> (view s (key_of new) = Some old \<longrightarrow> r = None)"
    and healthy_list:
      "healthy s \<Longrightarrow> run_state (api_list api ns) s = (rl, s') \<Longrightarrow>
         healthy s' \<and> (\<exists>xs. rl = Inr xs)"

text \<open>An undisturbed create-or-update stores what the callback returns, or reports why not.\<close>

context healthy_store begin

lemma healthy_cou_result:
  assumes h: "healthy s" and run: "run_state (api_createOrUpdate api x f) s = (r, s')"
  shows "healthy s' \<and>
    (case f (current (view s) (key_of x) x) of
       Inl e \<Rightarrow> r \<noteq> None \<and> view s' = view s
     | Inr y \<Rightarrow> if key_of y = key_of x then r = None \<and> view s' = (view s)(key_of x \<mapsto> y)
                else r \<noteq> None \<and> view s' = view s)"
proof -
  note hc = healthy_cou [OF h run]
  from run show ?thesis
  proof (cases rule: cou_cases)
    case unchanged
    with hc show ?thesis by (auto split: sum.splits)
  next
    case (written y)
    with hc show ?thesis by simp
  qed
qed

end

section \<open>Two kinds over one state\<close>

text \<open>The operations on one kind leave the objects of the other kind alone.\<close>

definition foreign_to ::
    "('s, ('sp, 'st) object) api \<Rightarrow> ('s \<Rightarrow> 'v) \<Rightarrow> bool" where
  "foreign_to api view \<longleftrightarrow>
     (\<forall>k. preserves view (api_get api k)) \<and> (\<forall>n. preserves view (api_list api n)) \<and>
     (\<forall>x. preserves view (api_delete api x)) \<and> (\<forall>x y. preserves view (api_patch api x y)) \<and>
     (\<forall>x f. preserves view (api_createOrUpdate api x f))"

lemma foreign_toD:
  assumes "foreign_to api view"
  shows "preserves view (api_get api k)" "preserves view (api_list api n)"
    "preserves view (api_delete api x)" "preserves view (api_patch api x y)"
    "preserves view (api_createOrUpdate api x f)"
  using assms unfolding foreign_to_def by blast+

locale owner_child_stores =
  O: object_store oapi oview is_nf + C: object_store capi cview is_nf
  for oapi :: "('s, ('op, 'oq) object) api" and oview
    and capi :: "('s, ('cp, 'cq) object) api" and cview and is_nf +
  assumes owner_foreign: "foreign_to oapi cview"
    and child_foreign: "foreign_to capi oview"
begin

lemmas owner_frame = foreign_toD [OF owner_foreign]
lemmas child_frame = foreign_toD [OF child_foreign]

lemma owner_get_cview:
  assumes "run_state (api_get oapi req) s = (g, t)"
  shows "cview t = cview s"
  using owner_frame(1) assms by (rule preservesD)

end

locale healthy_stores = owner_child_stores +
  OH: healthy_store oapi oview is_nf healthy + CH: healthy_store capi cview is_nf healthy
  for healthy

end
