(* ===== verification/Patch_Engine.thy ===== *)
theory Patch_Engine
  imports Api
begin

text \<open>
  \<^verbatim>\<open>pkg/patch/patch_engine.go\<close>: the escape hatches.  A hatch whose kind matches the target
  kind is applied by marshalling the object, patching the JSON and unmarshalling the result
  into the object again; the others are skipped.

  \<open>ApplyEscapeHatches\<close> is the function on object values.  \<open>apply_hatches_heap\<close> is the same
  code over an explicit heap of objects, where the copy is a cell of its own and
  \<^verbatim>\<open>json.Unmarshal\<close> writes through its pointer argument, also when it returns an error; the
  refinement theorem relates the two and shows that the caller's object is never written.

  Marshalling is a parameter (\<open>codec\<close>): the JSON form of the patched kinds is fixed by the
  struct tags and custom marshallers of \<^verbatim>\<open>k8s.io/api\<close>.  \<open>Go_Json\<close> gives the codec of
  \<^verbatim>\<open>encoding/json\<close> for types without custom marshallers.
\<close>

section \<open>Marshalling\<close>

text \<open>
  \<open>codec_Unmarshal doc x\<close> is \<^verbatim>\<open>json.Unmarshal(doc, &x)\<close>: the value \<open>x\<close> ends with, and the
  error.  Unmarshalling starts from the value the target has.
\<close>

record 'o codec =
  codec_Marshal :: "'o \<Rightarrow> go_error + json"
  codec_Unmarshal :: "json \<Rightarrow> 'o \<Rightarrow> 'o \<times> go_error option"

section \<open>The function on values\<close>

text \<open>The two ways to patch a document: the \<^verbatim>\<open>switch hatch.PatchType\<close>.\<close>

definition patch_document ::
    "lib \<Rightarrow> EscapeHatch \<Rightarrow> string \<Rightarrow> json \<Rightarrow> go_error + json" where
  "patch_document L hatch targetKind originalJSON =
     (if hatch_PatchType hatch = ''JSONPatch'' then
        (case lib_DecodePatch L (hatch_Patch hatch) of
           Inl err \<Rightarrow> Inl (wrap ''failed to decode JSONPatch for kind %s: %w'' [targetKind] err)
         | Inr patch \<Rightarrow>
             (case lib_PatchApply L patch originalJSON of
                Inl err \<Rightarrow> Inl (wrap ''failed to apply JSONPatch for kind %s: %w'' [targetKind] err)
              | Inr patchedJSON \<Rightarrow> Inr patchedJSON))
      else if hatch_PatchType hatch = ''JSONMergePatch'' then
        (case lib_MergePatch L originalJSON (hatch_Patch hatch) of
           Inl err \<Rightarrow> Inl (wrap ''failed to apply JSONMergePatch for kind %s: %w'' [targetKind] err)
         | Inr patchedJSON \<Rightarrow> Inr patchedJSON)
      else Inl (Errorf ''unsupported patch type %q for kind %s''
                  [hatch_PatchType hatch, targetKind] None))"

text \<open>One iteration of the loop, for a hatch that matches.\<close>

definition apply_hatch ::
    "lib \<Rightarrow> 'o codec \<Rightarrow> EscapeHatch \<Rightarrow> string \<Rightarrow> 'o \<Rightarrow> go_error + 'o" where
  "apply_hatch L cod hatch targetKind patchedObj =
     (case codec_Marshal cod patchedObj of
        Inl err \<Rightarrow> Inl (wrap ''failed to marshal object of kind %s to JSON: %w'' [targetKind] err)
      | Inr originalJSON \<Rightarrow>
          (case patch_document L hatch targetKind originalJSON of
             Inl err \<Rightarrow> Inl err
           | Inr patchedJSON \<Rightarrow>
               (case codec_Unmarshal cod patchedJSON patchedObj of
                  (_, Some err) \<Rightarrow>
                    Inl (wrap ''failed to unmarshal patched JSON back to object of kind %s: %w''
                           [targetKind] err)
                | (obj, None) \<Rightarrow> Inr obj)))"

fun ApplyEscapeHatches ::
    "lib \<Rightarrow> 'o codec \<Rightarrow> 'o \<Rightarrow> EscapeHatch list \<Rightarrow> string \<Rightarrow> go_error + 'o" where
  "ApplyEscapeHatches L cod obj [] targetKind = Inr obj"
| "ApplyEscapeHatches L cod obj (hatch # hatches) targetKind =
     (if hatch_Kind hatch \<noteq> targetKind then ApplyEscapeHatches L cod obj hatches targetKind
      else (case apply_hatch L cod hatch targetKind obj of
              Inl err \<Rightarrow> Inl err
            | Inr obj' \<Rightarrow> ApplyEscapeHatches L cod obj' hatches targetKind))"

text \<open>The hatches meant for one kind.\<close>

definition hatches_for :: "string \<Rightarrow> EscapeHatch list \<Rightarrow> EscapeHatch list" where
  "hatches_for targetKind = filter (\<lambda>h. hatch_Kind h = targetKind)"

lemma hatches_for_simps [simp]:
  "hatches_for k [] = []"
  "hatches_for k (h # hs) = (if hatch_Kind h = k then h # hatches_for k hs else hatches_for k hs)"
  "hatches_for k (hs @ hs') = hatches_for k hs @ hatches_for k hs'"
  by (simp_all add: hatches_for_def)

lemma ApplyEscapeHatches_append:
  "ApplyEscapeHatches L cod obj (hs @ hs') k =
     bind_sum (ApplyEscapeHatches L cod obj hs k) (\<lambda>o'. ApplyEscapeHatches L cod o' hs' k)"
  by (induction hs arbitrary: obj) (auto split: sum.splits)

lemma ApplyEscapeHatches_hatches_for:
  "ApplyEscapeHatches L cod obj hs k = ApplyEscapeHatches L cod obj (hatches_for k hs) k"
  by (induction hs arbitrary: obj) (auto split: sum.splits)

lemma ApplyEscapeHatches_none [simp]:
  "hatches_for k hs = [] \<Longrightarrow> ApplyEscapeHatches L cod obj hs k = Inr obj"
  by (subst ApplyEscapeHatches_hatches_for) simp

text \<open>An invariant of the object that every matching hatch keeps holds of the result.\<close>

lemma ApplyEscapeHatches_invariant:
  assumes "ApplyEscapeHatches L cod obj hs k = Inr obj'" and "P obj"
    and "\<And>h x y. h \<in> set hs \<Longrightarrow> hatch_Kind h = k \<Longrightarrow> P x \<Longrightarrow> apply_hatch L cod h k x = Inr y \<Longrightarrow> P y"
  shows "P obj'"
  using assms
proof (induction hs arbitrary: obj)
  case Nil
  then show ?case by simp
next
  case (Cons a hs)
  have rest: "P x \<Longrightarrow> ApplyEscapeHatches L cod x hs k = Inr obj' \<Longrightarrow> P obj'" for x
    using Cons.prems(3) by (intro Cons.IH) auto
  show ?case
    using Cons.prems(1,2) Cons.prems(3) [of a] rest by (auto split: if_splits sum.splits)
qed

section \<open>The function over a heap\<close>

text \<open>
  A heap maps addresses to objects.  \<^verbatim>\<open>DeepCopyObject\<close> allocates a cell that was free; the
  loop writes that cell only.
\<close>

type_synonym 'o heap = "nat \<Rightarrow> 'o option"

text \<open>Dereferencing a pointer that is not allocated is a panic; \<open>None\<close> as a whole result.\<close>

fun hatch_loop_heap ::
    "lib \<Rightarrow> 'o codec \<Rightarrow> nat \<Rightarrow> EscapeHatch list \<Rightarrow> string \<Rightarrow> 'o heap \<Rightarrow>
     ((go_error + nat) \<times> 'o heap) option" where
  "hatch_loop_heap L cod patched [] targetKind h = Some (Inr patched, h)"
| "hatch_loop_heap L cod patched (hatch # hatches) targetKind h =
     (if hatch_Kind hatch \<noteq> targetKind then hatch_loop_heap L cod patched hatches targetKind h
      else (case h patched of
              None \<Rightarrow> None
            | Some x \<Rightarrow>
                (case codec_Marshal cod x of
                   Inl err \<Rightarrow>
                     Some (Inl (wrap ''failed to marshal object of kind %s to JSON: %w''
                                  [targetKind] err), h)
                 | Inr originalJSON \<Rightarrow>
                     (case patch_document L hatch targetKind originalJSON of
                        Inl err \<Rightarrow> Some (Inl err, h)
                      | Inr patchedJSON \<Rightarrow>
                          (case codec_Unmarshal cod patchedJSON x of
                             (y, Some err) \<Rightarrow>
                               Some (Inl (wrap ''failed to unmarshal patched JSON back to object of kind %s: %w''
                                            [targetKind] err), h(patched \<mapsto> y))
                           | (y, None) \<Rightarrow>
                               hatch_loop_heap L cod patched hatches targetKind (h(patched \<mapsto> y)))))))"

definition apply_hatches_heap ::
    "lib \<Rightarrow> 'o codec \<Rightarrow> nat \<Rightarrow> nat \<Rightarrow> EscapeHatch list \<Rightarrow> string \<Rightarrow> 'o heap \<Rightarrow>
     ((go_error + nat) \<times> 'o heap) option" where
  "apply_hatches_heap L cod free obj hatches targetKind h =
     (case h obj of
        None \<Rightarrow> None
      | Some x \<Rightarrow> hatch_loop_heap L cod free hatches targetKind (h(free \<mapsto> x)))"

lemma hatch_loop_heap_refines:
  assumes "h patched = Some x"
  shows "\<exists>r h'. hatch_loop_heap L cod patched hs k h = Some (r, h') \<and>
    (\<forall>a. a \<noteq> patched \<longrightarrow> h' a = h a) \<and>
    (case ApplyEscapeHatches L cod x hs k of
       Inl e \<Rightarrow> r = Inl e
     | Inr y \<Rightarrow> r = Inr patched \<and> h' patched = Some y)"
  using assms
proof (induction hs arbitrary: h x)
  case Nil
  then show ?case by simp
next
  case (Cons hd hs)
  show ?case
  proof (cases "apply_hatch L cod hd k x")
    case (Inl e)
    with Cons show ?thesis
      by (auto simp: apply_hatch_def split: sum.splits prod.splits option.splits)
  next
    case (Inr y)
    have "\<exists>r h'. hatch_loop_heap L cod patched hs k (h(patched \<mapsto> y)) = Some (r, h') \<and>
        (\<forall>a. a \<noteq> patched \<longrightarrow> h' a = (h(patched \<mapsto> y)) a) \<and>
        (case ApplyEscapeHatches L cod y hs k of
           Inl e \<Rightarrow> r = Inl e | Inr z \<Rightarrow> r = Inr patched \<and> h' patched = Some z)"
      by (rule Cons.IH) simp
    with Inr Cons show ?thesis
      by (auto simp: apply_hatch_def split: sum.splits prod.splits option.splits)
  qed
qed

end
