(* ===== verification/Mem_Cluster.thy ===== *)
theory Mem_Cluster
  imports Api
begin

text \<open>
  An in-memory cluster: the instance of the client interface on which the properties are
  evaluated.  One list of objects per kind, and a script of faults that the next calls
  meet: \<open>Drop\<close> loses the request, \<open>Lost\<close> loses the answer of a request that was carried out,
  \<open>Pass\<close> disturbs nothing.  An empty script is a healthy cluster.  \<open>CreateOrUpdate\<close> makes two
  calls, a read and, unless the callback left a stored object as it was, a write.

  Every kind of the cluster satisfies the laws of \<open>Api\<close>: \<open>cluster_store\<close> proves them once for
  any pair of a selector and an update, and the interpretations give them for all kinds.
\<close>

section \<open>State\<close>

datatype fault = Pass | Drop string | Lost string

record cluster =
  cl_faults :: "fault list"
  cl_workloads :: "Workload list"
  cl_computes :: "Compute list"
  cl_storages :: "Storage list"
  cl_networkings :: "Networking list"
  cl_observabilities :: "Observability list"
  cl_securities :: "Security list"
  cl_deployments :: "Deployment list"
  cl_hpas :: "HorizontalPodAutoscaler list"
  cl_pdbs :: "PodDisruptionBudget list"
  cl_pvcs :: "PersistentVolumeClaim list"
  cl_services :: "Service list"
  cl_ingresses :: "Ingress list"
  cl_podmonitors :: "Unstructured list"
  cl_servicemonitors :: "Unstructured list"
  cl_roles :: "Role list"
  cl_rolebindings :: "RoleBinding list"

definition empty_cluster :: cluster where
  "empty_cluster =
     \<lparr>cl_faults = [], cl_workloads = [], cl_computes = [], cl_storages = [],
      cl_networkings = [], cl_observabilities = [], cl_securities = [],
      cl_deployments = [], cl_hpas = [], cl_pdbs = [], cl_pvcs = [], cl_services = [],
      cl_ingresses = [], cl_podmonitors = [], cl_servicemonitors = [], cl_roles = [],
      cl_rolebindings = []\<rparr>"

definition mem_healthy :: "cluster \<Rightarrow> bool" where
  "mem_healthy c \<longleftrightarrow> cl_faults c = []"

section \<open>Objects of one kind\<close>

definition lookup :: "('sp, 'st) object list \<Rightarrow> key \<Rightarrow> ('sp, 'st) object option" where
  "lookup xs k = find (\<lambda>x. key_of x = k) xs"

definition remove :: "key \<Rightarrow> ('sp, 'st) object list \<Rightarrow> ('sp, 'st) object list" where
  "remove k xs = filter (\<lambda>x. key_of x \<noteq> k) xs"

definition store :: "('sp, 'st) object \<Rightarrow> ('sp, 'st) object list \<Rightarrow> ('sp, 'st) object list" where
  "store x xs = x # remove (key_of x) xs"

lemma lookup_key: "lookup xs k = Some x \<Longrightarrow> key_of x = k"
  by (auto simp: lookup_def find_Some_iff)

lemma lookup_remove: "lookup (remove k xs) = (lookup xs)(k := None)"
proof
  fix k'
  show "lookup (remove k xs) k' = ((lookup xs)(k := None)) k'"
    by (induction xs) (auto simp: lookup_def remove_def)
qed

lemma lookup_store: "lookup (store x xs) = (lookup xs)(key_of x \<mapsto> x)"
proof
  fix k'
  show "lookup (store x xs) k' = ((lookup xs)(key_of x \<mapsto> x)) k'"
    using fun_cong [OF lookup_remove [of "key_of x" xs], of k']
    by (auto simp: lookup_def store_def)
qed

lemma lookup_mem: "lookup xs k = Some x \<Longrightarrow> x \<in> set xs"
  by (auto simp: lookup_def find_Some_iff)

section \<open>The client\<close>

definition not_found :: go_error where
  "not_found = LibError ''NotFound''"

definition fault_error :: "string \<Rightarrow> go_error" where
  "fault_error msg = LibError (''fault: '' @ msg)"

definition mem_nf :: "go_error \<Rightarrow> bool" where
  "mem_nf e \<longleftrightarrow> e = not_found"

lemma mem_nf_simps [simp]:
  "mem_nf not_found" "\<not> mem_nf (fault_error msg)"
  by (simp_all add: mem_nf_def not_found_def fault_error_def)

definition next_fault :: "(cluster, fault) state" where
  "next_fault = State (\<lambda>c. case cl_faults c of
     [] \<Rightarrow> (Pass, c) | f # fs \<Rightarrow> (f, c\<lparr>cl_faults := fs\<rparr>))"

text \<open>A read meets one fault; a write is carried out unless its request is dropped.\<close>

definition reading :: "(cluster \<Rightarrow> go_error + 'r) \<Rightarrow> (cluster, go_error + 'r) state" where
  "reading f = do {
     ft \<leftarrow> next_fault;
     (case ft of
        Pass \<Rightarrow> State (\<lambda>c. (f c, c))
      | Drop msg \<Rightarrow> State_Monad.return (Inl (fault_error msg))
      | Lost msg \<Rightarrow> State_Monad.return (Inl (fault_error msg)))
   }"

definition writing :: "(cluster \<Rightarrow> cluster) \<Rightarrow> (cluster, go_error option) state" where
  "writing w = do {
     ft \<leftarrow> next_fault;
     (case ft of
        Pass \<Rightarrow> State (\<lambda>c. (None, w c))
      | Drop msg \<Rightarrow> State_Monad.return (Some (fault_error msg))
      | Lost msg \<Rightarrow> State (\<lambda>c. (Some (fault_error msg), w c)))
   }"

definition or_not_found :: "'x option \<Rightarrow> go_error + 'x" where
  "or_not_found r = (case r of None \<Rightarrow> Inl not_found | Some x \<Rightarrow> Inr x)"

definition mem_api ::
    "(cluster \<Rightarrow> ('sp, 'st) object list) \<Rightarrow>
     ((('sp, 'st) object list \<Rightarrow> ('sp, 'st) object list) \<Rightarrow> cluster \<Rightarrow> cluster) \<Rightarrow>
     (cluster, ('sp, 'st) object) api" where
  "mem_api sel upd =
     \<lparr>api_get = (\<lambda>k. reading (\<lambda>c. or_not_found (lookup (sel c) k))),
      api_list = (\<lambda>ns. reading (\<lambda>c. Inr (filter (\<lambda>x. fst (key_of x) = ns \<and>
                        lookup (sel c) (key_of x) = Some x) (sel c)))),
      api_delete = (\<lambda>x. do {
        r \<leftarrow> reading (\<lambda>c. or_not_found (lookup (sel c) (key_of x)));
        (case r of Inl e \<Rightarrow> State_Monad.return (Some e)
         | Inr _ \<Rightarrow> writing (upd (remove (key_of x))))
      }),
      api_patch = (\<lambda>new old. do {
        r \<leftarrow> reading (\<lambda>c. or_not_found (lookup (sel c) (key_of new)));
        (case r of Inl e \<Rightarrow> State_Monad.return (Some e)
         | Inr x \<Rightarrow> if x = old then writing (upd (store new))
                    else State_Monad.return (Some (LibError ''Conflict'')))
      }),
      api_createOrUpdate = (\<lambda>x f. do {
        r \<leftarrow> reading (\<lambda>c. Inr (lookup (sel c) (key_of x)));
        (case r of
           Inl e \<Rightarrow> State_Monad.return (Some e)
         | Inr old \<Rightarrow>
             (case f (case old of None \<Rightarrow> x | Some z \<Rightarrow> z) of
                Inl e \<Rightarrow> State_Monad.return (Some e)
              | Inr y \<Rightarrow>
                  if key_of y \<noteq> key_of x then State_Monad.return (Some (LibError ''MutateFn''))
                  else if old = Some y then State_Monad.return None
                  else writing (upd (store y))))
      })\<rparr>"

definition mem_view ::
    "(cluster \<Rightarrow> ('sp, 'st) object list) \<Rightarrow> cluster \<Rightarrow> key \<Rightarrow> ('sp, 'st) object option" where
  "mem_view sel c = lookup (sel c)"

text \<open>The client of each kind and the view behind it.\<close>

abbreviation "workloads_api \<equiv> mem_api cl_workloads cl_workloads_update"
abbreviation "computes_api \<equiv> mem_api cl_computes cl_computes_update"
abbreviation "storages_api \<equiv> mem_api cl_storages cl_storages_update"
abbreviation "networkings_api \<equiv> mem_api cl_networkings cl_networkings_update"
abbreviation "observabilities_api \<equiv> mem_api cl_observabilities cl_observabilities_update"
abbreviation "securities_api \<equiv> mem_api cl_securities cl_securities_update"
abbreviation "deployments_api \<equiv> mem_api cl_deployments cl_deployments_update"
abbreviation "hpas_api \<equiv> mem_api cl_hpas cl_hpas_update"
abbreviation "pdbs_api \<equiv> mem_api cl_pdbs cl_pdbs_update"
abbreviation "pvcs_api \<equiv> mem_api cl_pvcs cl_pvcs_update"
abbreviation "services_api \<equiv> mem_api cl_services cl_services_update"
abbreviation "ingresses_api \<equiv> mem_api cl_ingresses cl_ingresses_update"
abbreviation "podmonitors_api \<equiv> mem_api cl_podmonitors cl_podmonitors_update"
abbreviation "servicemonitors_api \<equiv> mem_api cl_servicemonitors cl_servicemonitors_update"
abbreviation "roles_api \<equiv> mem_api cl_roles cl_roles_update"
abbreviation "rolebindings_api \<equiv> mem_api cl_rolebindings cl_rolebindings_update"

abbreviation "workloads_view \<equiv> mem_view cl_workloads"
abbreviation "computes_view \<equiv> mem_view cl_computes"
abbreviation "storages_view \<equiv> mem_view cl_storages"
abbreviation "networkings_view \<equiv> mem_view cl_networkings"
abbreviation "observabilities_view \<equiv> mem_view cl_observabilities"
abbreviation "securities_view \<equiv> mem_view cl_securities"
abbreviation "deployments_view \<equiv> mem_view cl_deployments"
abbreviation "hpas_view \<equiv> mem_view cl_hpas"
abbreviation "pdbs_view \<equiv> mem_view cl_pdbs"
abbreviation "pvcs_view \<equiv> mem_view cl_pvcs"
abbreviation "services_view \<equiv> mem_view cl_services"
abbreviation "ingresses_view \<equiv> mem_view cl_ingresses"
abbreviation "podmonitors_view \<equiv> mem_view cl_podmonitors"
abbreviation "servicemonitors_view \<equiv> mem_view cl_servicemonitors"
abbreviation "roles_view \<equiv> mem_view cl_roles"
abbreviation "rolebindings_view \<equiv> mem_view cl_rolebindings"

section \<open>The laws, for any kind\<close>

locale cluster_store =
  fixes sel :: "cluster \<Rightarrow> ('sp, 'st) object list"
    and upd :: "(('sp, 'st) object list \<Rightarrow> ('sp, 'st) object list) \<Rightarrow> cluster \<Rightarrow> cluster"
  assumes sel_upd: "sel (upd f c) = f (sel c)"
    and faults_upd: "cl_faults (upd f c) = cl_faults c"
    and sel_faults: "sel (c\<lparr>cl_faults := fs\<rparr>) = sel c"
begin

lemma next_fault_run:
  "run_state next_fault c = (ft, c') \<Longrightarrow> sel c' = sel c \<and> (mem_healthy c \<longrightarrow> ft = Pass \<and> c' = c)"
  by (auto simp: next_fault_def mem_healthy_def sel_faults split: list.splits)

lemma reading_run:
  assumes "run_state (reading f) c = (r, c')"
  obtains (ok) d where "r = f d" "c' = d" "sel d = sel c" "mem_healthy c \<longrightarrow> d = c"
  | (fault) msg where "r = Inl (fault_error msg)" "sel c' = sel c" "\<not> mem_healthy c"
proof -
  obtain ft d where ft: "run_state next_fault c = (ft, d)" by (cases "run_state next_fault c")
  with assms next_fault_run [OF ft] show thesis
    by (cases ft) (auto simp: reading_def intro: ok fault)
qed

lemma writing_run:
  assumes "run_state (writing w) c = (r, c')"
  obtains (ok) d where "r = None" "c' = w d" "sel d = sel c" "mem_healthy c \<longrightarrow> d = c"
  | (dropped) msg where "r = Some (fault_error msg)" "sel c' = sel c" "\<not> mem_healthy c"
  | (lost) d msg where "r = Some (fault_error msg)" "c' = w d" "sel d = sel c" "\<not> mem_healthy c"
proof -
  obtain ft d where ft: "run_state next_fault c = (ft, d)" by (cases "run_state next_fault c")
  with assms next_fault_run [OF ft] show thesis
    by (cases ft) (auto simp: writing_def intro: ok dropped lost)
qed

lemma healthy_upd [simp]: "mem_healthy (upd f c) = mem_healthy c"
  by (simp add: mem_healthy_def faults_upd)

text \<open>The outcomes of the five calls, healthy or not.\<close>

lemma get_run:
  assumes "run_state (api_get (mem_api sel upd) k) c = (r, c')"
  shows "sel c' = sel c \<and> (\<forall>x. r = Inr x \<longrightarrow> lookup (sel c) k = Some x) \<and>
    (\<forall>e. r = Inl e \<and> mem_nf e \<longrightarrow> lookup (sel c) k = None) \<and>
    (mem_healthy c \<longrightarrow> mem_healthy c' \<and> r = or_not_found (lookup (sel c) k))"
  using assms by (auto simp: mem_api_def or_not_found_def split: option.splits elim!: reading_run)

lemma list_run:
  assumes "run_state (api_list (mem_api sel upd) ns) c = (r, c')"
  shows "sel c' = sel c \<and> (\<forall>xs. r = Inr xs \<longrightarrow> set xs = {x. \<exists>n. lookup (sel c) (ns, n) = Some x}) \<and>
    (mem_healthy c \<longrightarrow> mem_healthy c' \<and> (\<exists>xs. r = Inr xs))"
proof -
  have *: "{x \<in> set (sel d). fst (key_of x) = ns \<and> lookup (sel d) (key_of x) = Some x} =
      {x. \<exists>n. lookup (sel d) (ns, n) = Some x}" for d
  proof (rule set_eqI)
    fix x
    show "x \<in> {x \<in> set (sel d). fst (key_of x) = ns \<and> lookup (sel d) (key_of x) = Some x} \<longleftrightarrow>
      x \<in> {x. \<exists>n. lookup (sel d) (ns, n) = Some x}"
      using lookup_mem [of "sel d" _ x] lookup_key [of "sel d" _ x]
      by (cases "key_of x") auto
  qed
  from assms show ?thesis
    by (auto simp: mem_api_def * elim!: reading_run)
qed

lemma delete_run:
  assumes run: "run_state (api_delete (mem_api sel upd) x) c = (r, c')"
  shows "(r = None \<longrightarrow> sel c' = remove (key_of x) (sel c)) \<and>
    (sel c' = sel c \<or> sel c' = remove (key_of x) (sel c)) \<and>
    (mem_healthy c \<longrightarrow> mem_healthy c' \<and> (lookup (sel c) (key_of x) \<noteq> None \<longrightarrow> r = None))"
proof -
  let ?rd = "reading (\<lambda>c. or_not_found (lookup (sel c) (key_of x)))"
  from run obtain g d where g: "run_state ?rd c = (g, d)"
    and rest: "run_state (case g of Inl e \<Rightarrow> State_Monad.return (Some e)
      | Inr _ \<Rightarrow> writing (upd (remove (key_of x)))) d = (r, c')"
    by (auto simp: mem_api_def split: prod.splits)
  from g show ?thesis
  proof (cases rule: reading_run)
    case (ok e)
    show ?thesis
    proof (cases "lookup (sel c) (key_of x)")
      case None
      with ok rest show ?thesis by (auto simp: or_not_found_def)
    next
      case (Some z)
      with ok rest have "run_state (writing (upd (remove (key_of x)))) d = (r, c')"
        by (simp add: or_not_found_def)
      then show ?thesis by (cases rule: writing_run) (use ok in \<open>auto simp: sel_upd\<close>)
    qed
  next
    case (fault msg)
    with rest show ?thesis by auto
  qed
qed

lemma patch_run:
  assumes run: "run_state (api_patch (mem_api sel upd) new old) c = (r, c')"
  shows "(r = None \<longrightarrow> sel c' = store new (sel c)) \<and>
    (sel c' = sel c \<or> sel c' = store new (sel c)) \<and>
    (mem_healthy c \<longrightarrow> mem_healthy c' \<and> (lookup (sel c) (key_of new) = Some old \<longrightarrow> r = None))"
proof -
  let ?rd = "reading (\<lambda>c. or_not_found (lookup (sel c) (key_of new)))"
  from run obtain g d where g: "run_state ?rd c = (g, d)"
    and rest: "run_state (case g of Inl e \<Rightarrow> State_Monad.return (Some e)
      | Inr z \<Rightarrow> if z = old then writing (upd (store new))
                 else State_Monad.return (Some (LibError ''Conflict''))) d = (r, c')"
    by (auto simp: mem_api_def split: prod.splits)
  from g show ?thesis
  proof (cases rule: reading_run)
    case (ok e)
    show ?thesis
    proof (cases "lookup (sel c) (key_of new) = Some old")
      case False
      with ok rest show ?thesis by (auto simp: or_not_found_def split: option.splits)
    next
      case True
      with ok rest have "run_state (writing (upd (store new))) d = (r, c')"
        by (simp add: or_not_found_def)
      then show ?thesis by (cases rule: writing_run) (use ok in \<open>auto simp: sel_upd\<close>)
    qed
  next
    case (fault msg)
    with rest show ?thesis by auto
  qed
qed

text \<open>A patch needs the object it patches, so it neither creates nor removes one.\<close>

lemma patch_domain:
  assumes run: "run_state (api_patch (mem_api sel upd) new old) c = (r, c')"
  shows "dom (lookup (sel c')) = dom (lookup (sel c))"
proof -
  let ?rd = "reading (\<lambda>c. or_not_found (lookup (sel c) (key_of new)))"
  from run obtain g d where g: "run_state ?rd c = (g, d)"
    and rest: "run_state (case g of Inl e \<Rightarrow> State_Monad.return (Some e)
      | Inr z \<Rightarrow> if z = old then writing (upd (store new))
                 else State_Monad.return (Some (LibError ''Conflict''))) d = (r, c')"
    by (auto simp: mem_api_def split: prod.splits)
  from g have d: "sel d = sel c" by (cases rule: reading_run) auto
  show ?thesis
  proof (cases "g = Inr old")
    case False
    with rest d show ?thesis by (cases g) auto
  next
    case True
    with g have "lookup (sel c) (key_of new) \<noteq> None"
      by (cases rule: reading_run) (auto simp: or_not_found_def split: option.splits)
    moreover from True rest have "run_state (writing (upd (store new))) d = (r, c')" by simp
    then have "sel c' = sel c \<or> sel c' = store new (sel c)"
      using d by (cases rule: writing_run) (auto simp: sel_upd)
    ultimately show ?thesis by (elim disjE) (simp_all add: lookup_store insert_absorb domIff)
  qed
qed

lemma cou_run:
  assumes run: "run_state (api_createOrUpdate (mem_api sel upd) x f) c = (r, c')"
  shows "sel c' = sel c \<and> r \<noteq> None \<and>
      (mem_healthy c \<longrightarrow> mem_healthy c' \<and>
        (case f (current (lookup (sel c)) (key_of x) x) of
           Inl e \<Rightarrow> r = Some e | Inr y \<Rightarrow> key_of y \<noteq> key_of x)) \<or>
    (\<exists>y. f (current (lookup (sel c)) (key_of x) x) = Inr y \<and> key_of y = key_of x \<and>
       lookup (sel c') = (lookup (sel c))(key_of x \<mapsto> y) \<and>
       (mem_healthy c \<longrightarrow> mem_healthy c' \<and> r = None))"
proof -
  let ?rd = "reading (\<lambda>c. Inr (lookup (sel c) (key_of x)))"
  let ?step = "\<lambda>old. case f (case old of None \<Rightarrow> x | Some z \<Rightarrow> z) of
                Inl e \<Rightarrow> State_Monad.return (Some e)
              | Inr y \<Rightarrow>
                  if key_of y \<noteq> key_of x then State_Monad.return (Some (LibError ''MutateFn''))
                  else if old = Some y then State_Monad.return None
                  else writing (upd (store y))"
  from run obtain g d where g: "run_state ?rd c = (g, d)"
    and rest: "run_state (case g of Inl e \<Rightarrow> State_Monad.return (Some e)
      | Inr old \<Rightarrow> ?step old) d = (r, c')"
    by (auto simp: mem_api_def split: prod.splits)
  from g show ?thesis
  proof (cases rule: reading_run)
    case (fault msg)
    with rest show ?thesis by auto
  next
    case (ok e)
    let ?y = "f (current (lookup (sel c)) (key_of x) x)"
    from ok rest have st: "run_state (?step (lookup (sel c) (key_of x))) d = (r, c')" by simp
    show ?thesis
    proof (cases ?y)
      case (Inl e)
      with st ok show ?thesis by (auto simp: current_def)
    next
      case (Inr y)
      consider "key_of y \<noteq> key_of x" | "key_of y = key_of x" "lookup (sel c) (key_of x) = Some y"
        | "key_of y = key_of x" "lookup (sel c) (key_of x) \<noteq> Some y" by blast
      then show ?thesis
      proof cases
        case 1
        with st ok Inr show ?thesis by (auto simp: current_def)
      next
        case 2
        with st ok Inr show ?thesis by (auto simp: current_def fun_upd_idem)
      next
        case 3
        with st ok Inr have "run_state (writing (upd (store y))) d = (r, c')"
          by (simp add: current_def)
        then show ?thesis
          by (cases rule: writing_run) (use ok Inr 3 in \<open>auto simp: sel_upd lookup_store\<close>)
      qed
    qed
  qed
qed

end

sublocale cluster_store \<subseteq> healthy_store "mem_api sel upd" "mem_view sel" mem_nf mem_healthy
proof (unfold_locales, goal_cases)
  case (1 s k x) then show ?case by (simp add: mem_view_def lookup_key)
next
  case (2 k) show ?case by (rule preservesI) (auto simp: mem_view_def dest: get_run)
next
  case (3 k s x s') then show ?case by (auto simp: mem_view_def dest: get_run)
next
  case (4 k s e s') then show ?case by (auto simp: mem_view_def dest: get_run)
next
  case (5 ns) show ?case by (rule preservesI) (auto simp: mem_view_def dest: list_run)
next
  case (6 ns s xs s') then show ?case by (auto simp: mem_view_def dest!: list_run)
next
  case (7 x s s')
  from delete_run [OF this] show ?case by (simp add: mem_view_def lookup_remove)
next
  case (8 x s e s')
  from delete_run [OF this] show ?case by (auto simp: mem_view_def lookup_remove)
next
  case (9 x f s s') then show ?case by (auto simp: mem_view_def dest: cou_run)
next
  case (10 x f s e s') then show ?case by (auto simp: mem_view_def dest: cou_run)
next
  case (11 new old s s')
  from patch_run [OF this(1)] show ?case by (simp add: mem_view_def lookup_store)
next
  case (12 new old s e s')
  from patch_run [OF this(1)] show ?case by (auto simp: mem_view_def lookup_store)
next
  case (13 new old s r s' k)
  from patch_run [OF this(1)] this(2) show ?case by (auto simp: mem_view_def lookup_store)
next
  case (14 s k rg s')
  then show ?case by (auto simp: mem_view_def or_not_found_def dest: get_run)
next
  case (15 s x r s') then show ?case by (auto simp: mem_view_def dest: delete_run)
next
  case (16 s x f r s')
  then show ?case using cou_run [of x f s r s'] by (auto simp: mem_view_def)
next
  case (17 s new old r s') then show ?case by (auto simp: mem_view_def dest: patch_run)
next
  case (18 s ns rl s') then show ?case by (auto dest: list_run)
qed

section \<open>Two kinds of one cluster\<close>

locale two_cluster_stores =
  A: cluster_store selA updA + B: cluster_store selB updB
  for selA :: "cluster \<Rightarrow> ('ap, 'aq) object list" and updA
    and selB :: "cluster \<Rightarrow> ('bp, 'bq) object list" and updB +
  assumes selA_updB: "selA (updB f c) = selA c" and selB_updA: "selB (updA g c) = selB c"

context cluster_store begin

text \<open>
  The calls on one kind write the cluster through \<open>upd\<close> and the fault script only, so any
  view blind to both is preserved.
\<close>

lemma next_fault_preserves:
  assumes "\<And>c fs. view (c\<lparr>cl_faults := fs\<rparr>) = view c"
  shows "preserves view next_fault"
  using assms by (intro preservesI) (auto simp: next_fault_def split: list.splits)

lemma reading_preserves:
  assumes "\<And>c fs. view (c\<lparr>cl_faults := fs\<rparr>) = view c"
  shows "preserves view (reading f)"
  unfolding reading_def
proof (intro preserves_bind)
  show "preserves view next_fault" using assms by (rule next_fault_preserves)
  show "preserves view (case ft of Pass \<Rightarrow> State (\<lambda>c. (f c, c))
      | Drop msg \<Rightarrow> State_Monad.return (Inl (fault_error msg))
      | Lost msg \<Rightarrow> State_Monad.return (Inl (fault_error msg)))" for ft
    by (cases ft) (auto intro: preservesI)
qed

lemma writing_preserves:
  assumes "\<And>c fs. view (c\<lparr>cl_faults := fs\<rparr>) = view c" and "\<And>c. view (w c) = view c"
  shows "preserves view (writing w)"
  unfolding writing_def
proof (intro preserves_bind)
  show "preserves view next_fault" using assms(1) by (rule next_fault_preserves)
  show "preserves view (case ft of Pass \<Rightarrow> State (\<lambda>c. (None, w c))
      | Drop msg \<Rightarrow> State_Monad.return (Some (fault_error msg))
      | Lost msg \<Rightarrow> State (\<lambda>c. (Some (fault_error msg), w c)))" for ft
    using assms(2) by (cases ft) (auto intro!: preservesI)
qed

lemma get_preserves:
  assumes "\<And>c fs. view (c\<lparr>cl_faults := fs\<rparr>) = view c"
  shows "preserves view (api_get (mem_api sel upd) k)"
  using reading_preserves [OF assms] by (simp add: mem_api_def)

lemma mem_foreign:
  assumes f: "\<And>c fs. view (c\<lparr>cl_faults := fs\<rparr>) = view c" and u: "\<And>g c. view (upd g c) = view c"
  shows "foreign_to (mem_api sel upd) view"
proof -
  have rd: "preserves view (reading g)" for g :: "cluster \<Rightarrow> go_error + 'r"
    using f by (rule reading_preserves)
  have wr: "preserves view (writing (upd g))" for g
    using f u by (rule writing_preserves)
  show ?thesis
    unfolding foreign_to_def mem_api_def
    by (auto intro!: preserves_bind reading_preserves f wr split: sum.splits)
qed

end

sublocale two_cluster_stores \<subseteq>
  healthy_stores "mem_api selA updA" "mem_view selA" "mem_api selB updB" "mem_view selB"
    mem_nf mem_healthy
proof unfold_locales
  show "foreign_to (mem_api selA updA) (mem_view selB)"
    by (rule A.mem_foreign) (simp_all add: mem_view_def B.sel_faults selB_updA)
  show "foreign_to (mem_api selB updB) (mem_view selA)"
    by (rule B.mem_foreign) (simp_all add: mem_view_def A.sel_faults selA_updB)
qed

section \<open>Library functions\<close>

text \<open>
  One possible behaviour of the library functions: the owner reference is appended after
  an older one of the same owner is dropped, a quantity is a text that starts with a digit,
  a JSON patch replaces the document by its last operation, a merge patch leaves the document
  as it is.
\<close>

definition mem_SetControllerReference ::
    "string \<Rightarrow> ObjectMeta \<Rightarrow> ObjectMeta \<Rightarrow> go_error + ObjectMeta" where
  "mem_SetControllerReference kind owner m =
     (if list_all (\<lambda>c. c = (kind, om_Name owner)) (controllers_of m)
      then Inr (m\<lparr>om_OwnerReferences :=
             filter (\<lambda>r. (or_Kind r, or_Name r) \<noteq> (kind, om_Name owner)) (om_OwnerReferences m) @
             [\<lparr>or_APIVersion = ''calypso.lmoet.io/v1alpha1'', or_Kind = kind,
               or_Name = om_Name owner, or_UID = om_UID owner, or_Controller = True,
               or_BlockOwnerDeletion = True\<rparr>]\<rparr>)
      else Inl (LibError ''AlreadyOwned''))"

definition mem_ParseQuantity :: "string \<Rightarrow> go_error + quantity" where
  "mem_ParseQuantity txt =
     (case txt of
        [] \<Rightarrow> Inl (LibError ''ErrFormatWrong'')
      | d # _ \<Rightarrow> if d \<in> set ''0123456789'' then Inr txt else Inl (LibError ''ErrFormatWrong''))"

definition mem_lib :: lib where
  "mem_lib =
     \<lparr>lib_IgnoreNotFound = (\<lambda>e. if mem_nf e then None else Some e),
      lib_IsNotFound = mem_nf,
      lib_SetControllerReference = mem_SetControllerReference,
      lib_ParseQuantity = mem_ParseQuantity,
      lib_DecodePatch = (\<lambda>txt. if txt = '''' then Inl (LibError ''EOF'') else Inr []),
      lib_PatchApply = (\<lambda>ops doc. Inr (last (doc # ops))),
      lib_MergePatch = (\<lambda>doc txt. Inr doc)\<rparr>"

lemma mem_lib_simps [simp]:
  "lib_IgnoreNotFound mem_lib e = (if mem_nf e then None else Some e)"
  "lib_IsNotFound mem_lib = mem_nf"
  "lib_SetControllerReference mem_lib = mem_SetControllerReference"
  "lib_ParseQuantity mem_lib = mem_ParseQuantity"
  by (simp_all add: mem_lib_def)

lemma controllers_of_filter:
  "controllers_of (m\<lparr>om_OwnerReferences := rs\<rparr>) =
     map (\<lambda>r. (or_Kind r, or_Name r)) (filter or_Controller rs)"
  by (simp add: controllers_of_def)

text \<open>The owner reference the instance appends, and the header it leaves.\<close>

definition mem_ref :: "string \<Rightarrow> ObjectMeta \<Rightarrow> OwnerReference" where
  "mem_ref kind owner =
     \<lparr>or_APIVersion = ''calypso.lmoet.io/v1alpha1'', or_Kind = kind,
      or_Name = om_Name owner, or_UID = om_UID owner, or_Controller = True,
      or_BlockOwnerDeletion = True\<rparr>"

lemma mem_SetControllerReference_Inr:
  "mem_SetControllerReference kind owner m = Inr m' \<longleftrightarrow>
     list_all (\<lambda>c. c = (kind, om_Name owner)) (controllers_of m) \<and>
     m' = m\<lparr>om_OwnerReferences :=
             filter (\<lambda>r. (or_Kind r, or_Name r) \<noteq> (kind, om_Name owner)) (om_OwnerReferences m) @
             [mem_ref kind owner]\<rparr>"
  unfolding mem_SetControllerReference_def mem_ref_def by auto

lemma mem_ref_simps [simp]:
  "or_Kind (mem_ref kind owner) = kind" "or_Name (mem_ref kind owner) = om_Name owner"
  "or_Controller (mem_ref kind owner)"
  by (simp_all add: mem_ref_def)

lemma mem_SetControllerReference_idem:
  assumes "mem_SetControllerReference kind owner m = Inr m'"
  shows "mem_SetControllerReference kind owner m' = Inr m'"
proof -
  let ?p = "\<lambda>r. (or_Kind r, or_Name r) \<noteq> (kind, om_Name owner)"
  let ?rs = "filter ?p (om_OwnerReferences m) @ [mem_ref kind owner]"
  from assms have ok: "list_all (\<lambda>c. c = (kind, om_Name owner)) (controllers_of m)"
    and m': "m' = m\<lparr>om_OwnerReferences := ?rs\<rparr>"
    by (simp_all only: mem_SetControllerReference_Inr)
  from ok have "list_all (\<lambda>c. c = (kind, om_Name owner)) (controllers_of m')"
    by (auto simp: m' controllers_of_def list_all_iff)
  moreover have "filter ?p ?rs = filter ?p (om_OwnerReferences m)" by simp
  ultimately show ?thesis
    unfolding mem_SetControllerReference_Inr by (simp add: m')
qed

interpretation mem_lib: runtime_lib mem_lib
proof (unfold_locales, goal_cases)
  case (2 kind owner m m')
  then show ?case by (auto simp: mem_SetControllerReference_Inr)
next
  case (3 kind owner m m')
  then show ?case by (auto simp: mem_SetControllerReference_Inr controllers_of_filter)
next
  case (4 kind owner m m')
  then show ?case by (simp add: mem_SetControllerReference_idem)
next
  case (5 c m kind owner)
  then show ?case by (auto simp: mem_SetControllerReference_def list_all_iff)
next
  case (6 m owner kind)
  then show ?case by (simp add: mem_SetControllerReference_def)
qed simp

section \<open>Every kind of the cluster satisfies the laws\<close>

interpretation mem_workloads: cluster_store cl_workloads cl_workloads_update
  by unfold_locales simp_all

interpretation mem_computes: cluster_store cl_computes cl_computes_update
  by unfold_locales simp_all

interpretation mem_storages: cluster_store cl_storages cl_storages_update
  by unfold_locales simp_all

interpretation mem_networkings: cluster_store cl_networkings cl_networkings_update
  by unfold_locales simp_all

interpretation mem_observabilities: cluster_store cl_observabilities cl_observabilities_update
  by unfold_locales simp_all

interpretation mem_securities: cluster_store cl_securities cl_securities_update
  by unfold_locales simp_all

interpretation mem_deployments: cluster_store cl_deployments cl_deployments_update
  by unfold_locales simp_all

interpretation mem_hpas: cluster_store cl_hpas cl_hpas_update
  by unfold_locales simp_all

interpretation mem_pdbs: cluster_store cl_pdbs cl_pdbs_update
  by unfold_locales simp_all

interpretation mem_pvcs: cluster_store cl_pvcs cl_pvcs_update
  by unfold_locales simp_all

interpretation mem_services: cluster_store cl_services cl_services_update
  by unfold_locales simp_all

interpretation mem_ingresses: cluster_store cl_ingresses cl_ingresses_update
  by unfold_locales simp_all

interpretation mem_podmonitors: cluster_store cl_podmonitors cl_podmonitors_update
  by unfold_locales simp_all

interpretation mem_servicemonitors: cluster_store cl_servicemonitors cl_servicemonitors_update
  by unfold_locales simp_all

interpretation mem_roles: cluster_store cl_roles cl_roles_update
  by unfold_locales simp_all

interpretation mem_rolebindings: cluster_store cl_rolebindings cl_rolebindings_update
  by unfold_locales simp_all

text \<open>The pairs of kinds a reconciler of the repository works on.\<close>

interpretation workloads_computes: two_cluster_stores cl_workloads cl_workloads_update cl_computes cl_computes_update
  by unfold_locales simp_all

interpretation workloads_storages: two_cluster_stores cl_workloads cl_workloads_update cl_storages cl_storages_update
  by unfold_locales simp_all

interpretation workloads_networkings: two_cluster_stores cl_workloads cl_workloads_update cl_networkings cl_networkings_update
  by unfold_locales simp_all

interpretation workloads_observabilities: two_cluster_stores cl_workloads cl_workloads_update cl_observabilities cl_observabilities_update
  by unfold_locales simp_all

interpretation workloads_securities: two_cluster_stores cl_workloads cl_workloads_update cl_securities cl_securities_update
  by unfold_locales simp_all

interpretation computes_hpas: two_cluster_stores cl_computes cl_computes_update cl_hpas cl_hpas_update
  by unfold_locales simp_all

interpretation computes_pdbs: two_cluster_stores cl_computes cl_computes_update cl_pdbs cl_pdbs_update
  by unfold_locales simp_all

interpretation computes_deployments: two_cluster_stores cl_computes cl_computes_update cl_deployments cl_deployments_update
  by unfold_locales simp_all

interpretation storages_pvcs: two_cluster_stores cl_storages cl_storages_update cl_pvcs cl_pvcs_update
  by unfold_locales simp_all

interpretation storages_deployments: two_cluster_stores cl_storages cl_storages_update cl_deployments cl_deployments_update
  by unfold_locales simp_all

interpretation networkings_services: two_cluster_stores cl_networkings cl_networkings_update cl_services cl_services_update
  by unfold_locales simp_all

interpretation networkings_ingresses: two_cluster_stores cl_networkings cl_networkings_update cl_ingresses cl_ingresses_update
  by unfold_locales simp_all

interpretation observabilities_podmonitors: two_cluster_stores cl_observabilities cl_observabilities_update cl_podmonitors cl_podmonitors_update
  by unfold_locales simp_all

interpretation observabilities_servicemonitors: two_cluster_stores cl_observabilities cl_observabilities_update cl_servicemonitors cl_servicemonitors_update
  by unfold_locales simp_all

interpretation securities_roles: two_cluster_stores cl_securities cl_securities_update cl_roles cl_roles_update
  by unfold_locales simp_all

interpretation securities_rolebindings: two_cluster_stores cl_securities cl_securities_update cl_rolebindings cl_rolebindings_update
  by unfold_locales simp_all

interpretation pdbs_deployments: two_cluster_stores cl_pdbs cl_pdbs_update cl_deployments cl_deployments_update
  by unfold_locales simp_all

text \<open>The store laws of each pair, in the form in which the properties ask for them.\<close>

lemmas workloads_computes_stores = workloads_computes.owner_child_stores_axioms [folded mem_lib_simps(2)]
lemmas workloads_computes_healthy = workloads_computes.healthy_stores_axioms [folded mem_lib_simps(2)]
lemmas workloads_storages_stores = workloads_storages.owner_child_stores_axioms [folded mem_lib_simps(2)]
lemmas workloads_storages_healthy = workloads_storages.healthy_stores_axioms [folded mem_lib_simps(2)]
lemmas workloads_networkings_stores = workloads_networkings.owner_child_stores_axioms [folded mem_lib_simps(2)]
lemmas workloads_networkings_healthy = workloads_networkings.healthy_stores_axioms [folded mem_lib_simps(2)]
lemmas workloads_observabilities_stores = workloads_observabilities.owner_child_stores_axioms [folded mem_lib_simps(2)]
lemmas workloads_observabilities_healthy = workloads_observabilities.healthy_stores_axioms [folded mem_lib_simps(2)]
lemmas workloads_securities_stores = workloads_securities.owner_child_stores_axioms [folded mem_lib_simps(2)]
lemmas workloads_securities_healthy = workloads_securities.healthy_stores_axioms [folded mem_lib_simps(2)]
lemmas computes_hpas_stores = computes_hpas.owner_child_stores_axioms [folded mem_lib_simps(2)]
lemmas computes_hpas_healthy = computes_hpas.healthy_stores_axioms [folded mem_lib_simps(2)]
lemmas computes_pdbs_stores = computes_pdbs.owner_child_stores_axioms [folded mem_lib_simps(2)]
lemmas computes_pdbs_healthy = computes_pdbs.healthy_stores_axioms [folded mem_lib_simps(2)]
lemmas computes_deployments_stores = computes_deployments.owner_child_stores_axioms [folded mem_lib_simps(2)]
lemmas computes_deployments_healthy = computes_deployments.healthy_stores_axioms [folded mem_lib_simps(2)]
lemmas storages_pvcs_stores = storages_pvcs.owner_child_stores_axioms [folded mem_lib_simps(2)]
lemmas storages_pvcs_healthy = storages_pvcs.healthy_stores_axioms [folded mem_lib_simps(2)]
lemmas storages_deployments_stores = storages_deployments.owner_child_stores_axioms [folded mem_lib_simps(2)]
lemmas storages_deployments_healthy = storages_deployments.healthy_stores_axioms [folded mem_lib_simps(2)]
lemmas networkings_services_stores = networkings_services.owner_child_stores_axioms [folded mem_lib_simps(2)]
lemmas networkings_services_healthy = networkings_services.healthy_stores_axioms [folded mem_lib_simps(2)]
lemmas networkings_ingresses_stores = networkings_ingresses.owner_child_stores_axioms [folded mem_lib_simps(2)]
lemmas networkings_ingresses_healthy = networkings_ingresses.healthy_stores_axioms [folded mem_lib_simps(2)]
lemmas observabilities_podmonitors_stores = observabilities_podmonitors.owner_child_stores_axioms [folded mem_lib_simps(2)]
lemmas observabilities_podmonitors_healthy = observabilities_podmonitors.healthy_stores_axioms [folded mem_lib_simps(2)]
lemmas observabilities_servicemonitors_stores = observabilities_servicemonitors.owner_child_stores_axioms [folded mem_lib_simps(2)]
lemmas observabilities_servicemonitors_healthy = observabilities_servicemonitors.healthy_stores_axioms [folded mem_lib_simps(2)]
lemmas securities_roles_stores = securities_roles.owner_child_stores_axioms [folded mem_lib_simps(2)]
lemmas securities_roles_healthy = securities_roles.healthy_stores_axioms [folded mem_lib_simps(2)]
lemmas securities_rolebindings_stores = securities_rolebindings.owner_child_stores_axioms [folded mem_lib_simps(2)]
lemmas securities_rolebindings_healthy = securities_rolebindings.healthy_stores_axioms [folded mem_lib_simps(2)]
lemmas pdbs_deployments_stores = pdbs_deployments.owner_child_stores_axioms [folded mem_lib_simps(2)]
lemmas pdbs_deployments_healthy = pdbs_deployments.healthy_stores_axioms [folded mem_lib_simps(2)]

end
