(* ===== verification/Go_Json.thy ===== *)
theory Go_Json
  imports Patch_Engine Mem_Cluster
begin

text \<open>
  What the repository uses of Go's \<^verbatim>\<open>encoding/json\<close>: \<^verbatim>\<open>Marshal\<close> and, above all, \<^verbatim>\<open>Unmarshal\<close> into
  a target that already holds a value, as \<^verbatim>\<open>ApplyEscapeHatches\<close> calls it.

  A Go value is a tree (\<open>goval\<close>) whose struct fields carry their JSON name and their
  \<^verbatim>\<open>omitempty\<close> flag; a Go type (\<open>gotype\<close>) says what a fresh value looks like.  The rules are
  the package's documentation: a struct keeps the fields the document does not mention, a map
  keeps its entries and receives the document's, a null sets pointers, maps, slices and
  interfaces to nil and leaves other values alone, a pointer is allocated when nil and written
  through otherwise, a type mismatch is remembered as the error while decoding goes on.  A key
  matches a field exactly or, failing that, up to the case of ASCII letters.  Whether slice
  elements are decoded into the old elements of the slice or into zero values is not
  documented; it is the parameter \<open>reuse\<close>.  Types with custom marshallers are not covered.
\<close>

section \<open>Types and values\<close>

datatype gotype =
    GBool
  | GInt nat
  | GString
  | GPtr gotype
  | GSlice gotype
  | GMap gotype
  | GStruct "(string \<times> bool \<times> gotype) list"
  | GAny

datatype goval =
    VBool bool
  | VInt int
  | VString string
  | VPtr "goval option"
  | VSlice "goval list option"
  | VMap "(string \<times> goval) list option"
  | VStruct "(string \<times> bool \<times> goval) list"
  | VAny "json option"

fun zero_value :: "gotype \<Rightarrow> goval" where
  "zero_value GBool = VBool False"
| "zero_value (GInt w) = VInt 0"
| "zero_value GString = VString ''''"
| "zero_value (GPtr T) = VPtr None"
| "zero_value (GSlice T) = VSlice None"
| "zero_value (GMap T) = VMap None"
| "zero_value (GStruct fs) = VStruct (map (\<lambda>(n, oe, T). (n, oe, zero_value T)) fs)"
| "zero_value GAny = VAny None"

section \<open>Marshal\<close>

text \<open>
  \<^verbatim>\<open>omitempty\<close>: false, 0, a nil pointer or interface, and any empty array, slice, map or
  string.  A struct value is never empty.
\<close>

fun empty_value :: "goval \<Rightarrow> bool" where
  "empty_value (VBool b) = (\<not> b)"
| "empty_value (VInt i) = (i = 0)"
| "empty_value (VString txt) = (txt = '''')"
| "empty_value (VPtr p) = (p = None)"
| "empty_value (VSlice None) = True"
| "empty_value (VSlice (Some vs)) = (vs = [])"
| "empty_value (VMap None) = True"
| "empty_value (VMap (Some kvs)) = (kvs = [])"
| "empty_value (VStruct fs) = False"
| "empty_value (VAny a) = (a = None)"

fun marshal :: "goval \<Rightarrow> json" where
  "marshal (VBool b) = JBool b"
| "marshal (VInt i) = JNum i"
| "marshal (VString txt) = JStr txt"
| "marshal (VPtr None) = JNull"
| "marshal (VPtr (Some v)) = marshal v"
| "marshal (VSlice None) = JNull"
| "marshal (VSlice (Some vs)) = JArr (map marshal vs)"
| "marshal (VMap None) = JNull"
| "marshal (VMap (Some kvs)) = JObj (map (\<lambda>(k, v). (k, marshal v)) kvs)"
| "marshal (VStruct fs) =
     JObj (concat (map (\<lambda>(n, oe, v). if oe \<and> empty_value v then [] else [(n, marshal v)]) fs))"
| "marshal (VAny None) = JNull"
| "marshal (VAny (Some j)) = j"

section \<open>Unmarshal\<close>

definition lower_char :: "char \<Rightarrow> char" where
  "lower_char c =
     (let n = (of_char c :: nat) in if 65 \<le> n \<and> n \<le> 90 then char_of (n + 32) else c)"

definition fold_name :: "string \<Rightarrow> string" where
  "fold_name = map lower_char"

text \<open>The field a key of the document addresses: the exact name first.\<close>

definition find_field :: "(string \<times> bool \<times> gotype) list \<Rightarrow> string \<Rightarrow> (string \<times> gotype) option" where
  "find_field fs key =
     (case find (\<lambda>(n, oe, T). n = key) fs of
        Some (n, oe, T) \<Rightarrow> Some (n, T)
      | None \<Rightarrow>
          (case find (\<lambda>(n, oe, T). fold_name n = fold_name key) fs of
             Some (n, oe, T) \<Rightarrow> Some (n, T)
           | None \<Rightarrow> None))"

definition struct_field :: "(string \<times> bool \<times> goval) list \<Rightarrow> string \<Rightarrow> goval option" where
  "struct_field vs n = map_of (map (\<lambda>(n, oe, v). (n, v)) vs) n"

definition set_field ::
    "string \<Rightarrow> goval \<Rightarrow> (string \<times> bool \<times> goval) list \<Rightarrow> (string \<times> bool \<times> goval) list" where
  "set_field n x vs = map (\<lambda>(m, oe, v). if m = n then (m, oe, x) else (m, oe, v)) vs"

definition type_error :: go_error where
  "type_error = LibError ''UnmarshalTypeError''"

text \<open>The first error is the one \<^verbatim>\<open>Unmarshal\<close> returns.\<close>

definition first_error :: "go_error option \<Rightarrow> go_error option \<Rightarrow> go_error option" where
  "first_error e e' = (case e of None \<Rightarrow> e' | Some _ \<Rightarrow> e)"

lemma first_error_None [simp]: "first_error e e' = None \<longleftrightarrow> e = None \<and> e' = None"
  by (cases e) (simp_all add: first_error_def)

lemma first_error_simps [simp]:
  "first_error None e' = e'"
  "first_error (Some e) e' = Some e"
  by (simp_all add: first_error_def)

definition int_fits :: "nat \<Rightarrow> int \<Rightarrow> bool" where
  "int_fits w n \<longleftrightarrow> - (2 ^ (w - 1)) \<le> n \<and> n < 2 ^ (w - 1)"

definition old_elements :: "bool \<Rightarrow> goval list option \<Rightarrow> goval list" where
  "old_elements reuse olds = (case olds of Some vs \<Rightarrow> if reuse then vs else [] | None \<Rightarrow> [])"

definition old_entries :: "(string \<times> goval) list option \<Rightarrow> (string \<times> goval) list" where
  "old_entries old = (case old of Some kvs \<Rightarrow> kvs | None \<Rightarrow> [])"

text \<open>What a JSON null does to a value.\<close>

definition null_value :: "gotype \<Rightarrow> goval \<Rightarrow> goval" where
  "null_value T v =
     (case T of
        GPtr _ \<Rightarrow> VPtr None | GSlice _ \<Rightarrow> VSlice None | GMap _ \<Rightarrow> VMap None | GAny \<Rightarrow> VAny None
      | _ \<Rightarrow> v)"

text \<open>
  \<open>unmarshal r T j v\<close> decodes \<open>j\<close> into a variable of type \<open>T\<close> that holds \<open>v\<close>: the value it
  ends with and the error.  A value of another shape than the type's (which a typed Go program
  does not have) is left alone with an error.
\<close>

function (sequential)
    unmarshal :: "bool \<Rightarrow> gotype \<Rightarrow> json \<Rightarrow> goval \<Rightarrow> goval \<times> go_error option"
and unmarshal_elements ::
      "bool \<Rightarrow> gotype \<Rightarrow> json list \<Rightarrow> goval list \<Rightarrow> goval list \<times> go_error option"
and unmarshal_entries ::
      "bool \<Rightarrow> gotype \<Rightarrow> (string \<times> json) list \<Rightarrow> (string \<times> goval) list \<Rightarrow>
       (string \<times> goval) list \<times> go_error option"
and unmarshal_fields ::
      "bool \<Rightarrow> (string \<times> bool \<times> gotype) list \<Rightarrow> (string \<times> json) list \<Rightarrow>
       (string \<times> bool \<times> goval) list \<Rightarrow> (string \<times> bool \<times> goval) list \<times> go_error option"
where
  "unmarshal r T j v =
     (if j = JNull then (null_value T v, None)
      else (case T of
         GAny \<Rightarrow> (case v of VAny _ \<Rightarrow> (VAny (Some j), None) | _ \<Rightarrow> (v, Some type_error))
       | GPtr T' \<Rightarrow>
           (case v of
              VPtr p \<Rightarrow>
                (let (x, e) = unmarshal r T' j (case p of None \<Rightarrow> zero_value T' | Some y \<Rightarrow> y)
                 in (VPtr (Some x), e))
            | _ \<Rightarrow> (v, Some type_error))
       | GBool \<Rightarrow> (case j of JBool b \<Rightarrow> (VBool b, None) | _ \<Rightarrow> (v, Some type_error))
       | GInt w \<Rightarrow>
           (case j of
              JNum n \<Rightarrow> if int_fits w n then (VInt n, None) else (v, Some type_error)
            | _ \<Rightarrow> (v, Some type_error))
       | GString \<Rightarrow> (case j of JStr txt \<Rightarrow> (VString txt, None) | _ \<Rightarrow> (v, Some type_error))
       | GSlice T' \<Rightarrow>
           (case j of
              JArr js \<Rightarrow>
                (case v of
                   VSlice olds \<Rightarrow>
                     (let (xs, e) = unmarshal_elements r T' js (old_elements r olds)
                      in (VSlice (Some xs), e))
                 | _ \<Rightarrow> (v, Some type_error))
            | _ \<Rightarrow> (v, Some type_error))
       | GMap T' \<Rightarrow>
           (case j of
              JObj kvs \<Rightarrow>
                (case v of
                   VMap old \<Rightarrow>
                     (let (xs, e) = unmarshal_entries r T' kvs (old_entries old)
                      in (VMap (Some xs), e))
                 | _ \<Rightarrow> (v, Some type_error))
            | _ \<Rightarrow> (v, Some type_error))
       | GStruct fs \<Rightarrow>
           (case j of
              JObj kvs \<Rightarrow>
                (case v of
                   VStruct vs \<Rightarrow>
                     (let (xs, e) = unmarshal_fields r fs kvs vs in (VStruct xs, e))
                 | _ \<Rightarrow> (v, Some type_error))
            | _ \<Rightarrow> (v, Some type_error))))"
| "unmarshal_elements r T [] olds = ([], None)"
| "unmarshal_elements r T (j # js) olds =
     (let (x, e) = unmarshal r T j (case olds of [] \<Rightarrow> zero_value T | y # _ \<Rightarrow> y);
          (xs, e') = unmarshal_elements r T js (tl olds)
      in (x # xs, first_error e e'))"
| "unmarshal_entries r T [] old = (old, None)"
| "unmarshal_entries r T ((k, j) # kvs) old =
     (let (x, e) = unmarshal r T j (zero_value T);
          (xs, e') = unmarshal_entries r T kvs (AList.update k x old)
      in (xs, first_error e e'))"
| "unmarshal_fields r fs [] vs = (vs, None)"
| "unmarshal_fields r fs ((k, j) # kvs) vs =
     (case find_field fs k of
        None \<Rightarrow> unmarshal_fields r fs kvs vs
      | Some (n, T) \<Rightarrow>
          (case struct_field vs n of
             None \<Rightarrow> unmarshal_fields r fs kvs vs
           | Some old \<Rightarrow>
               (let (x, e) = unmarshal r T j old;
                    (xs, e') = unmarshal_fields r fs kvs (set_field n x vs)
                in (xs, first_error e e'))))"
  by pat_completeness auto
termination
  by (relation "measures [
        \<lambda>a. case a of
               Inl (Inl (r, T, j, v)) \<Rightarrow> size j
             | Inl (Inr (r, T, js, olds)) \<Rightarrow> size_list size js
             | Inr (Inl (r, T, kvs, old)) \<Rightarrow> size_list (size_prod (\<lambda>_. 0) size) kvs
             | Inr (Inr (r, fs, kvs, vs)) \<Rightarrow> size_list (size_prod (\<lambda>_. 0) size) kvs,
        \<lambda>a. case a of
               Inl (Inl (r, T, j, v)) \<Rightarrow> size T
             | Inl (Inr (r, T, js, olds)) \<Rightarrow> 0
             | Inr (Inl (r, T, kvs, old)) \<Rightarrow> 0
             | Inr (Inr (r, fs, kvs, vs)) \<Rightarrow> 0]") auto

declare unmarshal.simps [simp del]

lemma unmarshal_simps [simp]:
  "unmarshal r T JNull v = (null_value T v, None)"
  "j \<noteq> JNull \<Longrightarrow> unmarshal r GAny j (VAny a) = (VAny (Some j), None)"
  "j \<noteq> JNull \<Longrightarrow> unmarshal r (GPtr T) j (VPtr p) =
     (let (x, e) = unmarshal r T j (case p of None \<Rightarrow> zero_value T | Some y \<Rightarrow> y)
      in (VPtr (Some x), e))"
  "unmarshal r GBool (JBool b) v = (VBool b, None)"
  "unmarshal r (GInt w) (JNum n) v = (if int_fits w n then (VInt n, None) else (v, Some type_error))"
  "unmarshal r GString (JStr txt) v = (VString txt, None)"
  "unmarshal r (GSlice T) (JArr js) (VSlice olds) =
     (let (xs, e) = unmarshal_elements r T js (old_elements r olds) in (VSlice (Some xs), e))"
  "unmarshal r (GMap T) (JObj kvs) (VMap old) =
     (let (xs, e) = unmarshal_entries r T kvs (old_entries old) in (VMap (Some xs), e))"
  "unmarshal r (GStruct fs) (JObj kvs) (VStruct vs) =
     (let (xs, e) = unmarshal_fields r fs kvs vs in (VStruct xs, e))"
  by (subst unmarshal.simps, simp)+

section \<open>Fields and their updates\<close>

lemma struct_field_simps [simp]:
  "struct_field [] n = None"
  "struct_field ((m, oe, v) # vs) n = (if m = n then Some v else struct_field vs n)"
  by (simp_all add: struct_field_def)

lemma struct_field_set:
  "struct_field (set_field m x vs) n =
     (if n = m then map_option (\<lambda>_. x) (struct_field vs n) else struct_field vs n)"
  by (induction vs) (auto simp: set_field_def)

lemma find_field_fold:
  assumes "find_field fs key = Some (n, T)"
  shows "fold_name n = fold_name key"
  using assms by (auto simp: find_field_def find_Some_iff split: option.splits)

text \<open>
  A document with distinct keys, all of them names of fields, is decoded field by field: a
  field it does not mention keeps its value, the others are decoded into what they held.
\<close>

definition known_members :: "gotype \<Rightarrow> json \<Rightarrow> bool" where
  "known_members T doc =
     (case T of
        GStruct fs \<Rightarrow>
          (case doc of
             JObj kvs \<Rightarrow> distinct (map fst kvs) \<and> set (map fst kvs) \<subseteq> set (map fst fs)
           | _ \<Rightarrow> False)
      | _ \<Rightarrow> False)"

lemma find_field_name:
  assumes "k \<in> fst ` set fs"
  shows "\<exists>T. find_field fs k = Some (k, T)"
proof -
  from assms have "\<exists>oe T. find (\<lambda>(n, oe, T). n = k) fs = Some (k, oe, T)" by (induction fs) auto
  then show ?thesis by (auto simp: find_field_def)
qed

lemma unmarshal_fields_at:
  assumes "unmarshal_fields r fs kvs vs = (ws, None)"
    and "distinct (map fst kvs)" and "fst ` set kvs \<subseteq> fst ` set fs"
    and "find_field fs n = Some (n, T)" and "struct_field vs n = Some v"
  obtains x where "struct_field ws n = Some x"
    "case map_of kvs n of None \<Rightarrow> x = v | Some j \<Rightarrow> unmarshal r T j v = (x, None)"
proof -
  from assms have "\<exists>x. struct_field ws n = Some x \<and>
      (case map_of kvs n of None \<Rightarrow> x = v | Some j \<Rightarrow> unmarshal r T j v = (x, None))"
  proof (induction kvs arbitrary: vs v)
    case Nil
    then show ?case by simp
  next
    case (Cons kv kvs)
    obtain k j where kv: "kv = (k, j)" by (cases kv)
    from Cons.prems(3) have "k \<in> fst ` set fs" by (simp add: kv)
    from find_field_name [OF this] obtain T' where k: "find_field fs k = Some (k, T')" ..
    have rest: "distinct (map fst kvs)" "fst ` set kvs \<subseteq> fst ` set fs" "k \<notin> fst ` set kvs"
      using Cons.prems(2,3) by (simp_all add: kv)
    show ?case
    proof (cases "struct_field vs k")
      case None
      with Cons.prems(5) have "k \<noteq> n" by auto
      with None Cons.IH [of vs v] Cons.prems k rest show ?thesis by (simp add: kv)
    next
      case (Some old)
      obtain x e where x: "unmarshal r T' j old = (x, e)" by fastforce
      obtain xs e' where xs: "unmarshal_fields r fs kvs (set_field k x vs) = (xs, e')" by fastforce
      from Cons.prems(1) k Some x xs have eq: "xs = ws" "e = None" "e' = None" by (auto simp: kv)
      show ?thesis
      proof (cases "k = n")
        case True
        with rest(3) have "map_of kvs n = None" by (simp add: map_of_eq_None_iff)
        moreover have "struct_field (set_field k x vs) n = Some x"
          using True Cons.prems(5) by (simp add: struct_field_set)
        ultimately have "struct_field ws n = Some x"
          using Cons.IH [of "set_field k x vs" x] xs eq Cons.prems(4) rest by simp
        moreover have "T' = T" "old = v" using True k Cons.prems(4,5) Some by simp_all
        ultimately show ?thesis using x eq True by (simp add: kv)
      next
        case False
        then have "struct_field (set_field k x vs) n = Some v"
          using Cons.prems(5) by (simp add: struct_field_set)
        with Cons.IH [of "set_field k x vs" v] xs eq Cons.prems(4) rest False
        show ?thesis by (simp add: kv)
      qed
    qed
  qed
  with that show thesis by blast
qed

section \<open>Round trip\<close>

text \<open>
  The values that survive a round trip: of the right shape and width, with no explicit null
  inside a pointer, an interface or (as an empty but non-nil value) an \<^verbatim>\<open>omitempty\<close> field, and with
  distinct keys and field names.
\<close>

fun canonical :: "gotype \<Rightarrow> goval \<Rightarrow> bool"
and canonical_all :: "gotype \<Rightarrow> goval list \<Rightarrow> bool"
and canonical_entries :: "gotype \<Rightarrow> (string \<times> goval) list \<Rightarrow> bool"
and canonical_fields :: "(string \<times> bool \<times> gotype) list \<Rightarrow> (string \<times> bool \<times> goval) list \<Rightarrow> bool"
where
  "canonical T (VBool b) = (T = GBool)"
| "canonical T (VInt i) = (case T of GInt w \<Rightarrow> int_fits w i | _ \<Rightarrow> False)"
| "canonical T (VString txt) = (T = GString)"
| "canonical T (VPtr None) = (case T of GPtr _ \<Rightarrow> True | _ \<Rightarrow> False)"
| "canonical T (VPtr (Some v)) = (case T of GPtr T' \<Rightarrow> canonical T' v \<and> marshal v \<noteq> JNull | _ \<Rightarrow> False)"
| "canonical T (VSlice None) = (case T of GSlice _ \<Rightarrow> True | _ \<Rightarrow> False)"
| "canonical T (VSlice (Some vs)) = (case T of GSlice T' \<Rightarrow> canonical_all T' vs | _ \<Rightarrow> False)"
| "canonical T (VMap None) = (case T of GMap _ \<Rightarrow> True | _ \<Rightarrow> False)"
| "canonical T (VMap (Some kvs)) =
     (case T of GMap T' \<Rightarrow> distinct (map fst kvs) \<and> canonical_entries T' kvs | _ \<Rightarrow> False)"
| "canonical T (VStruct vs) =
     (case T of GStruct fs \<Rightarrow> distinct (map fst fs) \<and> canonical_fields fs vs | _ \<Rightarrow> False)"
| "canonical T (VAny a) = (T = GAny \<and> a \<noteq> Some JNull)"
| "canonical_all T [] = True"
| "canonical_all T (v # vs) = (canonical T v \<and> canonical_all T vs)"
| "canonical_entries T [] = True"
| "canonical_entries T ((k, v) # kvs) = (canonical T v \<and> canonical_entries T kvs)"
| "canonical_fields fs [] = (fs = [])"
| "canonical_fields fs ((m, oe', v) # vs) =
     (case fs of
        [] \<Rightarrow> False
      | (n, oe, T) # fs \<Rightarrow>
          n = m \<and> oe = oe' \<and> canonical T v \<and> (oe \<and> empty_value v \<longrightarrow> v = zero_value T) \<and>
          canonical_fields fs vs)"

abbreviation zero_fields ::
    "(string \<times> bool \<times> gotype) list \<Rightarrow> (string \<times> bool \<times> goval) list" where
  "zero_fields fs \<equiv> map (\<lambda>(n, oe, T). (n, oe, zero_value T)) fs"

abbreviation member_docs :: "(string \<times> bool \<times> goval) list \<Rightarrow> (string \<times> json) list" where
  "member_docs vs \<equiv>
     concat (map (\<lambda>(n, oe, v). if oe \<and> empty_value v then [] else [(n, marshal v)]) vs)"

lemma find_field_exact:
  assumes "distinct (map fst (pre @ (n, oe, T) # fs))"
  shows "find_field (pre @ (n, oe, T) # fs) n = Some (n, T)"
proof -
  have "find (\<lambda>(m, oe, T). m = n) (pre @ (n, oe, T) # fs) = Some (n, oe, T)"
    using assms by (induction pre) (auto split: prod.splits)
  then show ?thesis by (simp add: find_field_def)
qed

lemma struct_field_middle:
  "n \<notin> fst ` set pre \<Longrightarrow> struct_field (pre @ (n, oe, v) # vs) n = Some v"
  by (induction pre) (auto split: prod.splits)

lemma set_field_absent: "n \<notin> fst ` set vs \<Longrightarrow> set_field n x vs = vs"
  by (induction vs) (auto simp: set_field_def)

lemma set_field_middle:
  "n \<notin> fst ` set pre \<Longrightarrow> n \<notin> fst ` set vs \<Longrightarrow>
     set_field n x (pre @ (n, oe, v) # vs) = pre @ (n, oe, x) # vs"
  using set_field_absent [of n pre x] set_field_absent [of n vs x] by (simp add: set_field_def)

lemma AList_update_fresh: "k \<notin> fst ` set kvs \<Longrightarrow> AList.update k x kvs = kvs @ [(k, x)]"
  by (induction kvs) auto

text \<open>
  Each part of the decoder undoes the encoder: the elements of a slice into fresh elements, the
  entries of a map behind those already there, the fields of a struct behind those done (\<open>pre\<close>).
\<close>

lemma unmarshal_marshal:
  "canonical T v \<Longrightarrow> unmarshal r T (marshal v) (zero_value T) = (v, None)"
  "canonical_all T vs \<Longrightarrow> unmarshal_elements r T (map marshal vs) [] = (vs, None)"
  "canonical_entries T kvs \<Longrightarrow> distinct (map fst (old @ kvs)) \<Longrightarrow>
     unmarshal_entries r T (map (\<lambda>(k, v). (k, marshal v)) kvs) old = (old @ kvs, None)"
  "canonical_fields fs ws \<Longrightarrow> distinct (map fst (pfs @ fs)) \<Longrightarrow> map fst pre = map fst pfs \<Longrightarrow>
     unmarshal_fields r (pfs @ fs) (member_docs ws) (pre @ zero_fields fs) = (pre @ ws, None)"
proof (induction T v and T vs and T kvs and fs ws arbitrary: and and old and pfs pre
    rule: canonical_canonical_all_canonical_entries_canonical_fields.induct)
  case (17 all m oe' v vs)
  then obtain n oe T fs where all: "all = (n, oe, T) # fs" by (auto split: list.splits)
  note IH = "17.IH" [OF all refl refl] and prems = "17.prems" [unfolded all]
  have names: "n \<notin> fst ` set pre" "n \<notin> fst ` set (zero_fields fs)"
  proof -
    have "n \<notin> set (map fst pre)" unfolding prems(3) using prems(2) by auto
    then show "n \<notin> fst ` set pre" by simp
    show "n \<notin> fst ` set (zero_fields fs)" using prems(2) by (force simp: image_iff)
  qed
  have eq: "m = n" "oe' = oe" "canonical T v" "canonical_fields fs vs"
    using prems(1) by simp_all
  have rest: "unmarshal_fields r (pfs @ (n, oe, T) # fs) (member_docs vs)
      (pre @ (n, oe, v) # zero_fields fs) = (pre @ (n, oe, v) # vs, None)"
    using IH(2) [OF eq(4), of "pfs @ [(n, oe, T)]" "pre @ [(n, oe, v)]"] prems(2,3) by simp
  show ?case
  proof (cases "oe \<and> empty_value v")
    case True
    with prems(1) have "v = zero_value T" by simp
    with rest True eq show ?thesis by (simp add: all)
  next
    case False
    have f: "find_field (pfs @ (n, oe, T) # fs) n = Some (n, T)"
      using prems(2) by (intro find_field_exact) simp
    have "unmarshal r T (marshal v) (zero_value T) = (v, None)" using IH(1) [OF eq(3)] .
    with rest False eq f names show ?thesis
      by (auto simp: all struct_field_middle set_field_middle)
  qed
next
  case (10 T vs)
  then obtain fs where T: "T = GStruct fs" by (cases T) auto
  with "10.prems" "10.IH" [OF T, of "[]" "[]"] show ?case by simp
next
  case (11 T a)
  then show ?case by (cases a) (auto simp: null_value_def)
qed (auto simp: old_elements_def old_entries_def null_value_def AList_update_fresh Let_def
  split: gotype.splits)

section \<open>Decoding never removes\<close>

text \<open>
  \<open>go_at v path\<close>: the value under a path of field names; a last name may also be the key of a
  map.  \<open>json_absent doc path\<close>: the document has no member at the path, and every object on
  the way down is there or missing, never something else.
\<close>

fun go_at :: "goval \<Rightarrow> string list \<Rightarrow> goval option" where
  "go_at v [] = Some v"
| "go_at (VPtr (Some v)) (k # p) = go_at v (k # p)"
| "go_at (VStruct vs) (k # p) =
     (case struct_field vs k of None \<Rightarrow> None | Some v \<Rightarrow> go_at v p)"
| "go_at (VMap (Some kvs)) [k] = map_of kvs k"
| "go_at _ _ = None"

fun json_absent :: "json \<Rightarrow> string list \<Rightarrow> bool" where
  "json_absent (JObj kvs) (k # p) =
     (\<forall>(k', j) \<in> set kvs. fold_name k' \<noteq> fold_name k \<or> k' = k \<and> json_absent j p)"
| "json_absent _ _ = False"

lemma json_absent_Cons:
  "json_absent (JObj ((k', j) # kvs)) (k # p) \<longleftrightarrow>
     (fold_name k' \<noteq> fold_name k \<or> k' = k \<and> json_absent j p) \<and> json_absent (JObj kvs) (k # p)"
  by simp

lemma json_absentE:
  assumes "json_absent j p"
  obtains kvs k q where "j = JObj kvs" "p = k # q"
  using assms by (cases "(j, p)" rule: json_absent.cases) auto

text \<open>The entries of a map that the document does not name survive.\<close>

lemma unmarshal_entries_keeps:
  assumes "\<forall>(k', j) \<in> set kvs. k' \<noteq> k"
  shows "map_of (fst (unmarshal_entries r T kvs old)) k = map_of old k"
  using assms
proof (induction kvs arbitrary: old)
  case Nil
  then show ?case by simp
next
  case (Cons e kvs)
  obtain k' j where e: "e = (k', j)" by (cases e)
  obtain x err where "unmarshal r T j (zero_value T) = (x, err)" by fastforce
  moreover obtain xs err' where
    "unmarshal_entries r T kvs (AList.update k' x old) = (xs, err')" by fastforce
  ultimately show ?case
    using Cons.IH [of "AList.update k' x old"] Cons.prems by (auto simp: e)
qed

text \<open>
  Decoding without error into a value keeps everything at the paths the document lacks.
\<close>

lemma unmarshal_keeps:
  "unmarshal r T j v = (v', None) \<Longrightarrow> json_absent j p \<Longrightarrow> go_at v p = Some x \<Longrightarrow>
     go_at v' p = Some x"
  "unmarshal_elements r T js olds = e1 \<Longrightarrow> True"
  "unmarshal_entries r T kvs old = e2 \<Longrightarrow> True"
  "unmarshal_fields r fs kvs vs = (vs', None) \<Longrightarrow> json_absent (JObj kvs) (k # q) \<Longrightarrow>
     go_at (VStruct vs) (k # q) = Some x \<Longrightarrow> go_at (VStruct vs') (k # q) = Some x"
proof (induction r T j v and r T js olds and r T kvs old and r fs kvs vs
    arbitrary: v' p x and and and vs' k q x
    rule: unmarshal_unmarshal_elements_unmarshal_entries_unmarshal_fields.induct)
  case (1 r T j v)
  from "1.prems"(2) obtain kvs k q where j: "j = JObj kvs" and p: "p = k # q"
    by (rule json_absentE)
  show ?case
  proof (cases T)
    case (GPtr T')
    with "1.prems" j obtain u where v: "v = VPtr (Some u)"
      by (cases "(v, p)" rule: go_at.cases)
        (auto simp: p unmarshal.simps [of r "GPtr T'"] split: goval.splits)
    with "1.prems"(1) GPtr j obtain y where y: "unmarshal r T' j u = (y, None)"
      and v': "v' = VPtr (Some y)"
      by (auto split: prod.splits)
    from "1.prems"(3) v p have "go_at u p = Some x" by simp
    with "1.IH"(1) y GPtr j v "1.prems"(2) have "go_at y p = Some x" by auto
    then show ?thesis by (simp add: v' p)
  next
    case (GMap T')
    with "1.prems" j obtain olds where v: "v = VMap (Some olds)" "q = []"
      by (cases "(v, p)" rule: go_at.cases)
        (auto simp: p unmarshal.simps [of r "GMap T'"] split: goval.splits prod.splits)
    then have "\<forall>(k', j) \<in> set kvs. k' \<noteq> k"
      using "1.prems"(2) by (auto simp: j p)
    with "1.prems" j p v GMap show ?thesis
      using unmarshal_entries_keeps [of kvs k r T' olds]
      by (auto simp: old_entries_def split: prod.splits)
  next
    case (GStruct fs)
    with "1.prems"(1) j obtain vs where v: "v = VStruct vs"
      by (auto simp: unmarshal.simps [of r "GStruct fs"] split: goval.splits)
    with "1.prems"(1) GStruct j obtain ws where ws: "unmarshal_fields r fs kvs vs = (ws, None)"
      and v': "v' = VStruct ws"
      by (auto split: prod.splits)
    show ?thesis
      using "1.IH" GStruct j v ws "1.prems"(2,3) by (auto simp: v' p)
  qed (use "1.prems" j in \<open>cases "(v, p)" rule: go_at.cases,
      auto simp: p unmarshal.simps [of r _ "JObj kvs"] split: goval.splits prod.splits\<close>)+
next
  case (7 r fs k' j kvs vs)
  note here = "7.prems"(2) [unfolded json_absent_Cons]
  show ?case
  proof (cases "find_field fs k'")
    case None
    then show ?thesis using "7.IH"(1) "7.prems" here by simp
  next
    case (Some nT)
    obtain n T where n: "find_field fs k' = Some (n, T)" using Some by (cases nT) simp
    show ?thesis
    proof (cases "struct_field vs n")
      case None
      then show ?thesis using "7.IH"(2) "7.prems" here n by simp
    next
      case (Some old)
      obtain y e where y: "unmarshal r T j old = (y, e)" by fastforce
      obtain ws e' where ws: "unmarshal_fields r fs kvs (set_field n y vs) = (ws, e')"
        by fastforce
      from "7.prems"(1) n Some y ws have ok: "e = None" "e' = None" "vs' = ws"
        by simp_all
      have "go_at (VStruct (set_field n y vs)) (k # q) = Some x"
      proof (cases "n = k")
        case True
        then have "json_absent j q" using here find_field_fold [OF n] by auto
        moreover have "go_at old q = Some x" using "7.prems"(3) Some True by simp
        ultimately have "go_at y q = Some x"
          using "7.IH"(3) [OF n refl Some] y ok by simp
        then show ?thesis using Some True by (simp add: struct_field_set)
      next
        case False
        then show ?thesis using "7.prems"(3) by (simp add: struct_field_set)
      qed
      then show ?thesis using "7.IH"(4) [OF n refl Some y [symmetric] refl] ws ok here by simp
    qed
  qed
qed auto

section \<open>Escape hatches over this codec\<close>

definition go_codec :: "bool \<Rightarrow> gotype \<Rightarrow> goval codec" where
  "go_codec r T = \<lparr>codec_Marshal = (\<lambda>v. Inr (marshal v)), codec_Unmarshal = unmarshal r T\<rparr>"

text \<open>
  C9: A hatch cannot remove anything.  When the patched document of a hatch lacks a member that
  the object has (the effect of a JSON patch \<^verbatim>\<open>remove\<close>, or of a null in a merge patch, on a field
  or on a label), the member is still in the object that \<^verbatim>\<open>ApplyEscapeHatches\<close> returns without
  error, because the patched JSON is unmarshalled over the unpatched value.
\<close>

theorem hatch_cannot_remove:
  assumes "ApplyEscapeHatches L (go_codec r T) obj [hatch] targetKind = Inr obj'"
    and "hatch_Kind hatch = targetKind"
    and "patch_document L hatch targetKind (marshal obj) = Inr doc"
    and "json_absent doc path"
    and "go_at obj path = Some x"
  shows "go_at obj' path = Some x"
proof -
  from assms(1-3) have "unmarshal r T doc obj = (obj', None)"
    by (auto simp: apply_hatch_def go_codec_def split: sum.splits prod.splits option.splits)
  then show ?thesis using assms(4,5) by (rule unmarshal_keeps(1))
qed

text \<open>
  A workload object with a label, and a JSON patch that removes the label from its document:
  no error, and the label stays.
\<close>

definition labelled_type :: gotype where
  "labelled_type = GStruct [(''metadata'', True, GStruct [(''labels'', True, GMap GString)])]"

definition labelled_value :: goval where
  "labelled_value = VStruct [(''metadata'', True,
     VStruct [(''labels'', True, VMap (Some [(''team'', VString ''a'')]))])]"

definition removing_lib :: lib where
  "removing_lib = mem_lib\<lparr>lib_DecodePatch := (\<lambda>_. Inr []),
     lib_PatchApply := (\<lambda>_ _. Inr (JObj [(''metadata'', JObj [(''labels'', JObj [])])]))\<rparr>"

definition removing_hatch :: EscapeHatch where
  "removing_hatch = \<lparr>hatch_Kind = ''Service'', hatch_PatchType = ''JSONPatch'',
     hatch_Patch = ''[{op: remove, path: /metadata/labels/team}]''\<rparr>"

lemma removing_hatch_runs:
  "ApplyEscapeHatches removing_lib (go_codec r labelled_type) labelled_value
     [removing_hatch] ''Service'' = Inr labelled_value"
  by (simp add: apply_hatch_def patch_document_def go_codec_def labelled_type_def
      labelled_value_def removing_lib_def removing_hatch_def find_field_def set_field_def
      old_entries_def)

theorem hatch_cannot_remove_witness:
  "go_at labelled_value [''metadata'', ''labels'', ''team''] = Some (VString ''a'') \<and>
   (\<exists>obj'. ApplyEscapeHatches removing_lib (go_codec True labelled_type) labelled_value
       [removing_hatch] ''Service'' = Inr obj' \<and>
     go_at obj' [''metadata'', ''labels'', ''team''] = Some (VString ''a''))"
proof -
  have at: "go_at labelled_value [''metadata'', ''labels'', ''team''] = Some (VString ''a'')"
    by (simp add: labelled_value_def)
  have "go_at labelled_value [''metadata'', ''labels'', ''team''] = Some (VString ''a'')"
    by (rule hatch_cannot_remove [OF removing_hatch_runs [of True] _ _ _ at])
      (auto simp: patch_document_def removing_lib_def removing_hatch_def fold_name_def)
  then show ?thesis using removing_hatch_runs [of True] by blast
qed

end
