(* ===== verification/Sample_Cluster.thy ===== *)
theory Sample_Cluster
  imports Mem_Cluster Patch_Engine
begin

text \<open>
  A concrete cluster, on which the properties are instantiated: the Deployment \<open>web\<close> in the
  namespace \<open>shop\<close>, one resource of every custom kind that targets it, all named \<open>front\<close>,
  and a few children of earlier runs.
\<close>

text \<open>A codec that loses nothing, for runs without escape hatches.\<close>

definition trivial_codec :: "'o codec" where
  "trivial_codec =
     \<lparr>codec_Marshal = (\<lambda>_. Inr JNull), codec_Unmarshal = (\<lambda>_ x. (x, None))\<rparr>"

definition sample_ref :: ResourceRef where
  "sample_ref =
     \<lparr>ref_Resource = ''web'', ref_Kind = ''Deployment'', ref_ApiVersion = ''apps/v1'',
      ref_Namespace = ''shop''\<rparr>"

definition sample_percent :: IntOrString where
  "sample_percent = \<lparr>ios_Type = 1, ios_IntVal = 0, ios_StrVal = ''50%''\<rparr>"

definition sample_ComputeSpec :: ComputeSpec where
  "sample_ComputeSpec =
     \<lparr>cs_TargetRef = sample_ref,
      cs_Autoscaling =
        \<lparr>as_MinReplicas = 2, as_MaxReplicas = 5, as_TargetCPUUtilizationPercentage = 0,
         as_TargetMemoryUtilizationPercentage = 70\<rparr>,
      cs_Scheduling =
        \<lparr>sch_NodeSelector = [(''disk'', ''ssd'')], sch_Affinity = zero_Affinity,
         sch_TopologySpreadConstraints = []\<rparr>,
      cs_PodDisruptionBudget =
        \<lparr>pdbs_MinAvailable = zero_IntOrString, pdbs_MaxUnavailable = sample_percent\<rparr>,
      cs_EscapeHatches = []\<rparr>"

definition sample_compute :: Compute where
  "sample_compute =
     named_object ''front'' ''shop'' sample_ComputeSpec \<lparr>compute_Conditions = []\<rparr>"

text \<open>The same Compute with every feature switched off.\<close>

definition sample_compute_off :: Compute where
  "sample_compute_off =
     sample_compute\<lparr>obj_Spec := zero_ComputeSpec\<lparr>cs_TargetRef := sample_ref\<rparr>\<rparr>"

definition sample_hpa :: HorizontalPodAutoscaler where
  "sample_hpa =
     named_object ''front-hpa'' ''shop'' (zero_HPASpec\<lparr>hpa_MaxReplicas := 9\<rparr>) (JStr ''active'')"

definition sample_pod :: PodSpec where
  "sample_pod =
     \<lparr>ps_Volumes = [],
      ps_Containers =
        [\<lparr>ct_Name = ''app'', ct_VolumeMounts = [], ct_rest = JNull\<rparr>,
         \<lparr>ct_Name = ''sidecar'', ct_VolumeMounts = [], ct_rest = JNull\<rparr>],
      ps_NodeSelector = [], ps_Affinity = None, ps_TopologySpreadConstraints = [],
      ps_rest = JNull\<rparr>"

definition sample_selector :: LabelSelector where
  "sample_selector = \<lparr>ls_MatchLabels = [(''tier'', ''front'')], ls_rest = JNull\<rparr>"

definition sample_deployment :: Deployment where
  "sample_deployment =
     named_object ''web'' ''shop''
       \<lparr>dep_Selector = Some sample_selector, dep_Template_Spec = sample_pod,
        dep_rest = JNull\<rparr> JNull"

definition sample_StorageSpec :: StorageSpec where
  "sample_StorageSpec =
     \<lparr>ss_TargetRef = sample_ref, ss_StorageClassName = '''',
      ss_Volumes =
        [\<lparr>vsp_Name = ''data'', vsp_Size = ''10Gi'', vsp_MountPath = ''/data'', vsp_AccessModes = []\<rparr>,
         \<lparr>vsp_Name = ''logs'', vsp_Size = ''1Gi'', vsp_MountPath = ''/logs'',
          vsp_AccessModes = [''ReadWriteMany'']\<rparr>],
      ss_EscapeHatches = []\<rparr>"

definition sample_storage :: Storage where
  "sample_storage =
     named_object ''front'' ''shop'' sample_StorageSpec \<lparr>storage_Conditions = []\<rparr>"

definition sample_NetworkingSpec :: NetworkingSpec where
  "sample_NetworkingSpec =
     \<lparr>ns_TargetRef = sample_ref,
      ns_Service = \<lparr>sspec_Ports = [\<lparr>sp_Name = ''http'', sp_Port = 8080, sp_rest = JNull\<rparr>],
                    sspec_Type = ''''\<rparr>,
      ns_Ingress =
        \<lparr>ingress_PrivateRoutes =
           [\<lparr>route_Hostnames = [''admin.shop''], route_Paths = [''/admin'']\<rparr>],
         ingress_PublicRoutes =
           [\<lparr>route_Hostnames = [''shop.com'', ''www.shop.com''], route_Paths = []\<rparr>],
         ingress_TLS = \<lparr>tls_SecretName = ''cert''\<rparr>\<rparr>,
      ns_EscapeHatches = []\<rparr>"

definition sample_networking :: Networking where
  "sample_networking =
     named_object ''front'' ''shop'' sample_NetworkingSpec \<lparr>networking_Conditions = []\<rparr>"

definition sample_ObservabilitySpec :: ObservabilitySpec where
  "sample_ObservabilitySpec =
     \<lparr>os_TargetRef = sample_ref,
      os_ServiceMonitor = \<lparr>sm_Enabled = True, sm_Interval = ''30s'', sm_Path = ''/metrics''\<rparr>,
      os_PodMonitor = \<lparr>pm_Enabled = True, pm_Interval = '''', pm_Path = ''/metrics''\<rparr>,
      os_EscapeHatches = []\<rparr>"

definition sample_observability :: Observability where
  "sample_observability =
     named_object ''front'' ''shop'' sample_ObservabilitySpec \<lparr>observability_Conditions = []\<rparr>"

definition sample_rule :: PolicyRule where
  "sample_rule =
     \<lparr>pr_Verbs = [''get''], pr_APIGroups = [''''], pr_Resources = [''configmaps''],
      pr_ResourceNames = [], pr_NonResourceURLs = []\<rparr>"

definition sample_SecuritySpec :: SecuritySpec where
  "sample_SecuritySpec =
     \<lparr>sec_TargetRef = sample_ref,
      sec_RBAC = \<lparr>rbac_CreateRole = True, rbac_Rules = [sample_rule]\<rparr>,
      sec_EscapeHatches = []\<rparr>"

definition sample_security :: Security where
  "sample_security =
     named_object ''front'' ''shop'' sample_SecuritySpec \<lparr>security_Conditions = []\<rparr>"

text \<open>Workloads are cluster-scoped: their namespace is empty.\<close>

definition sample_workload :: Workload where
  "sample_workload =
     named_object ''front'' ''''
       \<lparr>ws_TargetRef = sample_ref, ws_Compute = sample_ComputeSpec,
        ws_Storage = sample_StorageSpec, ws_Networking = sample_NetworkingSpec,
        ws_Observability = sample_ObservabilitySpec, ws_Security = sample_SecuritySpec\<rparr>
       \<lparr>workload_Conditions = []\<rparr>"

definition sample_cluster :: cluster where
  "sample_cluster =
     empty_cluster\<lparr>cl_workloads := [sample_workload], cl_computes := [sample_compute],
       cl_storages := [sample_storage], cl_networkings := [sample_networking],
       cl_observabilities := [sample_observability], cl_securities := [sample_security],
       cl_hpas := [sample_hpa], cl_deployments := [sample_deployment]\<rparr>"

lemmas sample_defs =
  sample_ref_def sample_percent_def sample_ComputeSpec_def sample_compute_def
  sample_compute_off_def sample_hpa_def sample_pod_def sample_selector_def
  sample_deployment_def sample_StorageSpec_def sample_storage_def sample_NetworkingSpec_def
  sample_networking_def sample_ObservabilitySpec_def sample_observability_def sample_rule_def
  sample_SecuritySpec_def sample_security_def sample_workload_def sample_cluster_def
  empty_cluster_def

lemma sample_stored:
  "workloads_view sample_cluster ('''', ''front'') = Some sample_workload"
  "computes_view sample_cluster (''shop'', ''front'') = Some sample_compute"
  "storages_view sample_cluster (''shop'', ''front'') = Some sample_storage"
  "networkings_view sample_cluster (''shop'', ''front'') = Some sample_networking"
  "observabilities_view sample_cluster (''shop'', ''front'') = Some sample_observability"
  "securities_view sample_cluster (''shop'', ''front'') = Some sample_security"
  "deployments_view sample_cluster (''shop'', ''web'') = Some sample_deployment"
  by code_simp+

lemma sample_healthy [simp]: "mem_healthy sample_cluster"
  by (simp add: mem_healthy_def sample_cluster_def empty_cluster_def)

end
