(* ===== verification/Hatch_Properties.thy ===== *)
theory Hatch_Properties
  imports Go_Json Sample_Cluster
begin

text \<open>
  What \<^verbatim>\<open>ApplyEscapeHatches\<close> guarantees its callers: which hatches are applied and in which
  order, when it fails and with which error, and that it works on a copy.
\<close>

section \<open>Selection and order\<close>

lemma ApplyEscapeHatches_foldl:
  "foldl (\<lambda>r h. bind_sum r (apply_hatch L cod h k)) (Inl e) hs = Inl e"
  by (induction hs) simp_all

text \<open>
  C8: \<^verbatim>\<open>ApplyEscapeHatches\<close> applies the hatches whose kind is the target kind, and no others, one
  after the other in the order of the list, each to the object the previous one produced;
  the first failure ends the sequence.  In particular a list without a hatch for the kind
  returns the object as it is.
\<close>

theorem hatches_applied_in_order:
  "ApplyEscapeHatches L cod obj hatches targetKind =
     foldl (\<lambda>r h. bind_sum r (apply_hatch L cod h targetKind)) (Inr obj)
       (filter (\<lambda>h. hatch_Kind h = targetKind) hatches)"
proof (induction hatches arbitrary: obj)
  case Nil
  then show ?case by simp
next
  case (Cons h hs)
  then show ?case
    by (cases "apply_hatch L cod h targetKind obj") (simp_all add: ApplyEscapeHatches_foldl)
qed

section \<open>Failure\<close>

text \<open>
  The function fails exactly when some hatch for the target kind fails on the object that
  the hatches before it produced, and then with the error of that hatch; a hatch of an
  unknown patch type is such a failure, reported with its type and the kind, when the object
  can be marshalled.
\<close>

theorem hatches_fail_iff:
  "(ApplyEscapeHatches L cod obj hatches targetKind = Inl e \<longleftrightarrow>
     (\<exists>before h after x. hatches = before @ h # after \<and> hatch_Kind h = targetKind \<and>
        ApplyEscapeHatches L cod obj before targetKind = Inr x \<and>
        apply_hatch L cod h targetKind x = Inl e)) \<and>
   (codec_Marshal cod obj = Inr doc \<and> hatch_PatchType hatch \<notin> {''JSONPatch'', ''JSONMergePatch''} \<longrightarrow>
     ApplyEscapeHatches L cod obj (hatch # hatches) (hatch_Kind hatch) =
       Inl (Errorf ''unsupported patch type %q for kind %s''
              [hatch_PatchType hatch, hatch_Kind hatch] None))"
proof
  show "ApplyEscapeHatches L cod obj hatches targetKind = Inl e \<longleftrightarrow>
     (\<exists>before h after x. hatches = before @ h # after \<and> hatch_Kind h = targetKind \<and>
        ApplyEscapeHatches L cod obj before targetKind = Inr x \<and>
        apply_hatch L cod h targetKind x = Inl e)"
  proof
    assume "ApplyEscapeHatches L cod obj hatches targetKind = Inl e"
    then show "\<exists>before h after x. hatches = before @ h # after \<and> hatch_Kind h = targetKind \<and>
        ApplyEscapeHatches L cod obj before targetKind = Inr x \<and>
        apply_hatch L cod h targetKind x = Inl e"
    proof (induction hatches arbitrary: obj)
      case Nil
      then show ?case by simp
    next
      case (Cons g gs)
      consider (other) "hatch_Kind g \<noteq> targetKind"
        | (fails) "hatch_Kind g = targetKind" "apply_hatch L cod g targetKind obj = Inl e"
        | (goes_on) y where "hatch_Kind g = targetKind" "apply_hatch L cod g targetKind obj = Inr y"
            "ApplyEscapeHatches L cod y gs targetKind = Inl e"
        using Cons.prems by (auto split: if_splits sum.splits)
      then show ?case
      proof cases
        case other
        with Cons obtain before h after x where "gs = before @ h # after" "hatch_Kind h = targetKind"
          "ApplyEscapeHatches L cod obj before targetKind = Inr x"
          "apply_hatch L cod h targetKind x = Inl e" by (metis ApplyEscapeHatches.simps(2))
        with other show ?thesis by (intro exI [of _ "g # before"] exI [of _ h] exI [of _ after]) simp
      next
        case fails
        then show ?thesis by (intro exI [of _ "[]"] exI [of _ g] exI [of _ gs] exI [of _ obj]) simp
      next
        case goes_on
        with Cons.IH obtain before h after x where "gs = before @ h # after" "hatch_Kind h = targetKind"
          "ApplyEscapeHatches L cod y before targetKind = Inr x"
          "apply_hatch L cod h targetKind x = Inl e" by metis
        with goes_on show ?thesis by (intro exI [of _ "g # before"] exI [of _ h] exI [of _ after]) simp
      qed
    qed
  next
    assume "\<exists>before h after x. hatches = before @ h # after \<and> hatch_Kind h = targetKind \<and>
        ApplyEscapeHatches L cod obj before targetKind = Inr x \<and>
        apply_hatch L cod h targetKind x = Inl e"
    then show "ApplyEscapeHatches L cod obj hatches targetKind = Inl e"
      by (auto simp: ApplyEscapeHatches_append)
  qed
  show "codec_Marshal cod obj = Inr doc \<and> hatch_PatchType hatch \<notin> {''JSONPatch'', ''JSONMergePatch''} \<longrightarrow>
     ApplyEscapeHatches L cod obj (hatch # hatches) (hatch_Kind hatch) =
       Inl (Errorf ''unsupported patch type %q for kind %s''
              [hatch_PatchType hatch, hatch_Kind hatch] None)"
    by (simp add: apply_hatch_def patch_document_def)
qed

definition yaml_hatch :: EscapeHatch where
  "yaml_hatch = \<lparr>hatch_Kind = ''Service'', hatch_PatchType = ''YAML'', hatch_Patch = ''''\<rparr>"

theorem hatches_fail_iff_witness:
  "ApplyEscapeHatches mem_lib trivial_codec sample_deployment [removing_hatch, yaml_hatch] ''Service'' =
     Inl (Errorf ''unsupported patch type %q for kind %s'' [''YAML'', ''Service''] None)"
proof -
  have "ApplyEscapeHatches mem_lib trivial_codec sample_deployment [yaml_hatch] (hatch_Kind yaml_hatch) =
      Inl (Errorf ''unsupported patch type %q for kind %s''
        [hatch_PatchType yaml_hatch, hatch_Kind yaml_hatch] None)"
    using hatches_fail_iff [of mem_lib trivial_codec sample_deployment "[]" "''Service''" _ JNull yaml_hatch]
    by (simp add: trivial_codec_def yaml_hatch_def)
  moreover have "apply_hatch mem_lib trivial_codec removing_hatch ''Service'' sample_deployment =
      Inr sample_deployment"
    by (simp add: apply_hatch_def patch_document_def trivial_codec_def removing_hatch_def mem_lib_def)
  ultimately show ?thesis
    by (simp add: yaml_hatch_def removing_hatch_def del: ApplyEscapeHatches.simps(1))
qed

section \<open>The copy\<close>

text \<open>
  C33: The object a caller passes is never written, on success, failure or partial failure:
  over a heap, the code changes only the cell of the copy it allocates, returns that cell on
  success, and its result and errors are those of the function on values.
\<close>

theorem hatches_work_on_copy:
  assumes "h obj = Some x" and "h free = None"
  shows "\<exists>r h'. apply_hatches_heap L cod free obj hatches targetKind h = Some (r, h') \<and>
    h' obj = Some x \<and> (\<forall>a. a \<noteq> free \<longrightarrow> h' a = h a) \<and>
    (case ApplyEscapeHatches L cod x hatches targetKind of
       Inl e \<Rightarrow> r = Inl e
     | Inr y \<Rightarrow> r = Inr free \<and> h' free = Some y)"
proof -
  from assms have ne: "obj \<noteq> free" by auto
  from hatch_loop_heap_refines [of "h(free \<mapsto> x)" free x L cod hatches targetKind]
  obtain r h' where "hatch_loop_heap L cod free hatches targetKind (h(free \<mapsto> x)) = Some (r, h')"
    and fr: "\<forall>a. a \<noteq> free \<longrightarrow> h' a = (h(free \<mapsto> x)) a"
    and res: "case ApplyEscapeHatches L cod x hatches targetKind of
       Inl e \<Rightarrow> r = Inl e | Inr y \<Rightarrow> r = Inr free \<and> h' free = Some y" by auto
  then have "apply_hatches_heap L cod free obj hatches targetKind h = Some (r, h')"
    by (simp add: apply_hatches_heap_def assms(1))
  with fr res ne assms(1) show ?thesis by (intro exI [of _ r] exI [of _ h']) simp
qed

theorem hatches_work_on_copy_witness:
  "\<exists>r h'. apply_hatches_heap mem_lib (go_codec True labelled_type) 1 0 [removing_hatch] ''Service''
       [0 \<mapsto> labelled_value] = Some (r, h') \<and> h' 0 = Some labelled_value"
  using hatches_work_on_copy [of "[0 \<mapsto> labelled_value]" 0 labelled_value 1 mem_lib
      "go_codec True labelled_type" "[removing_hatch]" "''Service''"]
  by auto

end
