(* ===== verification/Child_Controller.thy ===== *)
theory Child_Controller
  imports Api
begin

text \<open>
  The shape thirteen of the sixteen reconcilers of \<^verbatim>\<open>internal/controller\<close> share: read the owner
  resource, stop when it is gone or names no target, delete the one managed child when the
  feature is off, create or update it otherwise.  \<open>child_reconcile\<close> is that shape with its
  variable parts as arguments, \<open>child_spec\<close> the abstract step on the two stores it
  implements.  The component theories translate each handler in full and show it to be an
  instance, by interpreting \<open>child_controller\<close>; the facts proved here then hold of it.
\<close>

section \<open>The common shape\<close>

text \<open>
  \<open>skip\<close>: the guard on the target reference; \<open>enabled\<close>: whether the child is wanted; \<open>fresh\<close>:
  the child object with name and namespace only; \<open>prepare\<close>: what is read before the callback
  is built (only the disruption-budget controller reads anything); \<open>mutate\<close>: the callback
  passed to \<^verbatim>\<open>CreateOrUpdate\<close>.
\<close>

definition child_reconcile ::
    "lib \<Rightarrow> ('s, 'o) api \<Rightarrow> ('s, ('cp, 'cq) object) api \<Rightarrow> ('o \<Rightarrow> bool) \<Rightarrow> ('o \<Rightarrow> bool) \<Rightarrow>
     ('o \<Rightarrow> ('cp, 'cq) object) \<Rightarrow> ('o \<Rightarrow> ('s, 'p) state) \<Rightarrow>
     ('o \<Rightarrow> 'p \<Rightarrow> ('cp, 'cq) object \<Rightarrow> go_error + ('cp, 'cq) object) \<Rightarrow> key \<Rightarrow>
     ('s, go_error option) state" where
  "child_reconcile L oapi capi skip enabled fresh prepare mutate req = do {
     r \<leftarrow> api_get oapi req;
     (case r of
        Inl err \<Rightarrow> State_Monad.return (lib_IgnoreNotFound L err)
      | Inr owner \<Rightarrow>
          if skip owner then State_Monad.return None
          else if \<not> enabled owner then do {
            g \<leftarrow> api_get capi (key_of (fresh owner));
            (case g of
               Inl _ \<Rightarrow> State_Monad.return None
             | Inr child \<Rightarrow> api_delete capi child)
          }
          else do {
            p \<leftarrow> prepare owner;
            api_createOrUpdate capi (fresh owner) (mutate owner p)
          })
   }"

text \<open>
  The abstract step: what the child store becomes, and whether the step reports success.
\<close>

definition child_spec ::
    "('o \<Rightarrow> bool) \<Rightarrow> ('o \<Rightarrow> bool) \<Rightarrow> ('o \<Rightarrow> ('cp, 'cq) object) \<Rightarrow>
     ('o \<Rightarrow> ('cp, 'cq) object \<Rightarrow> go_error + ('cp, 'cq) object) \<Rightarrow> 'o option \<Rightarrow>
     (key \<Rightarrow> ('cp, 'cq) object option) \<Rightarrow> bool \<times> (key \<Rightarrow> ('cp, 'cq) object option)" where
  "child_spec skip enabled fresh mutate owner v =
     (case owner of
        None \<Rightarrow> (True, v)
      | Some w \<Rightarrow>
          if skip w then (True, v)
          else if \<not> enabled w then (True, v(key_of (fresh w) := None))
          else (case mutate w (current v (key_of (fresh w)) (fresh w)) of
                  Inl e \<Rightarrow> (False, v)
                | Inr y \<Rightarrow> if key_of y = key_of (fresh w)
                           then (True, v(key_of (fresh w) \<mapsto> y)) else (False, v)))"

text \<open>A view that the reads of owners and the calls on children leave alone is left alone.\<close>

lemma child_reconcile_preserves:
  assumes "\<And>k. preserves v (api_get oapi k)" and "foreign_to capi v"
    and "\<And>w. preserves v (prepare w)"
  shows "preserves v (child_reconcile L oapi capi skip enabled fresh prepare mutate req)"
  unfolding child_reconcile_def
  by (intro preserves_bind preserves_case_sum preserves_if preserves_return assms(1,3)
      foreign_toD [OF assms(2)])

section \<open>Controllers of that shape\<close>

locale child_controller =
  fixes L :: lib
    and reconcile :: "('s, ('op, 'oq) object) api \<Rightarrow> ('s, ('cp, 'cq) object) api \<Rightarrow> key \<Rightarrow>
                      ('s, go_error option) state"
    and skip :: "('op, 'oq) object \<Rightarrow> bool"
    and enabled :: "('op, 'oq) object \<Rightarrow> bool"
    and fresh :: "('op, 'oq) object \<Rightarrow> ('cp, 'cq) object"
    and prepare :: "('op, 'oq) object \<Rightarrow> ('s, 'p) state"
    and mutate :: "('op, 'oq) object \<Rightarrow> 'p \<Rightarrow> ('cp, 'cq) object \<Rightarrow> go_error + ('cp, 'cq) object"
  assumes shape:
    "reconcile oapi capi req =
       child_reconcile L oapi capi skip enabled fresh prepare mutate req"
begin

text \<open>The handler read backwards from its first call.\<close>

lemma reconcile_cases:
  assumes run: "run_state (reconcile oapi capi req) s = (r, s')"
  obtains (owner_error) e where "run_state (api_get oapi req) s = (Inl e, s')"
      "r = lib_IgnoreNotFound L e"
  | (skipped) w where "run_state (api_get oapi req) s = (Inr w, s')" "skip w" "r = None"
  | (child_unread) w t e where "run_state (api_get oapi req) s = (Inr w, t)" "\<not> skip w"
      "\<not> enabled w" "run_state (api_get capi (key_of (fresh w))) t = (Inl e, s')" "r = None"
  | (deleted) w t c u where "run_state (api_get oapi req) s = (Inr w, t)" "\<not> skip w"
      "\<not> enabled w" "run_state (api_get capi (key_of (fresh w))) t = (Inr c, u)"
      "run_state (api_delete capi c) u = (r, s')"
  | (upserted) w t p u where "run_state (api_get oapi req) s = (Inr w, t)" "\<not> skip w"
      "enabled w" "run_state (prepare w) t = (p, u)"
      "run_state (api_createOrUpdate capi (fresh w) (mutate w p)) u = (r, s')"
proof -
  obtain g t where g: "run_state (api_get oapi req) s = (g, t)"
    by (cases "run_state (api_get oapi req) s") auto
  show thesis
  proof (cases g)
    case (Inl e)
    with g run show thesis
      by (intro owner_error [of e]) (auto simp: shape child_reconcile_def)
  next
    case (Inr w)
    consider "skip w" | "\<not> skip w" "enabled w" | "\<not> skip w" "\<not> enabled w" by blast
    then show thesis
    proof cases
      case 1
      with g Inr run show thesis
        by (intro skipped [of w]) (auto simp: shape child_reconcile_def)
    next
      case 2
      with g Inr run show thesis
        by (auto simp: shape child_reconcile_def split: prod.splits intro: upserted)
    next
      case 3
      with g Inr run show thesis
        by (auto simp: shape child_reconcile_def split: prod.splits sum.splits
            intro: child_unread deleted)
    qed
  qed
qed

end

section \<open>Running against a store\<close>

locale child_controller_run =
  child_controller L reconcile skip enabled fresh prepare mutate +
  owner_child_stores oapi oview capi cview "lib_IsNotFound L" +
  runtime_lib L
  for L
    and reconcile :: "('s, ('op, 'oq) object) api \<Rightarrow> ('s, ('cp, 'cq) object) api \<Rightarrow> key \<Rightarrow>
                      ('s, go_error option) state"
    and skip enabled fresh
    and prepare :: "('op, 'oq) object \<Rightarrow> ('s, 'p) state"
    and mutate
    and oapi :: "('s, ('op, 'oq) object) api" and oview
    and capi :: "('s, ('cp, 'cq) object) api" and cview +
  assumes prepare_frame: "preserves oview (prepare w)" "preserves cview (prepare w)"
begin

lemma prepare_cview:
  assumes "run_state (prepare w) s = (p, s')"
  shows "cview s' = cview s"
  using prepare_frame(2) assms by (rule preservesD)

text \<open>The owner resource is only read.\<close>

lemma owner_preserved: "preserves oview (reconcile oapi capi req)"
  unfolding shape child_reconcile_def
  by (intro preserves_bind preserves_case_sum preserves_if preserves_return O.get_view
      child_frame prepare_frame)

text \<open>No key of the child store changes but the one the owner's name determines.\<close>

lemma child_frame_key:
  assumes run: "run_state (reconcile oapi capi req) s = (r, s')"
    and other: "\<And>w. oview s req = Some w \<Longrightarrow> k \<noteq> key_of (fresh w)"
  shows "cview s' k = cview s k"
  using run
proof (cases rule: reconcile_cases)
  case (owner_error e)
  then show ?thesis by (simp add: owner_get_cview)
next
  case (skipped w)
  then show ?thesis by (simp add: owner_get_cview)
next
  case (child_unread w t e)
  then show ?thesis using owner_get_cview C.get_result by metis
next
  case (deleted w t c u)
  have ct: "cview t = cview s" using deleted(1) by (rule owner_get_cview)
  have cu: "cview u = cview t" using deleted(4) by (rule C.get_result)
  from deleted(1) have "oview s req = Some w" by (rule O.get_found)
  then have "k \<noteq> key_of (fresh w)" by (rule other)
  moreover from deleted(4) have "key_of c = key_of (fresh w)"
    by (meson C.get_found C.view_key)
  ultimately show ?thesis using deleted(5) C.delete_frame ct cu by metis
next
  case (upserted w t p u)
  have ct: "cview t = cview s" using upserted(1) by (rule owner_get_cview)
  have cu: "cview u = cview t" using upserted(4) by (rule prepare_cview)
  from upserted(1) have "oview s req = Some w" by (rule O.get_found)
  then have "k \<noteq> key_of (fresh w)" by (rule other)
  then show ?thesis using upserted(5) C.cou_frame ct cu by metis
qed

text \<open>
  What a run leaves of the children, whatever it returns: as they were, without the child, or
  with a result of the callback stored.
\<close>

lemma child_outcome:
  assumes run: "run_state (reconcile oapi capi req) s = (r, s')"
  obtains (same) "cview s' = cview s"
  | (removed) w where "oview s req = Some w" "\<not> enabled w"
      "cview s' = (cview s)(key_of (fresh w) := None)"
  | (stored) w p x y where "oview s req = Some w" "mutate w p x = Inr y"
      "key_of y = key_of (fresh w)" "cview s' = (cview s)(key_of (fresh w) \<mapsto> y)" "enabled w"
  using run
proof (cases rule: reconcile_cases)
  case (owner_error e)
  then show thesis by (intro same) (simp add: owner_get_cview)
next
  case (skipped w)
  then show thesis by (intro same) (simp add: owner_get_cview)
next
  case (child_unread w t e)
  then show thesis using same owner_get_cview C.get_result by metis
next
  case (deleted w t c u)
  have u: "oview s req = Some w" "cview u = cview s"
    using deleted(1,4) O.get_found owner_get_cview C.get_result by metis+
  have "key_of c = key_of (fresh w)" using deleted(4) C.get_found C.view_key by blast
  with deleted(5) u C.delete_ok C.delete_err show thesis
    using same removed deleted(3) by (cases r) (metis, metis)
next
  case (upserted w t p u)
  have u: "oview s req = Some w" "cview u = cview s"
    using upserted(1,4) O.get_found owner_get_cview prepare_cview by metis+
  from upserted(5) show thesis
    by (rule C.cou_cases) (use u upserted(3) same stored in metis)+
qed

text \<open>So a property that every result of the callback has is kept by the children.\<close>

lemma child_invariant:
  assumes "run_state (reconcile oapi capi req) s = (r, s')"
    and "all_stored (cview s) P"
    and "\<And>w p x y. oview s req = Some w \<Longrightarrow> mutate w p x = Inr y \<Longrightarrow>
           key_of y = key_of (fresh w) \<Longrightarrow> P y"
  shows "all_stored (cview s') P"
  using assms(1)
proof (cases rule: child_outcome)
  case (stored w p x y)
  from assms(3) [OF stored(1-3)] assms(2) stored(4) show ?thesis by (simp add: all_stored_upd)
qed (use assms(2) in \<open>simp_all add: all_stored_del\<close>)

text \<open>While every owner wants its child, no child goes.\<close>

lemma child_kept:
  assumes "run_state (reconcile oapi capi req) s = (r, s')"
    and "\<And>w. oview s req = Some w \<Longrightarrow> enabled w" and "cview s k \<noteq> None"
  shows "cview s' k \<noteq> None"
  using assms(1)
proof (cases rule: child_outcome)
  case (removed w)
  with assms(2) show ?thesis by blast
qed (use assms(3) in simp_all)

text \<open>An owner that is gone, or names no target, changes nothing.\<close>

lemma inert:
  assumes run: "run_state (reconcile oapi capi req) s = (r, s')"
    and idle: "\<And>w. oview s req = Some w \<Longrightarrow> skip w"
  shows "cview s' = cview s"
  using run
proof (cases rule: reconcile_cases)
  case (owner_error e)
  then show ?thesis by (simp add: owner_get_cview)
next
  case (skipped w)
  then show ?thesis by (simp add: owner_get_cview)
qed (use idle O.get_found in blast)+

text \<open>
  A run that reports success for an enabled owner has stored what the callback made of the
  current child.
\<close>

lemma enabled_success:
  assumes run: "run_state (reconcile oapi capi req) s = (None, s')"
    and w: "oview s req = Some w" and "\<not> skip w" and "enabled w"
  obtains t p u y where "run_state (api_get oapi req) s = (Inr w, t)"
    "run_state (prepare w) t = (p, u)"
    "mutate w p (current (cview s) (key_of (fresh w)) (fresh w)) = Inr y"
    "key_of y = key_of (fresh w)" "cview s' = (cview s)(key_of (fresh w) \<mapsto> y)"
  using run
proof (cases rule: reconcile_cases)
  case (owner_error e)
  then have "\<not> lib_IsNotFound L e" using w O.get_missing by fastforce
  with owner_error(2) show ?thesis by (simp add: ignore_not_found)
next
  case (upserted w' t p u)
  from upserted(1) w have [simp]: "w' = w" using O.get_found by fastforce
  have "cview t = cview s" using upserted(1) by (rule owner_get_cview)
  moreover have "cview u = cview t"
    using upserted(4) by (rule prepare_cview)
  ultimately show ?thesis
    using upserted C.cou_ok [OF upserted(5)] that by auto
qed (use assms O.get_found in fastforce)+

text \<open>
  A run that reports success for a disabled owner has removed the child, or could not read
  it: the handler drops every error of that read.
\<close>

lemma disabled_success:
  assumes run: "run_state (reconcile oapi capi req) s = (None, s')"
    and w: "oview s req = Some w" and "\<not> skip w" and "\<not> enabled w"
  shows "cview s' = (cview s)(key_of (fresh w) := None) \<or>
    (\<exists>t e. run_state (api_get capi (key_of (fresh w))) t = (Inl e, s') \<and>
       cview t = cview s \<and> cview s' = cview s)"
  using run
proof (cases rule: reconcile_cases)
  case (owner_error e)
  then have "\<not> lib_IsNotFound L e" using w O.get_missing by fastforce
  with owner_error(2) show ?thesis by (simp add: ignore_not_found)
next
  case (child_unread w' t e)
  from child_unread(1) w have [simp]: "w' = w" using O.get_found by fastforce
  have "cview t = cview s" using child_unread(1) by (rule owner_get_cview)
  moreover have "cview s' = cview t" using child_unread(4) by (rule C.get_result)
  ultimately show ?thesis using child_unread by auto
next
  case (deleted w' t c u)
  from deleted(1) w have [simp]: "w' = w" using O.get_found by fastforce
  have "cview t = cview s" using deleted(1) by (rule owner_get_cview)
  moreover have "cview u = cview t" using deleted(4) by (rule C.get_result)
  moreover have "key_of c = key_of (fresh w)"
    using deleted(4) C.get_found C.view_key by fastforce
  ultimately show ?thesis using C.delete_ok [OF deleted(5)] by simp
qed (use assms O.get_found in fastforce)+

text \<open>
  A child that the callback maps to itself is a steady state: whatever the run returns, the
  child store is as it was.
\<close>

lemma fixpoint_stable:
  assumes run: "run_state (reconcile oapi capi req) s = (r, s')"
    and w: "oview s req = Some w" and en: "enabled w"
    and c: "cview s (key_of (fresh w)) = Some c"
    and fixp: "\<And>t u p. run_state (prepare w) t = (p, u) \<Longrightarrow>
                run_state (api_get oapi req) s = (Inr w, t) \<Longrightarrow> mutate w p c = Inr c"
  shows "cview s' = cview s"
  using run
proof (cases rule: reconcile_cases)
  case (owner_error e)
  then show ?thesis by (simp add: owner_get_cview)
next
  case (skipped w')
  then show ?thesis by (simp add: owner_get_cview)
next
  case (upserted w' t p u)
  from upserted(1) w have [simp]: "w' = w" using O.get_found by fastforce
  have ct: "cview t = cview s" using upserted(1) by (rule owner_get_cview)
  moreover have "cview u = cview t"
    using upserted(4) by (rule prepare_cview)
  ultimately have cu: "cview u = cview s" by simp
  have m: "mutate w p c = Inr c" using upserted fixp by simp
  from c have "key_of c = key_of (fresh w)" by (rule C.view_key)
  from upserted(5) show ?thesis
    by (rule C.cou_cases) (use cu c m in \<open>auto simp: current_def fun_upd_idem\<close>)
qed (use assms O.get_found in fastforce)+

end

section \<open>Undisturbed runs implement the abstract step\<close>

locale child_controller_healthy =
  child_controller_run L reconcile skip enabled fresh prepare mutate oapi oview capi cview +
  healthy_stores oapi oview capi cview "lib_IsNotFound L" healthy
  for L
    and reconcile :: "('s, ('op, 'oq) object) api \<Rightarrow> ('s, ('cp, 'cq) object) api \<Rightarrow> key \<Rightarrow>
                      ('s, go_error option) state"
    and skip enabled fresh
    and prepare :: "('op, 'oq) object \<Rightarrow> ('s, 'p) state"
    and mutate
    and oapi :: "('s, ('op, 'oq) object) api" and oview
    and capi :: "('s, ('cp, 'cq) object) api" and cview and healthy +
  assumes healthy_prepare:
    "healthy s \<Longrightarrow> run_state (prepare w) s = (p, s') \<Longrightarrow> healthy s'"
begin

lemma refines_spec:
  assumes h: "healthy s" and run: "run_state (reconcile oapi capi req) s = (r, s')"
    and p: "\<And>w t p' u. oview s req = Some w \<Longrightarrow> run_state (api_get oapi req) s = (Inr w, t) \<Longrightarrow>
              run_state (prepare w) t = (p', u) \<Longrightarrow> p' = p w"
  shows "healthy s' \<and> oview s' = oview s \<and>
    (r = None, cview s') =
      child_spec skip enabled fresh (\<lambda>w. mutate w (p w)) (oview s req) (cview s)"
proof -
  have ov: "oview s' = oview s" using owner_preserved run by (rule preservesD)
  from run show ?thesis
  proof (cases rule: reconcile_cases)
    case (owner_error e)
    note g = OH.healthy_get [OF h owner_error(1)]
    then have "oview s req = None" and "lib_IsNotFound L e"
      by (cases "oview s req"; auto)+
    moreover have "cview s' = cview s"
      using owner_error(1) by (rule owner_get_cview)
    ultimately show ?thesis
      using g owner_error ov by (simp add: child_spec_def ignore_not_found)
  next
    case (skipped w)
    have w: "oview s req = Some w" using skipped(1) by (rule O.get_found)
    have hs: "healthy s'" using OH.healthy_get [OF h skipped(1)] by simp
    have cs: "cview s' = cview s" using skipped(1) by (rule owner_get_cview)
    show ?thesis by (simp add: child_spec_def w hs cs ov skipped(2,3))
  next
    case (child_unread w t e)
    have w: "oview s req = Some w" using child_unread(1) by (rule O.get_found)
    have t: "healthy t" using OH.healthy_get [OF h child_unread(1)] by simp
    have ct: "cview t = cview s" using child_unread(1) by (rule owner_get_cview)
    have cs': "cview s' = cview t" using child_unread(4) by (rule C.get_result)
    note g = CH.healthy_get [OF t child_unread(4)]
    then have "cview t (key_of (fresh w)) = None"
      by (cases "cview t (key_of (fresh w))") auto
    then have absent: "(cview s)(key_of (fresh w) := None) = cview s"
      by (simp add: ct fun_upd_idem)
    have hs: "healthy s'" using g by simp
    show ?thesis
      by (simp add: child_spec_def w ct cs' ov hs absent child_unread(2,3,5))
  next
    case (deleted w t c u)
    have w: "oview s req = Some w" using deleted(1) by (rule O.get_found)
    have t: "healthy t" using OH.healthy_get [OF h deleted(1)] by simp
    have u: "healthy u" using CH.healthy_get [OF t deleted(4)] by simp
    have ct: "cview t = cview s" using deleted(1) by (rule owner_get_cview)
    have cu: "cview u = cview t" using deleted(4) by (rule C.get_result)
    have c: "cview t (key_of (fresh w)) = Some c" using deleted(4) by (rule C.get_found)
    then have k: "key_of c = key_of (fresh w)" by (rule C.view_key)
    have d: "healthy s'" "r = None"
      using CH.healthy_delete [OF u deleted(5)] c cu k by simp_all
    with deleted(5) have "cview s' = (cview u)(key_of c := None)" by (auto intro: C.delete_ok)
    then show ?thesis by (simp add: child_spec_def w ct cu k ov d deleted(2,3))
  next
    case (upserted w t p' u)
    have w: "oview s req = Some w" using upserted(1) by (rule O.get_found)
    have t: "healthy t" using OH.healthy_get [OF h upserted(1)] by simp
    have u: "healthy u" using t upserted(4) by (rule healthy_prepare)
    have ct: "cview t = cview s" using upserted(1) by (rule owner_get_cview)
    have cu: "cview u = cview t"
      using upserted(4) by (rule prepare_cview)
    have p': "p' = p w" using w upserted(1,4) by (rule p)
    note hc = CH.healthy_cou [OF u upserted(5)]
    let ?k = "key_of (fresh w)"
    let ?m = "mutate w (p w) (current (cview s) ?k (fresh w))"
    have spec: "child_spec skip enabled fresh (\<lambda>w. mutate w (p w)) (oview s req) (cview s) =
        (case ?m of Inl e \<Rightarrow> (False, cview s)
         | Inr y \<Rightarrow> if key_of y = ?k then (True, (cview s)(?k \<mapsto> y)) else (False, cview s))"
      using upserted(2,3) w by (simp add: child_spec_def)
    from upserted(5) show ?thesis
    proof (rule C.cou_cases)
      assume "r \<noteq> None" and same: "cview s' = cview u"
      then obtain e where r: "r = Some e" by auto
      have "case ?m of Inl e \<Rightarrow> True | Inr y \<Rightarrow> key_of y \<noteq> ?k"
        using hc r ct cu p' by (cases ?m) auto
      then show ?thesis using spec hc ov r same ct cu by (auto split: sum.splits)
    next
      fix y
      assume y: "mutate w p' (current (cview u) ?k (fresh w)) = Inr y" "key_of y = ?k"
        and st: "cview s' = (cview u)(?k \<mapsto> y)"
      then have "?m = Inr y" using ct cu p' by simp
      moreover from this have "r = None" using hc y ct cu p' by simp
      ultimately show ?thesis using spec hc ov y st ct cu by simp
    qed
  qed
qed

end

section \<open>Idempotence of the abstract step\<close>

lemma child_spec_idem:
  assumes "\<And>w x y. owner = Some w \<Longrightarrow> mutate w x = Inr y \<Longrightarrow> mutate w y = Inr y"
  shows "child_spec skip enabled fresh mutate owner
      (snd (child_spec skip enabled fresh mutate owner v)) =
    child_spec skip enabled fresh mutate owner v"
proof (cases owner)
  case None
  then show ?thesis by (simp add: child_spec_def)
next
  case (Some w)
  show ?thesis
  proof (cases "mutate w (current v (key_of (fresh w)) (fresh w))")
    case (Inl e)
    with Some show ?thesis by (simp add: child_spec_def)
  next
    case (Inr y)
    with assms Some have "mutate w y = Inr y" by blast
    with Some Inr show ?thesis by (simp add: child_spec_def current_def)
  qed
qed

text \<open>The step has nothing left to do.\<close>

definition child_settled ::
    "('o \<Rightarrow> bool) \<Rightarrow> ('o \<Rightarrow> bool) \<Rightarrow> ('o \<Rightarrow> ('cp, 'cq) object) \<Rightarrow>
     ('o \<Rightarrow> ('cp, 'cq) object \<Rightarrow> go_error + ('cp, 'cq) object) \<Rightarrow> 'o option \<Rightarrow>
     (key \<Rightarrow> ('cp, 'cq) object option) \<Rightarrow> bool" where
  "child_settled skip enabled fresh mutate owner v \<longleftrightarrow>
     snd (child_spec skip enabled fresh mutate owner v) = v"

lemma child_spec_settles:
  assumes "(b, v') = child_spec skip enabled fresh mutate owner v"
    and "\<And>w x y. owner = Some w \<Longrightarrow> mutate w x = Inr y \<Longrightarrow> mutate w y = Inr y"
  shows "child_settled skip enabled fresh mutate owner v'"
proof -
  from assms(1) have "v' = snd (child_spec skip enabled fresh mutate owner v)" by (metis snd_conv)
  then show ?thesis
    unfolding child_settled_def by simp (subst child_spec_idem; use assms(2) in blast)
qed

lemma child_settledD:
  "child_settled skip enabled fresh mutate owner v \<Longrightarrow>
     (b, v') = child_spec skip enabled fresh mutate owner v \<Longrightarrow> v' = v"
  unfolding child_settled_def by (metis snd_conv)

section \<open>Controllers that read nothing before the callback\<close>

text \<open>
  Twelve of the thirteen handlers build the callback from the owner alone.  Their contract,
  for any store and library that keep the laws.
\<close>

locale pure_child_controller =
  fixes L :: lib
    and reconcile :: "('s, ('op, 'oq) object) api \<Rightarrow> ('s, ('cp, 'cq) object) api \<Rightarrow> key \<Rightarrow>
                      ('s, go_error option) state"
    and skip :: "('op, 'oq) object \<Rightarrow> bool"
    and enabled :: "('op, 'oq) object \<Rightarrow> bool"
    and fresh :: "('op, 'oq) object \<Rightarrow> ('cp, 'cq) object"
    and mutate :: "('op, 'oq) object \<Rightarrow> ('cp, 'cq) object \<Rightarrow> go_error + ('cp, 'cq) object"
  assumes pure_shape:
    "reconcile oapi capi req =
       child_reconcile L oapi capi skip enabled fresh (\<lambda>_. State_Monad.return ())
         (\<lambda>w _. mutate w) req"

sublocale pure_child_controller \<subseteq>
  child_controller L reconcile skip enabled fresh "\<lambda>_. State_Monad.return ()" "\<lambda>w _. mutate w"
  by unfold_locales (rule pure_shape)

context pure_child_controller begin

lemma pure_run:
  assumes "owner_child_stores oapi oview capi cview (lib_IsNotFound L)" and "runtime_lib L"
  shows "child_controller_run L reconcile skip enabled fresh (\<lambda>_. State_Monad.return ())
    (\<lambda>w _. mutate w) oapi oview capi cview"
  by (intro child_controller_run.intro child_controller_run_axioms.intro
      child_controller_axioms assms preserves_return)

lemma pure_healthy:
  assumes "healthy_stores oapi oview capi cview (lib_IsNotFound L) healthy" and "runtime_lib L"
  shows "child_controller_healthy L reconcile skip enabled fresh (\<lambda>_. State_Monad.return ())
    (\<lambda>w _. mutate w) oapi oview capi cview healthy"
proof -
  from assms(1) have "owner_child_stores oapi oview capi cview (lib_IsNotFound L)"
    by (rule healthy_stores.axioms)
  then show ?thesis
    using assms(1) pure_run [OF _ assms(2)]
    by (intro child_controller_healthy.intro child_controller_healthy_axioms.intro) simp_all
qed

text \<open>
  The contract.  Whatever fails, the owner store is as before and the child store changes at
  the one key of the child.
\<close>

lemma pure_frame:
  assumes "owner_child_stores oapi oview capi cview (lib_IsNotFound L)" and "runtime_lib L"
    and "run_state (reconcile oapi capi req) s = (r, s')"
  shows "oview s' = oview s"
    and "(\<And>w. oview s req = Some w \<Longrightarrow> k \<noteq> key_of (fresh w)) \<Longrightarrow> cview s' k = cview s k"
proof -
  note R = pure_run [OF assms(1,2)]
  show "oview s' = oview s"
    using child_controller_run.owner_preserved [OF R] assms(3) by (rule preservesD)
  show "cview s' k = cview s k" if "\<And>w. oview s req = Some w \<Longrightarrow> k \<noteq> key_of (fresh w)"
    using R assms(3) that by (rule child_controller_run.child_frame_key)
qed

text \<open>A successful run for an enabled owner stored the callback's result.\<close>

lemma pure_success:
  assumes "owner_child_stores oapi oview capi cview (lib_IsNotFound L)" and "runtime_lib L"
    and "run_state (reconcile oapi capi req) s = (None, s')"
    and "oview s req = Some w" and "\<not> skip w" and "enabled w"
  obtains y where "mutate w (current (cview s) (key_of (fresh w)) (fresh w)) = Inr y"
    "key_of y = key_of (fresh w)" "cview s' = (cview s)(key_of (fresh w) \<mapsto> y)"
  by (rule child_controller_run.enabled_success [OF pure_run [OF assms(1,2)] assms(3-)]) blast

lemma pure_outcome:
  assumes "owner_child_stores oapi oview capi cview (lib_IsNotFound L)" and "runtime_lib L"
    and "run_state (reconcile oapi capi req) s = (r, s')"
  obtains (same) "cview s' = cview s"
  | (removed) w where "oview s req = Some w" "\<not> enabled w"
      "cview s' = (cview s)(key_of (fresh w) := None)"
  | (stored) w x y where "oview s req = Some w" "enabled w" "mutate w x = Inr y"
      "cview s' = (cview s)(key_of (fresh w) \<mapsto> y)"
  by (rule child_controller_run.child_outcome [OF pure_run [OF assms(1,2)] assms(3)]) blast+

lemma pure_invariant:
  assumes "owner_child_stores oapi oview capi cview (lib_IsNotFound L)" and "runtime_lib L"
    and "run_state (reconcile oapi capi req) s = (r, s')"
    and "all_stored (cview s) P"
    and "\<And>w x y. oview s req = Some w \<Longrightarrow> mutate w x = Inr y \<Longrightarrow>
           key_of y = key_of (fresh w) \<Longrightarrow> P y"
  shows "all_stored (cview s') P"
  using pure_run [OF assms(1,2)] assms(3,4)
  by (rule child_controller_run.child_invariant) (rule assms(5))

lemma pure_kept:
  assumes "owner_child_stores oapi oview capi cview (lib_IsNotFound L)" and "runtime_lib L"
    and "run_state (reconcile oapi capi req) s = (r, s')"
    and "\<And>w. oview s req = Some w \<Longrightarrow> enabled w" and "cview s k \<noteq> None"
  shows "cview s' k \<noteq> None"
  using child_controller_run.child_kept [OF pure_run [OF assms(1,2)] assms(3)] assms(4,5) by blast

text \<open>Without faults the run is the abstract step, and a second run changes nothing.\<close>

lemma pure_refines:
  assumes "healthy_stores oapi oview capi cview (lib_IsNotFound L) healthy" and "runtime_lib L"
    and "healthy s" and "run_state (reconcile oapi capi req) s = (r, s')"
  shows "healthy s' \<and> oview s' = oview s \<and>
    (r = None, cview s') = child_spec skip enabled fresh mutate (oview s req) (cview s)"
  using child_controller_healthy.refines_spec [OF pure_healthy [OF assms(1,2)] assms(3,4)]
  by simp

lemma pure_idempotent:
  assumes "healthy_stores oapi oview capi cview (lib_IsNotFound L) healthy" and "runtime_lib L"
    and "healthy s" and "run_state (reconcile oapi capi req) s = (r, s')"
    and "run_state (reconcile oapi capi req) s' = (r', s'')"
    and idem: "\<And>w x y. oview s req = Some w \<Longrightarrow> mutate w x = Inr y \<Longrightarrow> mutate w y = Inr y"
  shows "cview s'' = cview s' \<and> (r' = None \<longleftrightarrow> r = None)"
proof -
  let ?step = "child_spec skip enabled fresh mutate (oview s req)"
  note one = pure_refines [OF assms(1-4)]
  then have two: "(r' = None, cview s'') = ?step (cview s')"
    using pure_refines [OF assms(1,2) _ assms(5)] by simp
  have "?step (snd (?step (cview s))) = ?step (cview s)"
    using idem by (rule child_spec_idem)
  moreover have "snd (?step (cview s)) = cview s'"
    using one by (metis snd_conv)
  ultimately have "?step (cview s') = (r = None, cview s')"
    using one by simp
  with two show ?thesis by simp
qed

text \<open>A run settles its own child, and a settled child is left alone.\<close>

lemma pure_settles:
  assumes "healthy_stores oapi oview capi cview (lib_IsNotFound L) healthy" and "runtime_lib L"
    and "healthy s" and "run_state (reconcile oapi capi req) s = (r, s')"
    and idem: "\<And>w x y. oview s req = Some w \<Longrightarrow> mutate w x = Inr y \<Longrightarrow> mutate w y = Inr y"
  shows "healthy s' \<and> child_settled skip enabled fresh mutate (oview s' req) (cview s')"
proof -
  note one = pure_refines [OF assms(1-4)]
  then have "(r = None, cview s') = child_spec skip enabled fresh mutate (oview s req) (cview s)"
    by blast
  from child_spec_settles [OF this idem] one show ?thesis by simp
qed

lemma pure_settled_stable:
  assumes "healthy_stores oapi oview capi cview (lib_IsNotFound L) healthy" and "runtime_lib L"
    and "healthy s" and "run_state (reconcile oapi capi req) s = (r, s')"
    and "child_settled skip enabled fresh mutate (oview s req) (cview s)"
  shows "cview s' = cview s"
  using pure_refines [OF assms(1-4)] child_settledD [OF assms(5)] by blast

text \<open>
  Both facts together, for owners (\<open>plain\<close>) on which the callback is idempotent.
\<close>

lemma pure_contract:
  assumes "healthy_stores oapi oview capi cview (lib_IsNotFound L) healthy" and "runtime_lib L"
    and "healthy s" and "run_state (reconcile oapi capi req) s = (r, s')"
    and "run_state (reconcile oapi capi req) s' = (r', s'')"
    and idem: "\<And>w x y. plain w \<Longrightarrow> mutate w x = Inr y \<Longrightarrow> mutate w y = Inr y"
  shows "(r = None, cview s') = child_spec skip enabled fresh mutate (oview s req) (cview s) \<and>
    oview s' = oview s \<and>
    ((\<forall>w. oview s req = Some w \<longrightarrow> plain w) \<longrightarrow> cview s'' = cview s' \<and> (r' = None \<longleftrightarrow> r = None))"
  using pure_refines [OF assms(1-4)] pure_idempotent [OF assms(1-5)] idem by blast

end

end
