(* ===== verification/Workload_Controllers.thy ===== *)
theory Workload_Controllers
  imports Child_Controller Sample_Cluster
begin

text \<open>
  \<^verbatim>\<open>internal/controller/workload\<close>: the five controllers that split a Workload into its
  capability resources, one file each.  They differ in the kind, the name and the part of the
  Workload they copy; every handler is translated on its own, and the locale
  \<open>workload_child\<close> carries what they have in common.
\<close>

definition workload_unplaced :: "Workload \<Rightarrow> bool" where
  "workload_unplaced w \<longleftrightarrow> ref_Namespace (ws_TargetRef (obj_Spec w)) = ''''"

section \<open>compute\_controller.go\<close>

text \<open>\<^verbatim>\<open>targetCompute.Spec = workload.Spec.Compute\<close>, then \<^verbatim>\<open>.Spec.TargetRef = workload.Spec.TargetRef\<close>.\<close>

definition workload_compute_spec :: "WorkloadSpec \<Rightarrow> ComputeSpec" where
  "workload_compute_spec ws = (ws_Compute ws)\<lparr>cs_TargetRef := ws_TargetRef ws\<rparr>"

definition workload_compute_mutate :: "lib \<Rightarrow> Workload \<Rightarrow> Compute \<Rightarrow> go_error + Compute" where
  "workload_compute_mutate L workload targetCompute =
     (case set_owner L ''Workload'' workload
             (targetCompute\<lparr>obj_Spec := workload_compute_spec (obj_Spec workload)\<rparr>) of
        Inl err \<Rightarrow> Inl (wrap ''failed to set controller reference on compute: %w'' [] err)
      | Inr targetCompute \<Rightarrow> Inr targetCompute)"

definition workload_compute_name :: "Workload \<Rightarrow> string" where
  "workload_compute_name workload = dashed (om_Name (obj_Meta workload)) ''compute''"

definition target_Compute :: "Workload \<Rightarrow> Compute" where
  "target_Compute workload =
     named_object (workload_compute_name workload) (ref_Namespace (ws_TargetRef (obj_Spec workload)))
       zero_ComputeSpec \<lparr>compute_Conditions = []\<rparr>"

definition WorkloadComputeReconciler_Reconcile ::
    "lib \<Rightarrow> ('s, Workload) api \<Rightarrow> ('s, Compute) api \<Rightarrow> key \<Rightarrow> ('s, go_error option) state" where
  "WorkloadComputeReconciler_Reconcile L workloads computes req = do {
     r \<leftarrow> api_get workloads req;
     (case r of
        Inl err \<Rightarrow> State_Monad.return (lib_IgnoreNotFound L err)
      | Inr workload \<Rightarrow>
          let targetNamespace = ref_Namespace (ws_TargetRef (obj_Spec workload))
          in if targetNamespace = '''' then State_Monad.return None
             else if ref_Resource (cs_TargetRef (ws_Compute (obj_Spec workload))) = '''' then do {
               g \<leftarrow> api_get computes (targetNamespace, workload_compute_name workload);
               (case g of
                  Inl _ \<Rightarrow> State_Monad.return None
                | Inr compute \<Rightarrow> do {
                    err \<leftarrow> api_delete computes compute;
                    (case err of Some err \<Rightarrow> State_Monad.return (Some err)
                     | None \<Rightarrow> State_Monad.return None)
                  })
             }
             else do {
               err \<leftarrow> api_createOrUpdate computes (target_Compute workload) (workload_compute_mutate L workload);
               (case err of Some err \<Rightarrow> State_Monad.return (Some err)
                | None \<Rightarrow> State_Monad.return None)
             })
   }"

definition WorkloadComputeReconciler_SetupWithManager :: controller_setup where
  "WorkloadComputeReconciler_SetupWithManager =
     \<lparr>setup_For = ''Workload'', setup_Owns = [''Compute''],
      setup_Watches = [], setup_Named = ''workload-compute''\<rparr>"

definition workload_wants_compute :: "Workload \<Rightarrow> bool" where
  "workload_wants_compute w \<longleftrightarrow> ref_Resource (cs_TargetRef (ws_Compute (obj_Spec w))) \<noteq> ''''"

section \<open>storage\_controller.go\<close>

text \<open>\<^verbatim>\<open>targetStorage.Spec = workload.Spec.Storage\<close>, then \<^verbatim>\<open>.Spec.TargetRef = workload.Spec.TargetRef\<close>.\<close>

definition workload_storage_spec :: "WorkloadSpec \<Rightarrow> StorageSpec" where
  "workload_storage_spec ws = (ws_Storage ws)\<lparr>ss_TargetRef := ws_TargetRef ws\<rparr>"

definition workload_storage_mutate :: "lib \<Rightarrow> Workload \<Rightarrow> Storage \<Rightarrow> go_error + Storage" where
  "workload_storage_mutate L workload targetStorage =
     (case set_owner L ''Workload'' workload
             (targetStorage\<lparr>obj_Spec := workload_storage_spec (obj_Spec workload)\<rparr>) of
        Inl err \<Rightarrow> Inl (wrap ''failed to set controller reference on storage: %w'' [] err)
      | Inr targetStorage \<Rightarrow> Inr targetStorage)"

definition workload_storage_name :: "Workload \<Rightarrow> string" where
  "workload_storage_name workload = dashed (om_Name (obj_Meta workload)) ''storage''"

definition target_Storage :: "Workload \<Rightarrow> Storage" where
  "target_Storage workload =
     named_object (workload_storage_name workload) (ref_Namespace (ws_TargetRef (obj_Spec workload)))
       zero_StorageSpec \<lparr>storage_Conditions = []\<rparr>"

definition WorkloadStorageReconciler_Reconcile ::
    "lib \<Rightarrow> ('s, Workload) api \<Rightarrow> ('s, Storage) api \<Rightarrow> key \<Rightarrow> ('s, go_error option) state" where
  "WorkloadStorageReconciler_Reconcile L workloads storages req = do {
     r \<leftarrow> api_get workloads req;
     (case r of
        Inl err \<Rightarrow> State_Monad.return (lib_IgnoreNotFound L err)
      | Inr workload \<Rightarrow>
          let targetNamespace = ref_Namespace (ws_TargetRef (obj_Spec workload))
          in if targetNamespace = '''' then State_Monad.return None
             else if ref_Resource (ss_TargetRef (ws_Storage (obj_Spec workload))) = '''' then do {
               g \<leftarrow> api_get storages (targetNamespace, workload_storage_name workload);
               (case g of
                  Inl _ \<Rightarrow> State_Monad.return None
                | Inr storage \<Rightarrow> do {
                    err \<leftarrow> api_delete storages storage;
                    (case err of Some err \<Rightarrow> State_Monad.return (Some err)
                     | None \<Rightarrow> State_Monad.return None)
                  })
             }
             else do {
               err \<leftarrow> api_createOrUpdate storages (target_Storage workload) (workload_storage_mutate L workload);
               (case err of Some err \<Rightarrow> State_Monad.return (Some err)
                | None \<Rightarrow> State_Monad.return None)
             })
   }"

definition WorkloadStorageReconciler_SetupWithManager :: controller_setup where
  "WorkloadStorageReconciler_SetupWithManager =
     \<lparr>setup_For = ''Workload'', setup_Owns = [''Storage''],
      setup_Watches = [], setup_Named = ''workload-storage''\<rparr>"

definition workload_wants_storage :: "Workload \<Rightarrow> bool" where
  "workload_wants_storage w \<longleftrightarrow> ref_Resource (ss_TargetRef (ws_Storage (obj_Spec w))) \<noteq> ''''"

section \<open>networking\_controller.go\<close>

text \<open>\<^verbatim>\<open>targetNetworking.Spec = workload.Spec.Networking\<close>, then \<^verbatim>\<open>.Spec.TargetRef = workload.Spec.TargetRef\<close>.\<close>

definition workload_networking_spec :: "WorkloadSpec \<Rightarrow> NetworkingSpec" where
  "workload_networking_spec ws = (ws_Networking ws)\<lparr>ns_TargetRef := ws_TargetRef ws\<rparr>"

definition workload_networking_mutate :: "lib \<Rightarrow> Workload \<Rightarrow> Networking \<Rightarrow> go_error + Networking" where
  "workload_networking_mutate L workload targetNetworking =
     (case set_owner L ''Workload'' workload
             (targetNetworking\<lparr>obj_Spec := workload_networking_spec (obj_Spec workload)\<rparr>) of
        Inl err \<Rightarrow> Inl (wrap ''failed to set controller reference on networking: %w'' [] err)
      | Inr targetNetworking \<Rightarrow> Inr targetNetworking)"

definition workload_networking_name :: "Workload \<Rightarrow> string" where
  "workload_networking_name workload = dashed (om_Name (obj_Meta workload)) ''networking''"

definition target_Networking :: "Workload \<Rightarrow> Networking" where
  "target_Networking workload =
     named_object (workload_networking_name workload) (ref_Namespace (ws_TargetRef (obj_Spec workload)))
       zero_NetworkingSpec \<lparr>networking_Conditions = []\<rparr>"

definition WorkloadNetworkingReconciler_Reconcile ::
    "lib \<Rightarrow> ('s, Workload) api \<Rightarrow> ('s, Networking) api \<Rightarrow> key \<Rightarrow> ('s, go_error option) state" where
  "WorkloadNetworkingReconciler_Reconcile L workloads networkings req = do {
     r \<leftarrow> api_get workloads req;
     (case r of
        Inl err \<Rightarrow> State_Monad.return (lib_IgnoreNotFound L err)
      | Inr workload \<Rightarrow>
          let targetNamespace = ref_Namespace (ws_TargetRef (obj_Spec workload))
          in if targetNamespace = '''' then State_Monad.return None
             else if ref_Resource (ns_TargetRef (ws_Networking (obj_Spec workload))) = '''' then do {
               g \<leftarrow> api_get networkings (targetNamespace, workload_networking_name workload);
               (case g of
                  Inl _ \<Rightarrow> State_Monad.return None
                | Inr networking \<Rightarrow> do {
                    err \<leftarrow> api_delete networkings networking;
                    (case err of Some err \<Rightarrow> State_Monad.return (Some err)
                     | None \<Rightarrow> State_Monad.return None)
                  })
             }
             else do {
               err \<leftarrow> api_createOrUpdate networkings (target_Networking workload) (workload_networking_mutate L workload);
               (case err of Some err \<Rightarrow> State_Monad.return (Some err)
                | None \<Rightarrow> State_Monad.return None)
             })
   }"

definition WorkloadNetworkingReconciler_SetupWithManager :: controller_setup where
  "WorkloadNetworkingReconciler_SetupWithManager =
     \<lparr>setup_For = ''Workload'', setup_Owns = [''Networking''],
      setup_Watches = [], setup_Named = ''workload-networking''\<rparr>"

definition workload_wants_networking :: "Workload \<Rightarrow> bool" where
  "workload_wants_networking w \<longleftrightarrow> ref_Resource (ns_TargetRef (ws_Networking (obj_Spec w))) \<noteq> ''''"

section \<open>observability\_controller.go\<close>

text \<open>\<^verbatim>\<open>targetObservability.Spec = workload.Spec.Observability\<close>, then \<^verbatim>\<open>.Spec.TargetRef = workload.Spec.TargetRef\<close>.\<close>

definition workload_observability_spec :: "WorkloadSpec \<Rightarrow> ObservabilitySpec" where
  "workload_observability_spec ws = (ws_Observability ws)\<lparr>os_TargetRef := ws_TargetRef ws\<rparr>"

definition workload_observability_mutate :: "lib \<Rightarrow> Workload \<Rightarrow> Observability \<Rightarrow> go_error + Observability" where
  "workload_observability_mutate L workload targetObservability =
     (case set_owner L ''Workload'' workload
             (targetObservability\<lparr>obj_Spec := workload_observability_spec (obj_Spec workload)\<rparr>) of
        Inl err \<Rightarrow> Inl (wrap ''failed to set controller reference on observability: %w'' [] err)
      | Inr targetObservability \<Rightarrow> Inr targetObservability)"

definition workload_observability_name :: "Workload \<Rightarrow> string" where
  "workload_observability_name workload = dashed (om_Name (obj_Meta workload)) ''observability''"

definition target_Observability :: "Workload \<Rightarrow> Observability" where
  "target_Observability workload =
     named_object (workload_observability_name workload) (ref_Namespace (ws_TargetRef (obj_Spec workload)))
       zero_ObservabilitySpec \<lparr>observability_Conditions = []\<rparr>"

definition WorkloadObservabilityReconciler_Reconcile ::
    "lib \<Rightarrow> ('s, Workload) api \<Rightarrow> ('s, Observability) api \<Rightarrow> key \<Rightarrow> ('s, go_error option) state" where
  "WorkloadObservabilityReconciler_Reconcile L workloads observabilities req = do {
     r \<leftarrow> api_get workloads req;
     (case r of
        Inl err \<Rightarrow> State_Monad.return (lib_IgnoreNotFound L err)
      | Inr workload \<Rightarrow>
          let targetNamespace = ref_Namespace (ws_TargetRef (obj_Spec workload))
          in if targetNamespace = '''' then State_Monad.return None
             else if ref_Resource (os_TargetRef (ws_Observability (obj_Spec workload))) = '''' then do {
               g \<leftarrow> api_get observabilities (targetNamespace, workload_observability_name workload);
               (case g of
                  Inl _ \<Rightarrow> State_Monad.return None
                | Inr observability \<Rightarrow> do {
                    err \<leftarrow> api_delete observabilities observability;
                    (case err of Some err \<Rightarrow> State_Monad.return (Some err)
                     | None \<Rightarrow> State_Monad.return None)
                  })
             }
             else do {
               err \<leftarrow> api_createOrUpdate observabilities (target_Observability workload) (workload_observability_mutate L workload);
               (case err of Some err \<Rightarrow> State_Monad.return (Some err)
                | None \<Rightarrow> State_Monad.return None)
             })
   }"

definition WorkloadObservabilityReconciler_SetupWithManager :: controller_setup where
  "WorkloadObservabilityReconciler_SetupWithManager =
     \<lparr>setup_For = ''Workload'', setup_Owns = [''Observability''],
      setup_Watches = [], setup_Named = ''workload-observability''\<rparr>"

definition workload_wants_observability :: "Workload \<Rightarrow> bool" where
  "workload_wants_observability w \<longleftrightarrow> ref_Resource (os_TargetRef (ws_Observability (obj_Spec w))) \<noteq> ''''"

section \<open>security\_controller.go\<close>

text \<open>\<^verbatim>\<open>targetSecurity.Spec = workload.Spec.Security\<close>, then \<^verbatim>\<open>.Spec.TargetRef = workload.Spec.TargetRef\<close>.\<close>

definition workload_security_spec :: "WorkloadSpec \<Rightarrow> SecuritySpec" where
  "workload_security_spec ws = (ws_Security ws)\<lparr>sec_TargetRef := ws_TargetRef ws\<rparr>"

definition workload_security_mutate :: "lib \<Rightarrow> Workload \<Rightarrow> Security \<Rightarrow> go_error + Security" where
  "workload_security_mutate L workload targetSecurity =
     (case set_owner L ''Workload'' workload
             (targetSecurity\<lparr>obj_Spec := workload_security_spec (obj_Spec workload)\<rparr>) of
        Inl err \<Rightarrow> Inl (wrap ''failed to set controller reference on security: %w'' [] err)
      | Inr targetSecurity \<Rightarrow> Inr targetSecurity)"

definition workload_security_name :: "Workload \<Rightarrow> string" where
  "workload_security_name workload = dashed (om_Name (obj_Meta workload)) ''security''"

definition target_Security :: "Workload \<Rightarrow> Security" where
  "target_Security workload =
     named_object (workload_security_name workload) (ref_Namespace (ws_TargetRef (obj_Spec workload)))
       zero_SecuritySpec \<lparr>security_Conditions = []\<rparr>"

definition WorkloadSecurityReconciler_Reconcile ::
    "lib \<Rightarrow> ('s, Workload) api \<Rightarrow> ('s, Security) api \<Rightarrow> key \<Rightarrow> ('s, go_error option) state" where
  "WorkloadSecurityReconciler_Reconcile L workloads securities req = do {
     r \<leftarrow> api_get workloads req;
     (case r of
        Inl err \<Rightarrow> State_Monad.return (lib_IgnoreNotFound L err)
      | Inr workload \<Rightarrow>
          let targetNamespace = ref_Namespace (ws_TargetRef (obj_Spec workload))
          in if targetNamespace = '''' then State_Monad.return None
             else if ref_Resource (sec_TargetRef (ws_Security (obj_Spec workload))) = '''' then do {
               g \<leftarrow> api_get securities (targetNamespace, workload_security_name workload);
               (case g of
                  Inl _ \<Rightarrow> State_Monad.return None
                | Inr security \<Rightarrow> do {
                    err \<leftarrow> api_delete securities security;
                    (case err of Some err \<Rightarrow> State_Monad.return (Some err)
                     | None \<Rightarrow> State_Monad.return None)
                  })
             }
             else do {
               err \<leftarrow> api_createOrUpdate securities (target_Security workload) (workload_security_mutate L workload);
               (case err of Some err \<Rightarrow> State_Monad.return (Some err)
                | None \<Rightarrow> State_Monad.return None)
             })
   }"

definition WorkloadSecurityReconciler_SetupWithManager :: controller_setup where
  "WorkloadSecurityReconciler_SetupWithManager =
     \<lparr>setup_For = ''Workload'', setup_Owns = [''Security''],
      setup_Watches = [], setup_Named = ''workload-security''\<rparr>"

definition workload_wants_security :: "Workload \<Rightarrow> bool" where
  "workload_wants_security w \<longleftrightarrow> ref_Resource (sec_TargetRef (ws_Security (obj_Spec w))) \<noteq> ''''"

section \<open>What the five have in common\<close>

definition mirrored ::
    "(key \<Rightarrow> ('sp, 'st) object option) \<Rightarrow> (key \<Rightarrow> ('sp, 'st) object option) \<Rightarrow> key \<Rightarrow> 'sp \<Rightarrow>
     Workload \<Rightarrow> bool" where
  "mirrored v v' k spec w \<longleftrightarrow>
     (\<exists>y. v' = v(k \<mapsto> y) \<and> obj_Spec y = spec \<and>
          (''Workload'', om_Name (obj_Meta w)) \<in> set (controllers_of (obj_Meta y)))"

locale workload_child =
  pure_child_controller L reconcile workload_unplaced wanted fresh mutate
  for L
    and reconcile :: "('s, Workload) api \<Rightarrow> ('s, ('cp, 'cq) object) api \<Rightarrow> key \<Rightarrow>
                      ('s, go_error option) state"
    and wanted and fresh :: "Workload \<Rightarrow> ('cp, 'cq) object" and mutate +
  fixes part :: "WorkloadSpec \<Rightarrow> 'cp" and suffix :: string and msg :: string
  assumes fresh_key:
      "key_of (fresh w) = (ref_Namespace (ws_TargetRef (obj_Spec w)), dashed (om_Name (obj_Meta w)) suffix)"
    and mutate_part:
      "mutate w x =
         (case set_owner L ''Workload'' w (x\<lparr>obj_Spec := part (obj_Spec w)\<rparr>) of
            Inl err \<Rightarrow> Inl (wrap msg [] err) | Inr y \<Rightarrow> Inr y)"
begin

lemma mutate_InrE:
  assumes "mutate w x = Inr y"
  shows "set_owner L ''Workload'' w (x\<lparr>obj_Spec := part (obj_Spec w)\<rparr>) = Inr y"
  using assms by (simp add: mutate_part split: sum.splits)

lemma mutate_idem:
  assumes "runtime_lib L" and "mutate w x = Inr y"
  shows "mutate w y = Inr y"
  using runtime_lib.set_owner_fill_idem [OF assms(1) mutate_InrE [OF assms(2)]]
  by (simp add: mutate_part)

lemma child_mirrored:
  assumes "owner_child_stores oapi oview capi cview (lib_IsNotFound L)" and "runtime_lib L"
    and "run_state (reconcile oapi capi req) s = (None, s')"
    and "oview s req = Some w"
    and "ref_Namespace (ws_TargetRef (obj_Spec w)) \<noteq> ''''" and "wanted w"
  shows "mirrored (cview s) (cview s')
    (ref_Namespace (ws_TargetRef (obj_Spec w)), dashed (om_Name (obj_Meta w)) suffix)
    (part (obj_Spec w)) w"
proof -
  have "\<not> workload_unplaced w" using assms(5) by (simp add: workload_unplaced_def)
  from pure_success [OF assms(1-4) this assms(6)] obtain x y
    where m: "mutate w x = Inr y" and st: "cview s' = (cview s)(key_of (fresh w) \<mapsto> y)" by blast
  from st runtime_lib.set_owner_InrD(2,5) [OF assms(2) mutate_InrE [OF m]]
  show ?thesis unfolding mirrored_def by (intro exI [of _ y]) (simp add: fresh_key)
qed

text \<open>A property of the parts of all Workloads carries over to the specs of the children.\<close>

lemma part_invariant:
  assumes "owner_child_stores oapi oview capi cview (lib_IsNotFound L)" and rt: "runtime_lib L"
    and "run_state (reconcile oapi capi req) s = (r, s')"
    and "all_stored (cview s) (\<lambda>y. Q (obj_Spec y))"
    and parts: "all_stored (oview s) (\<lambda>w. Q (part (obj_Spec w)))"
  shows "all_stored (cview s') (\<lambda>y. Q (obj_Spec y))"
  using assms(1-4)
proof (rule pure_invariant)
  fix w x y
  assume w: "oview s req = Some w" and m: "mutate w x = Inr y"
  from runtime_lib.set_owner_InrD(2) [OF rt mutate_InrE [OF m]] all_storedD [OF parts w]
  show "Q (obj_Spec y)" by simp
qed

text \<open>Only the namespace the Workload names now is touched.\<close>

lemma other_namespace_untouched:
  assumes "owner_child_stores oapi oview capi cview (lib_IsNotFound L)" and "runtime_lib L"
    and "run_state (reconcile oapi capi req) s = (r, s')"
    and "oview s req = Some w" and "n \<noteq> ref_Namespace (ws_TargetRef (obj_Spec w))"
  shows "cview s' (n, m) = cview s (n, m)"
  by (rule pure_frame(2) [OF assms(1-3)]) (use assms(4,5) in \<open>simp add: fresh_key\<close>)

lemma child_contract:
  assumes "healthy_stores oapi oview capi cview (lib_IsNotFound L) healthy" and "runtime_lib L"
    and "healthy s" and "run_state (reconcile oapi capi req) s = (r, s')"
    and "run_state (reconcile oapi capi req) s' = (r', s'')"
  shows "(r = None, cview s') =
      child_spec workload_unplaced wanted fresh mutate (oview s req) (cview s) \<and>
    cview s'' = cview s' \<and> (r' = None \<longleftrightarrow> r = None)"
proof -
  have "cview s'' = cview s' \<and> (r' = None \<longleftrightarrow> r = None)"
    using assms by (rule pure_idempotent) (rule mutate_idem [OF assms(2)])
  with pure_refines [OF assms(1-4)] show ?thesis by blast
qed

text \<open>A part that names no target of its own is not wanted, so its child is taken away.\<close>

lemma unwanted_part_removed:
  assumes "healthy_stores oapi oview capi cview (lib_IsNotFound L) healthy" and "runtime_lib L"
    and "healthy s" and "run_state (reconcile oapi capi req) s = (r, s')"
    and "oview s req = Some w" and "ref_Namespace (ws_TargetRef (obj_Spec w)) \<noteq> ''''" and "\<not> wanted w"
  shows "r = None \<and> cview s' = (cview s)
    ((ref_Namespace (ws_TargetRef (obj_Spec w)), dashed (om_Name (obj_Meta w)) suffix) := None)"
  using pure_refines [OF assms(1-4)] assms(5-7)
  by (simp add: child_spec_def workload_unplaced_def fresh_key)

end

interpretation workload_compute: workload_child L "WorkloadComputeReconciler_Reconcile L"
    workload_wants_compute target_Compute "workload_compute_mutate L" workload_compute_spec "''compute''"
    "''failed to set controller reference on compute: %w''"
  by unfold_locales
    (simp_all add: WorkloadComputeReconciler_Reconcile_def child_reconcile_def workload_unplaced_def
      workload_wants_compute_def target_Compute_def workload_compute_name_def workload_compute_mutate_def
      Let_def cong: sum.case_cong if_cong)

interpretation mem_workload_compute: child_controller_healthy mem_lib
    "WorkloadComputeReconciler_Reconcile mem_lib" workload_unplaced workload_wants_compute target_Compute
    "\<lambda>_. State_Monad.return ()" "\<lambda>w _. workload_compute_mutate mem_lib w" workloads_api workloads_view
    computes_api computes_view mem_healthy
  by (rule workload_compute.pure_healthy [OF workloads_computes_healthy mem_lib.runtime_lib_axioms,
      unfolded mem_lib_simps])

interpretation workload_storage: workload_child L "WorkloadStorageReconciler_Reconcile L"
    workload_wants_storage target_Storage "workload_storage_mutate L" workload_storage_spec "''storage''"
    "''failed to set controller reference on storage: %w''"
  by unfold_locales
    (simp_all add: WorkloadStorageReconciler_Reconcile_def child_reconcile_def workload_unplaced_def
      workload_wants_storage_def target_Storage_def workload_storage_name_def workload_storage_mutate_def
      Let_def cong: sum.case_cong if_cong)

interpretation mem_workload_storage: child_controller_healthy mem_lib
    "WorkloadStorageReconciler_Reconcile mem_lib" workload_unplaced workload_wants_storage target_Storage
    "\<lambda>_. State_Monad.return ()" "\<lambda>w _. workload_storage_mutate mem_lib w" workloads_api workloads_view
    storages_api storages_view mem_healthy
  by (rule workload_storage.pure_healthy [OF workloads_storages_healthy mem_lib.runtime_lib_axioms,
      unfolded mem_lib_simps])

interpretation workload_networking: workload_child L "WorkloadNetworkingReconciler_Reconcile L"
    workload_wants_networking target_Networking "workload_networking_mutate L" workload_networking_spec "''networking''"
    "''failed to set controller reference on networking: %w''"
  by unfold_locales
    (simp_all add: WorkloadNetworkingReconciler_Reconcile_def child_reconcile_def workload_unplaced_def
      workload_wants_networking_def target_Networking_def workload_networking_name_def workload_networking_mutate_def
      Let_def cong: sum.case_cong if_cong)

interpretation mem_workload_networking: child_controller_healthy mem_lib
    "WorkloadNetworkingReconciler_Reconcile mem_lib" workload_unplaced workload_wants_networking target_Networking
    "\<lambda>_. State_Monad.return ()" "\<lambda>w _. workload_networking_mutate mem_lib w" workloads_api workloads_view
    networkings_api networkings_view mem_healthy
  by (rule workload_networking.pure_healthy [OF workloads_networkings_healthy mem_lib.runtime_lib_axioms,
      unfolded mem_lib_simps])

interpretation workload_observability: workload_child L "WorkloadObservabilityReconciler_Reconcile L"
    workload_wants_observability target_Observability "workload_observability_mutate L" workload_observability_spec "''observability''"
    "''failed to set controller reference on observability: %w''"
  by unfold_locales
    (simp_all add: WorkloadObservabilityReconciler_Reconcile_def child_reconcile_def workload_unplaced_def
      workload_wants_observability_def target_Observability_def workload_observability_name_def workload_observability_mutate_def
      Let_def cong: sum.case_cong if_cong)

interpretation mem_workload_observability: child_controller_healthy mem_lib
    "WorkloadObservabilityReconciler_Reconcile mem_lib" workload_unplaced workload_wants_observability target_Observability
    "\<lambda>_. State_Monad.return ()" "\<lambda>w _. workload_observability_mutate mem_lib w" workloads_api workloads_view
    observabilities_api observabilities_view mem_healthy
  by (rule workload_observability.pure_healthy [OF workloads_observabilities_healthy mem_lib.runtime_lib_axioms,
      unfolded mem_lib_simps])

interpretation workload_security: workload_child L "WorkloadSecurityReconciler_Reconcile L"
    workload_wants_security target_Security "workload_security_mutate L" workload_security_spec "''security''"
    "''failed to set controller reference on security: %w''"
  by unfold_locales
    (simp_all add: WorkloadSecurityReconciler_Reconcile_def child_reconcile_def workload_unplaced_def
      workload_wants_security_def target_Security_def workload_security_name_def workload_security_mutate_def
      Let_def cong: sum.case_cong if_cong)

interpretation mem_workload_security: child_controller_healthy mem_lib
    "WorkloadSecurityReconciler_Reconcile mem_lib" workload_unplaced workload_wants_security target_Security
    "\<lambda>_. State_Monad.return ()" "\<lambda>w _. workload_security_mutate mem_lib w" workloads_api workloads_view
    securities_api securities_view mem_healthy
  by (rule workload_security.pure_healthy [OF workloads_securities_healthy mem_lib.runtime_lib_axioms,
      unfolded mem_lib_simps])

section \<open>Correctness\<close>

text \<open>
  C10: When the five controllers report success for a Workload that names a target namespace
  and a target in each of its parts, each capability resource is stored in that namespace
  under the name of the Workload and the capability, its spec is the corresponding part of
  the Workload with the target reference replaced by the Workload's own, and the Workload is
  its controller.
\<close>

theorem workload_mirrored:
  assumes "runtime_lib L"
    and "owner_child_stores wapi wview capi cview (lib_IsNotFound L)"
    and "owner_child_stores wapi wview tapi tview (lib_IsNotFound L)"
    and "owner_child_stores wapi wview napi nview (lib_IsNotFound L)"
    and "owner_child_stores wapi wview bapi bview (lib_IsNotFound L)"
    and "owner_child_stores wapi wview eapi eview (lib_IsNotFound L)"
    and "run_state (WorkloadComputeReconciler_Reconcile L wapi capi req) s = (None, cs)"
    and "run_state (WorkloadStorageReconciler_Reconcile L wapi tapi req) s = (None, ts)"
    and "run_state (WorkloadNetworkingReconciler_Reconcile L wapi napi req) s = (None, ns)"
    and "run_state (WorkloadObservabilityReconciler_Reconcile L wapi bapi req) s = (None, bs)"
    and "run_state (WorkloadSecurityReconciler_Reconcile L wapi eapi req) s = (None, es)"
    and "wview s req = Some w" and "place = ref_Namespace (ws_TargetRef (obj_Spec w))" and "place \<noteq> ''''"
    and "ref_Resource (cs_TargetRef (ws_Compute (obj_Spec w))) \<noteq> ''''"
    and "ref_Resource (ss_TargetRef (ws_Storage (obj_Spec w))) \<noteq> ''''"
    and "ref_Resource (ns_TargetRef (ws_Networking (obj_Spec w))) \<noteq> ''''"
    and "ref_Resource (os_TargetRef (ws_Observability (obj_Spec w))) \<noteq> ''''"
    and "ref_Resource (sec_TargetRef (ws_Security (obj_Spec w))) \<noteq> ''''"
  shows "mirrored (cview s) (cview cs) (place, dashed (om_Name (obj_Meta w)) ''compute'')
      ((ws_Compute (obj_Spec w))\<lparr>cs_TargetRef := ws_TargetRef (obj_Spec w)\<rparr>) w \<and>
    mirrored (tview s) (tview ts) (place, dashed (om_Name (obj_Meta w)) ''storage'')
      ((ws_Storage (obj_Spec w))\<lparr>ss_TargetRef := ws_TargetRef (obj_Spec w)\<rparr>) w \<and>
    mirrored (nview s) (nview ns) (place, dashed (om_Name (obj_Meta w)) ''networking'')
      ((ws_Networking (obj_Spec w))\<lparr>ns_TargetRef := ws_TargetRef (obj_Spec w)\<rparr>) w \<and>
    mirrored (bview s) (bview bs) (place, dashed (om_Name (obj_Meta w)) ''observability'')
      ((ws_Observability (obj_Spec w))\<lparr>os_TargetRef := ws_TargetRef (obj_Spec w)\<rparr>) w \<and>
    mirrored (eview s) (eview es) (place, dashed (om_Name (obj_Meta w)) ''security'')
      ((ws_Security (obj_Spec w))\<lparr>sec_TargetRef := ws_TargetRef (obj_Spec w)\<rparr>) w"
proof -
  have ns: "ref_Namespace (ws_TargetRef (obj_Spec w)) \<noteq> ''''" using assms(13,14) by simp
  show ?thesis
    unfolding assms(13)
    using workload_compute.child_mirrored [OF assms(2) assms(1) assms(7) assms(12) ns]
      workload_storage.child_mirrored [OF assms(3) assms(1) assms(8) assms(12) ns]
      workload_networking.child_mirrored [OF assms(4) assms(1) assms(9) assms(12) ns]
      workload_observability.child_mirrored [OF assms(5) assms(1) assms(10) assms(12) ns]
      workload_security.child_mirrored [OF assms(6) assms(1) assms(11) assms(12) ns]
      assms(15-19)
    by (simp add: workload_compute_spec_def workload_wants_compute_def workload_storage_spec_def workload_wants_storage_def
        workload_networking_spec_def workload_wants_networking_def workload_observability_spec_def workload_wants_observability_def
        workload_security_spec_def workload_wants_security_def)
qed

abbreviation "sample_wcompute_run \<equiv>
  run_state (WorkloadComputeReconciler_Reconcile mem_lib workloads_api computes_api ('''', ''front''))
    sample_cluster"

abbreviation "sample_wstorage_run \<equiv>
  run_state (WorkloadStorageReconciler_Reconcile mem_lib workloads_api storages_api ('''', ''front''))
    sample_cluster"

abbreviation "sample_wnetworking_run \<equiv>
  run_state (WorkloadNetworkingReconciler_Reconcile mem_lib workloads_api networkings_api ('''', ''front''))
    sample_cluster"

abbreviation "sample_wobservability_run \<equiv>
  run_state (WorkloadObservabilityReconciler_Reconcile mem_lib workloads_api observabilities_api ('''', ''front''))
    sample_cluster"

abbreviation "sample_wsecurity_run \<equiv>
  run_state (WorkloadSecurityReconciler_Reconcile mem_lib workloads_api securities_api ('''', ''front''))
    sample_cluster"

lemma sample_workload_runs:
  "sample_wcompute_run = (None, snd sample_wcompute_run)"
  "sample_wstorage_run = (None, snd sample_wstorage_run)"
  "sample_wnetworking_run = (None, snd sample_wnetworking_run)"
  "sample_wobservability_run = (None, snd sample_wobservability_run)"
  "sample_wsecurity_run = (None, snd sample_wsecurity_run)"
  by (rule run_state_outcome, code_simp)+

lemma sample_workload_facts:
  "ref_Namespace (ws_TargetRef (obj_Spec sample_workload)) = ''shop''"
  "om_Name (obj_Meta sample_workload) = ''front''"
  "ref_Resource (cs_TargetRef (ws_Compute (obj_Spec sample_workload))) \<noteq> ''''"
  "ref_Resource (ss_TargetRef (ws_Storage (obj_Spec sample_workload))) \<noteq> ''''"
  "ref_Resource (ns_TargetRef (ws_Networking (obj_Spec sample_workload))) \<noteq> ''''"
  "ref_Resource (os_TargetRef (ws_Observability (obj_Spec sample_workload))) \<noteq> ''''"
  "ref_Resource (sec_TargetRef (ws_Security (obj_Spec sample_workload))) \<noteq> ''''"
  by (simp_all add: sample_workload_def sample_ref_def sample_ComputeSpec_def sample_StorageSpec_def
      sample_NetworkingSpec_def sample_ObservabilitySpec_def sample_SecuritySpec_def)

theorem workload_mirrored_witness:
  "\<exists>y. computes_view (snd sample_wcompute_run) (''shop'', ''front-compute'') = Some y \<and>
     cs_Autoscaling (obj_Spec y) = cs_Autoscaling (ws_Compute (obj_Spec sample_workload))"
  using workload_mirrored [OF mem_lib.runtime_lib_axioms, OF workloads_computes_stores,
      OF workloads_storages_stores, OF workloads_networkings_stores,
      OF workloads_observabilities_stores, OF workloads_securities_stores,
      OF sample_workload_runs(1), OF sample_workload_runs(2), OF sample_workload_runs(3),
      OF sample_workload_runs(4), OF sample_workload_runs(5), OF sample_stored(1), OF refl,
      unfolded sample_workload_facts(1,2), OF _ sample_workload_facts(3-7)]
  by (auto simp: mirrored_def dashed_def)

text \<open>
  C11: In the absence of faults each of the five controllers is one step of its specification,
  and running it again changes nothing: the capability resource is written when its part of
  the Workload names a target, and removed otherwise.
\<close>

theorem workload_refines:
  assumes "runtime_lib L"
    and "healthy_stores wapi wview capi cview (lib_IsNotFound L) healthy"
    and "healthy_stores wapi wview tapi tview (lib_IsNotFound L) healthy"
    and "healthy_stores wapi wview napi nview (lib_IsNotFound L) healthy"
    and "healthy_stores wapi wview bapi bview (lib_IsNotFound L) healthy"
    and "healthy_stores wapi wview eapi eview (lib_IsNotFound L) healthy"
    and "healthy s"
    and "run_state (WorkloadComputeReconciler_Reconcile L wapi capi req) s = (cr, cs)"
    and "run_state (WorkloadComputeReconciler_Reconcile L wapi capi req) cs = (cq, ct)"
    and "run_state (WorkloadStorageReconciler_Reconcile L wapi tapi req) s = (tr, ts)"
    and "run_state (WorkloadStorageReconciler_Reconcile L wapi tapi req) ts = (tq, tt)"
    and "run_state (WorkloadNetworkingReconciler_Reconcile L wapi napi req) s = (nr, ns)"
    and "run_state (WorkloadNetworkingReconciler_Reconcile L wapi napi req) ns = (nq, nt)"
    and "run_state (WorkloadObservabilityReconciler_Reconcile L wapi bapi req) s = (br, bs)"
    and "run_state (WorkloadObservabilityReconciler_Reconcile L wapi bapi req) bs = (bq, bt)"
    and "run_state (WorkloadSecurityReconciler_Reconcile L wapi eapi req) s = (er, es)"
    and "run_state (WorkloadSecurityReconciler_Reconcile L wapi eapi req) es = (eq, et)"
  shows "((cr = None, cview cs) =
        child_spec workload_unplaced workload_wants_compute target_Compute (workload_compute_mutate L)
          (wview s req) (cview s) \<and> cview ct = cview cs) \<and>
    ((tr = None, tview ts) =
        child_spec workload_unplaced workload_wants_storage target_Storage (workload_storage_mutate L)
          (wview s req) (tview s) \<and> tview tt = tview ts) \<and>
    ((nr = None, nview ns) =
        child_spec workload_unplaced workload_wants_networking target_Networking (workload_networking_mutate L)
          (wview s req) (nview s) \<and> nview nt = nview ns) \<and>
    ((br = None, bview bs) =
        child_spec workload_unplaced workload_wants_observability target_Observability (workload_observability_mutate L)
          (wview s req) (bview s) \<and> bview bt = bview bs) \<and>
    ((er = None, eview es) =
        child_spec workload_unplaced workload_wants_security target_Security (workload_security_mutate L)
          (wview s req) (eview s) \<and> eview et = eview es)"
  using workload_compute.child_contract [OF assms(2) assms(1,7) assms(8,9)]
    workload_storage.child_contract [OF assms(3) assms(1,7) assms(10,11)]
    workload_networking.child_contract [OF assms(4) assms(1,7) assms(12,13)]
    workload_observability.child_contract [OF assms(5) assms(1,7) assms(14,15)]
    workload_security.child_contract [OF assms(6) assms(1,7) assms(16,17)]
  by blast

theorem workload_refines_witness:
  "computes_view (snd sample_wcompute_run) =
     snd (child_spec workload_unplaced workload_wants_compute target_Compute
            (workload_compute_mutate mem_lib) (Some sample_workload) (computes_view sample_cluster))"
proof -
  note r = run_state_outcome [OF refl]
  from workload_refines [OF mem_lib.runtime_lib_axioms,
      OF workloads_computes_healthy, OF workloads_storages_healthy,
      OF workloads_networkings_healthy, OF workloads_observabilities_healthy,
      OF workloads_securities_healthy, OF sample_healthy, OF r, OF r, OF r, OF r, OF r, OF r, OF r, OF r, OF r, OF r]
    sample_stored(1)
  show ?thesis by (metis snd_conv)
qed

text \<open>
  Moving a Workload to another namespace leaves its old capability resources behind: a run
  of the compute controller, whatever happens in it, changes nothing outside the namespace
  the Workload names now, so the Compute of the former namespace is neither removed nor
  updated, and its autoscaler and disruption budget live on.
\<close>

theorem workload_move_orphans:
  assumes "owner_child_stores oapi oview capi cview (lib_IsNotFound L)" and "runtime_lib L"
    and "run_state (WorkloadComputeReconciler_Reconcile L oapi capi req) s = (r, s')"
    and "oview s req = Some w" and "former \<noteq> ref_Namespace (ws_TargetRef (obj_Spec w))"
    and "cview s (former, workload_compute_name w) = Some c"
  shows "cview s' (former, workload_compute_name w) = Some c"
  using workload_compute.other_namespace_untouched [OF assms(1-5)] assms(6) by simp

text \<open>
  C31: The target reference inside each part of a Workload, which the types mark as optional and
  the controllers overwrite with the Workload's own, decides whether the part counts: in the
  absence of faults, a Workload with a complete target reference whose parts leave theirs out
  gets none of its five capability resources, whatever the parts ask for, the ones it had are
  removed, and every run reports success.
\<close>

theorem parts_need_own_target:
  assumes "runtime_lib L"
    and "healthy_stores wapi wview capi cview (lib_IsNotFound L) healthy"
    and "healthy_stores wapi wview tapi tview (lib_IsNotFound L) healthy"
    and "healthy_stores wapi wview napi nview (lib_IsNotFound L) healthy"
    and "healthy_stores wapi wview bapi bview (lib_IsNotFound L) healthy"
    and "healthy_stores wapi wview eapi eview (lib_IsNotFound L) healthy"
    and "healthy s"
    and "run_state (WorkloadComputeReconciler_Reconcile L wapi capi req) s = (cr, cs)"
    and "run_state (WorkloadStorageReconciler_Reconcile L wapi tapi req) s = (tr, ts)"
    and "run_state (WorkloadNetworkingReconciler_Reconcile L wapi napi req) s = (nr, ns)"
    and "run_state (WorkloadObservabilityReconciler_Reconcile L wapi bapi req) s = (br, bs)"
    and "run_state (WorkloadSecurityReconciler_Reconcile L wapi eapi req) s = (er, es)"
    and "wview s req = Some w" and "ref_Namespace (ws_TargetRef (obj_Spec w)) \<noteq> ''''"
    and "ref_Resource (cs_TargetRef (ws_Compute (obj_Spec w))) = ''''"
    and "ref_Resource (ss_TargetRef (ws_Storage (obj_Spec w))) = ''''"
    and "ref_Resource (ns_TargetRef (ws_Networking (obj_Spec w))) = ''''"
    and "ref_Resource (os_TargetRef (ws_Observability (obj_Spec w))) = ''''"
    and "ref_Resource (sec_TargetRef (ws_Security (obj_Spec w))) = ''''"
    and "key = (\<lambda>suffix. (ref_Namespace (ws_TargetRef (obj_Spec w)), dashed (om_Name (obj_Meta w)) suffix))"
  shows "(cr = None \<and> cview cs = (cview s)(key ''compute'' := None)) \<and>
    (tr = None \<and> tview ts = (tview s)(key ''storage'' := None)) \<and>
    (nr = None \<and> nview ns = (nview s)(key ''networking'' := None)) \<and>
    (br = None \<and> bview bs = (bview s)(key ''observability'' := None)) \<and>
    (er = None \<and> eview es = (eview s)(key ''security'' := None))"
  unfolding assms(20)
  using workload_compute.unwanted_part_removed [OF assms(2,1,7,8,13,14)]
    workload_storage.unwanted_part_removed [OF assms(3,1,7,9,13,14)]
    workload_networking.unwanted_part_removed [OF assms(4,1,7,10,13,14)]
    workload_observability.unwanted_part_removed [OF assms(5,1,7,11,13,14)]
    workload_security.unwanted_part_removed [OF assms(6,1,7,12,13,14)] assms(15-19)
  by (simp add: workload_wants_compute_def workload_wants_storage_def workload_wants_networking_def
      workload_wants_observability_def workload_wants_security_def)

text \<open>The sample Workload with the target reference at the top only.\<close>

definition untargeted_workload :: Workload where
  "untargeted_workload =
     sample_workload\<lparr>obj_Spec := (obj_Spec sample_workload)
       \<lparr>ws_Compute := sample_ComputeSpec\<lparr>cs_TargetRef := zero_ResourceRef\<rparr>,
        ws_Storage := sample_StorageSpec\<lparr>ss_TargetRef := zero_ResourceRef\<rparr>,
        ws_Networking := sample_NetworkingSpec\<lparr>ns_TargetRef := zero_ResourceRef\<rparr>,
        ws_Observability := sample_ObservabilitySpec\<lparr>os_TargetRef := zero_ResourceRef\<rparr>,
        ws_Security := sample_SecuritySpec\<lparr>sec_TargetRef := zero_ResourceRef\<rparr>\<rparr>\<rparr>"

theorem parts_need_own_target_witness:
  "computes_view (snd (run_state (WorkloadComputeReconciler_Reconcile mem_lib workloads_api
      computes_api ('''', ''front''))
      ((snd sample_wcompute_run)\<lparr>cl_workloads := [untargeted_workload]\<rparr>))) (''shop'', ''front-compute'') = None"
proof -
  let ?c = "(snd sample_wcompute_run)\<lparr>cl_workloads := [untargeted_workload]\<rparr>"
  have h: "mem_healthy ?c" by code_simp
  have w: "workloads_view ?c ('''', ''front'') = Some untargeted_workload" by code_simp
  have f: "ref_Namespace (ws_TargetRef (obj_Spec untargeted_workload)) = ''shop''"
    "om_Name (obj_Meta untargeted_workload) = ''front''"
    "ref_Resource (cs_TargetRef (ws_Compute (obj_Spec untargeted_workload))) = ''''"
    "ref_Resource (ss_TargetRef (ws_Storage (obj_Spec untargeted_workload))) = ''''"
    "ref_Resource (ns_TargetRef (ws_Networking (obj_Spec untargeted_workload))) = ''''"
    "ref_Resource (os_TargetRef (ws_Observability (obj_Spec untargeted_workload))) = ''''"
    "ref_Resource (sec_TargetRef (ws_Security (obj_Spec untargeted_workload))) = ''''"
    by (simp_all add: untargeted_workload_def sample_workload_def sample_ref_def zero_ResourceRef_def)
  note r = run_state_outcome [OF refl]
  from parts_need_own_target [OF mem_lib.runtime_lib_axioms,
      OF workloads_computes_healthy, OF workloads_storages_healthy, OF workloads_networkings_healthy,
      OF workloads_observabilities_healthy, OF workloads_securities_healthy, OF h, OF r, OF r, OF r,
      OF r, OF r, OF w, unfolded f(1,2), OF _ f(3-7) refl]
  show ?thesis by (simp add: dashed_def)
qed

definition moved_workload :: Workload where
  "moved_workload =
     sample_workload\<lparr>obj_Spec := (obj_Spec sample_workload)
       \<lparr>ws_TargetRef := sample_ref\<lparr>ref_Namespace := ''mall''\<rparr>\<rparr>\<rparr>"

theorem workload_move_orphans_witness:
  "computes_view (snd (run_state (WorkloadComputeReconciler_Reconcile mem_lib workloads_api
      computes_api ('''', ''front''))
      ((snd sample_wcompute_run)\<lparr>cl_workloads := [moved_workload]\<rparr>))) (''shop'', ''front-compute'') \<noteq> None"
proof -
  let ?c = "(snd sample_wcompute_run)\<lparr>cl_workloads := [moved_workload]\<rparr>"
  have w: "workloads_view ?c ('''', ''front'') = Some moved_workload" by code_simp
  have "computes_view ?c (''shop'', ''front-compute'') \<noteq> None" by code_simp
  then obtain c where "computes_view ?c (''shop'', workload_compute_name moved_workload) = Some c"
    by (auto simp: workload_compute_name_def moved_workload_def sample_workload_def dashed_def)
  from workload_move_orphans [OF workloads_computes_stores, OF mem_lib.runtime_lib_axioms,
      OF run_state_outcome [OF refl], OF w, OF _ this]
  show ?thesis
    by (simp add: workload_compute_name_def moved_workload_def sample_workload_def dashed_def)
qed

end
