(* ===== verification/HPA_Controller.thy ===== *)
theory HPA_Controller
  imports Child_Controller Patch_Engine Sample_Cluster
begin

text \<open>
  \<^verbatim>\<open>internal/controller/compute/hpa_controller.go\<close>: the autoscaler of a Compute.  The callback
  (\<open>hpa_mutate\<close>), the handler (\<open>HPAReconciler_Reconcile\<close>) and the watch declaration; the handler
  is shown to be a \<open>child_controller\<close>, so its frame, its abstract step and its steady state
  follow from the shared lemmas.
\<close>

section \<open>The callback\<close>

text \<open>\<^verbatim>\<open>metrics\<close>: a utilization metric per percentage that is positive, CPU first.\<close>

definition utilization_metric :: "string \<Rightarrow> int32 \<Rightarrow> MetricSpec" where
  "utilization_metric resource val =
     \<lparr>ms_Type = ''Resource'',
      ms_Resource = Some \<lparr>rms_Name = resource,
        rms_Target = \<lparr>mt_Type = ''Utilization'', mt_AverageUtilization = Some val,
                      mt_rest = JNull\<rparr>\<rparr>,
      ms_rest = JNull\<rparr>"

definition hpa_metrics :: "AutoscalingSpec \<Rightarrow> MetricSpec list" where
  "hpa_metrics a =
     (let metrics = [];
          metrics = (if 0 <s as_TargetCPUUtilizationPercentage a
                     then metrics @ [utilization_metric ''cpu'' (as_TargetCPUUtilizationPercentage a)]
                     else metrics);
          metrics = (if 0 <s as_TargetMemoryUtilizationPercentage a
                     then metrics @ [utilization_metric ''memory''
                                       (as_TargetMemoryUtilizationPercentage a)]
                     else metrics)
      in metrics)"

definition hpa_scale_target :: "ResourceRef \<Rightarrow> CrossVersionObjectReference" where
  "hpa_scale_target ref =
     \<lparr>xref_APIVersion = ref_ApiVersion ref, xref_Kind = ref_Kind ref,
      xref_Name = ref_Resource ref\<rparr>"

text \<open>The fields of the autoscaler the callback assigns; the others stay.\<close>

definition hpa_fill ::
    "ComputeSpec \<Rightarrow> HorizontalPodAutoscalerSpec \<Rightarrow> HorizontalPodAutoscalerSpec" where
  "hpa_fill spec h =
     h\<lparr>hpa_ScaleTargetRef := hpa_scale_target (cs_TargetRef spec),
       hpa_MaxReplicas := as_MaxReplicas (cs_Autoscaling spec),
       hpa_MinReplicas :=
         (if 0 <s as_MinReplicas (cs_Autoscaling spec)
          then Some (as_MinReplicas (cs_Autoscaling spec)) else None),
       hpa_Metrics := hpa_metrics (cs_Autoscaling spec)\<rparr>"

definition hpa_mutate ::
    "lib \<Rightarrow> HorizontalPodAutoscaler codec \<Rightarrow> Compute \<Rightarrow> HorizontalPodAutoscaler \<Rightarrow>
     go_error + HorizontalPodAutoscaler" where
  "hpa_mutate L cod compute targetHPA =
     (case set_owner L ''Compute'' compute
             (targetHPA\<lparr>obj_Spec := hpa_fill (obj_Spec compute) (obj_Spec targetHPA)\<rparr>) of
        Inl err \<Rightarrow> Inl err
      | Inr targetHPA \<Rightarrow>
          (case ApplyEscapeHatches L cod targetHPA (cs_EscapeHatches (obj_Spec compute))
                  ''HorizontalPodAutoscaler'' of
             Inl err \<Rightarrow> Inl err
           | Inr patchedHPAObj \<Rightarrow> Inr patchedHPAObj))"

section \<open>The handler\<close>

definition hpa_name :: "Compute \<Rightarrow> string" where
  "hpa_name compute = dashed (om_Name (obj_Meta compute)) ''hpa''"

definition target_HPA :: "Compute \<Rightarrow> HorizontalPodAutoscaler" where
  "target_HPA compute =
     named_object (hpa_name compute) (om_Namespace (obj_Meta compute)) zero_HPASpec JNull"

definition HPAReconciler_Reconcile ::
    "lib \<Rightarrow> HorizontalPodAutoscaler codec \<Rightarrow> ('s, Compute) api \<Rightarrow>
     ('s, HorizontalPodAutoscaler) api \<Rightarrow> key \<Rightarrow> ('s, go_error option) state" where
  "HPAReconciler_Reconcile L cod computes hpas req = do {
     r \<leftarrow> api_get computes req;
     (case r of
        Inl err \<Rightarrow> State_Monad.return (lib_IgnoreNotFound L err)
      | Inr compute \<Rightarrow>
          if ref_Resource (cs_TargetRef (obj_Spec compute)) = '''' then State_Monad.return None
          else if as_MaxReplicas (cs_Autoscaling (obj_Spec compute)) = 0 then do {
            g \<leftarrow> api_get hpas (om_Namespace (obj_Meta compute), hpa_name compute);
            (case g of
               Inl _ \<Rightarrow> State_Monad.return None
             | Inr hpa \<Rightarrow> do {
                 err \<leftarrow> api_delete hpas hpa;
                 (case err of Some err \<Rightarrow> State_Monad.return (Some err)
                  | None \<Rightarrow> State_Monad.return None)
               })
          }
          else do {
            err \<leftarrow> api_createOrUpdate hpas (target_HPA compute) (hpa_mutate L cod compute);
            (case err of Some err \<Rightarrow> State_Monad.return (Some err)
             | None \<Rightarrow> State_Monad.return None)
          })
   }"

definition HPAReconciler_SetupWithManager :: controller_setup where
  "HPAReconciler_SetupWithManager =
     \<lparr>setup_For = ''Compute'', setup_Owns = [''HorizontalPodAutoscaler''],
      setup_Watches = [], setup_Named = ''compute-hpa''\<rparr>"

section \<open>Correctness\<close>

definition compute_unnamed :: "Compute \<Rightarrow> bool" where
  "compute_unnamed c \<longleftrightarrow> ref_Resource (cs_TargetRef (obj_Spec c)) = ''''"

definition hpa_enabled :: "Compute \<Rightarrow> bool" where
  "hpa_enabled c \<longleftrightarrow> as_MaxReplicas (cs_Autoscaling (obj_Spec c)) \<noteq> 0"

lemma key_of_target_HPA [simp]:
  "key_of (target_HPA c) = (om_Namespace (obj_Meta c), hpa_name c)"
  by (simp add: target_HPA_def)

interpretation hpa: pure_child_controller L "HPAReconciler_Reconcile L cod" compute_unnamed
    hpa_enabled target_HPA "hpa_mutate L cod"
  by unfold_locales
    (simp add: HPAReconciler_Reconcile_def child_reconcile_def compute_unnamed_def
      hpa_enabled_def cong: sum.case_cong if_cong)

interpretation mem_hpa: child_controller_healthy mem_lib "HPAReconciler_Reconcile mem_lib cod"
    compute_unnamed hpa_enabled target_HPA "\<lambda>_. State_Monad.return ()"
    "\<lambda>w _. hpa_mutate mem_lib cod w" "mem_api cl_computes cl_computes_update"
    "mem_view cl_computes" "mem_api cl_hpas cl_hpas_update" "mem_view cl_hpas" mem_healthy
  using hpa.pure_healthy [OF _ mem_lib.runtime_lib_axioms] computes_hpas.healthy_stores_axioms
  by simp

text \<open>Without hatches for its kind the callback is the assignment and the owner reference.\<close>

lemma hpa_mutate_plain:
  assumes "hatches_for ''HorizontalPodAutoscaler'' (cs_EscapeHatches (obj_Spec w)) = []"
  shows "hpa_mutate L cod w x =
    set_owner L ''Compute'' w (x\<lparr>obj_Spec := hpa_fill (obj_Spec w) (obj_Spec x)\<rparr>)"
  using assms by (auto simp: hpa_mutate_def split: sum.splits)

lemma hpa_fill_idem: "hpa_fill spec (hpa_fill spec h) = hpa_fill spec h"
  by (simp add: hpa_fill_def)

lemma hpa_metrics_filter:
  "hpa_metrics a = map (\<lambda>(n, v). utilization_metric n v)
     (filter (\<lambda>(n, v). 0 <s v) [(''cpu'', as_TargetCPUUtilizationPercentage a),
                               (''memory'', as_TargetMemoryUtilizationPercentage a)])"
  by (simp add: hpa_metrics_def Let_def)

text \<open>
  C12: When a run of the autoscaler controller reports success for a Compute that names a target
  and has a maximum, and no escape hatch is meant for the autoscaler, then the autoscaler
  named after the Compute has the name, kind and API version of the target, the maximum, the
  minimum if it is positive and one utilization metric per positive percentage (CPU before
  memory), and it has the Compute as controller.  Everything else is as it was, or blank if the
  run created the autoscaler: the other fields of the spec, the status, the type and the header,
  except for the owner references.
\<close>

theorem hpa_applied:
  assumes "owner_child_stores oapi oview capi cview (lib_IsNotFound L)" and "runtime_lib L"
    and "run_state (HPAReconciler_Reconcile L cod oapi capi req) s = (None, s')"
    and "oview s req = Some w"
    and "ref_Resource (cs_TargetRef (obj_Spec w)) \<noteq> ''''"
    and "as_MaxReplicas (cs_Autoscaling (obj_Spec w)) \<noteq> 0"
    and "hatches_for ''HorizontalPodAutoscaler'' (cs_EscapeHatches (obj_Spec w)) = []"
  shows "\<exists>y. cview s' = (cview s)((om_Namespace (obj_Meta w), hpa_name w) \<mapsto> y) \<and>
    xref_Name (hpa_ScaleTargetRef (obj_Spec y)) = ref_Resource (cs_TargetRef (obj_Spec w)) \<and>
    xref_Kind (hpa_ScaleTargetRef (obj_Spec y)) = ref_Kind (cs_TargetRef (obj_Spec w)) \<and>
    xref_APIVersion (hpa_ScaleTargetRef (obj_Spec y)) = ref_ApiVersion (cs_TargetRef (obj_Spec w)) \<and>
    hpa_MaxReplicas (obj_Spec y) = as_MaxReplicas (cs_Autoscaling (obj_Spec w)) \<and>
    hpa_MinReplicas (obj_Spec y) =
      (let m = as_MinReplicas (cs_Autoscaling (obj_Spec w)) in if 0 <s m then Some m else None) \<and>
    hpa_Metrics (obj_Spec y) = map (\<lambda>(n, v). utilization_metric n v)
      (filter (\<lambda>(n, v). 0 <s v)
        [(''cpu'', as_TargetCPUUtilizationPercentage (cs_Autoscaling (obj_Spec w))),
         (''memory'', as_TargetMemoryUtilizationPercentage (cs_Autoscaling (obj_Spec w)))]) \<and>
    hpa_rest (obj_Spec y) =
      (case cview s (om_Namespace (obj_Meta w), hpa_name w) of
         None \<Rightarrow> JNull | Some x \<Rightarrow> hpa_rest (obj_Spec x)) \<and>
    (let x = current (cview s) (om_Namespace (obj_Meta w), hpa_name w)
          (named_object (hpa_name w) (om_Namespace (obj_Meta w)) zero_HPASpec JNull) in
       obj_Status y = obj_Status x \<and> obj_TypeMeta y = obj_TypeMeta x \<and>
       obj_Meta y = (obj_Meta x)\<lparr>om_OwnerReferences := om_OwnerReferences (obj_Meta y)\<rparr>) \<and>
    (''Compute'', om_Name (obj_Meta w)) \<in> set (controllers_of (obj_Meta y))"
proof -
  let ?x = "current (cview s) (key_of (target_HPA w)) (target_HPA w)"
  have "\<not> compute_unnamed w" "hpa_enabled w"
    using assms(5,6) by (simp_all add: compute_unnamed_def hpa_enabled_def)
  with assms(1-4) obtain y
    where m: "hpa_mutate L cod w ?x = Inr y"
      and st: "cview s' = (cview s)(key_of (target_HPA w) \<mapsto> y)"
    by (rule hpa.pure_success) blast
  note own = m [unfolded hpa_mutate_plain [OF assms(7)]]
  note y = runtime_lib.set_owner_InrD(2-5) [OF assms(2) own]
    runtime_lib.set_owner_header [OF assms(2) own, unfolded object.simps]
  have "obj_Status y = obj_Status ?x" "obj_TypeMeta y = obj_TypeMeta ?x"
    "obj_Meta y = (obj_Meta ?x)\<lparr>om_OwnerReferences := om_OwnerReferences (obj_Meta y)\<rparr>"
    using y by simp_all
  with st y show ?thesis by (intro exI [of _ y])
      (auto simp: hpa_fill_def hpa_scale_target_def hpa_metrics_filter current_def target_HPA_def
        zero_HPASpec_def Let_def split: option.splits)
qed

abbreviation "sample_hpa_run \<equiv>
  run_state (HPAReconciler_Reconcile mem_lib trivial_codec computes_api hpas_api
    (''shop'', ''front'')) sample_cluster"

theorem hpa_applied_witness:
  "\<exists>y. mem_view cl_hpas (snd sample_hpa_run) (''shop'', ''front-hpa'') = Some y \<and>
     hpa_MaxReplicas (obj_Spec y) = 5 \<and> hpa_MinReplicas (obj_Spec y) = Some 2"
proof -
  have run: "sample_hpa_run = (None, snd sample_hpa_run)"
    by (rule run_state_outcome) code_simp
  from hpa_applied [OF computes_hpas_stores, OF mem_lib.runtime_lib_axioms, OF run, OF sample_stored(2)]
  show ?thesis
    by (auto simp: sample_compute_def sample_ComputeSpec_def sample_ref_def hpa_name_def
        dashed_def word_sless_alt)
qed

text \<open>
  C13: In the absence of faults a run of the autoscaler controller is one step of its
  specification: nothing for a Compute that is gone or names no target, removal of the
  autoscaler when the maximum is 0, and otherwise the callback applied to the autoscaler that
  is there, or to an empty one; the run fails exactly when the callback does.  With no escape
  hatch for the autoscaler a second run changes nothing and ends like the first.
\<close>

theorem hpa_refines:
  assumes "healthy_stores oapi oview capi cview (lib_IsNotFound L) healthy" and "runtime_lib L"
    and "healthy s"
    and "run_state (HPAReconciler_Reconcile L cod oapi capi req) s = (r, s')"
    and "run_state (HPAReconciler_Reconcile L cod oapi capi req) s' = (r', s'')"
  shows "(r = None, cview s') =
      child_spec compute_unnamed hpa_enabled target_HPA (hpa_mutate L cod) (oview s req) (cview s) \<and>
    oview s' = oview s \<and>
    ((\<forall>w. oview s req = Some w \<longrightarrow>
        hatches_for ''HorizontalPodAutoscaler'' (cs_EscapeHatches (obj_Spec w)) = []) \<longrightarrow>
      cview s'' = cview s' \<and> (r' = None \<longleftrightarrow> r = None))"
  by (rule hpa.pure_contract [OF assms])
    (simp add: hpa_mutate_plain,
      rule runtime_lib.set_owner_fill_idem [OF assms(2)], simp_all add: hpa_fill_idem)

theorem hpa_refines_witness:
  "hpas_view (snd sample_hpa_run) =
     snd (child_spec compute_unnamed hpa_enabled target_HPA (hpa_mutate mem_lib trivial_codec)
            (Some sample_compute) (hpas_view sample_cluster))"
proof -
  have run: "sample_hpa_run = (None, snd sample_hpa_run)"
    by (rule run_state_outcome) code_simp
  from hpa_refines [OF computes_hpas_healthy, OF mem_lib.runtime_lib_axioms,
      OF sample_healthy, OF run, OF run_state_outcome [OF refl]] sample_stored(2)
  show ?thesis by (metis snd_conv)
qed

end
