(* ===== verification/Compute_Admission.thy ===== *)
theory Compute_Admission
  imports Go_Json Workload_Controllers HPA_Controller
begin

text \<open>
  What a Compute looks like to the API server: the JSON document of its spec, from the struct
  tags of \<^verbatim>\<open>api/v1alpha1/compute_types.go\<close> and \<^verbatim>\<open>types_shared.go\<close>, and the validation marker on
  \<^verbatim>\<open>MaxReplicas\<close>.  \<^verbatim>\<open>omitempty\<close> has no effect on struct values, so the section \<^verbatim>\<open>autoscaling\<close> is
  always sent by the Go client, also by the workload controller for a Workload that has none;
  a document that a user writes may leave it out.
\<close>

section \<open>The document of a Compute spec\<close>

definition ref_value :: "ResourceRef \<Rightarrow> goval" where
  "ref_value r = VStruct
     [(''resource'', False, VString (ref_Resource r)), (''kind'', False, VString (ref_Kind r)),
      (''apiVersion'', False, VString (ref_ApiVersion r)),
      (''namespace'', False, VString (ref_Namespace r))]"

definition hatch_value :: "EscapeHatch \<Rightarrow> goval" where
  "hatch_value h = VStruct
     [(''kind'', False, VString (hatch_Kind h)), (''patchType'', False, VString (hatch_PatchType h)),
      (''patch'', False, VString (hatch_Patch h))]"

definition autoscaling_value :: "AutoscalingSpec \<Rightarrow> goval" where
  "autoscaling_value a = VStruct
     [(''minReplicas'', True, VInt (sint (as_MinReplicas a))),
      (''maxReplicas'', False, VInt (sint (as_MaxReplicas a))),
      (''targetCPUUtilizationPercentage'', True,
         VInt (sint (as_TargetCPUUtilizationPercentage a))),
      (''targetMemoryUtilizationPercentage'', True,
         VInt (sint (as_TargetMemoryUtilizationPercentage a)))]"

text \<open>An empty list stands for a nil map or slice; an empty one would be omitted alike.\<close>

definition scheduling_value :: "SchedulingSpec \<Rightarrow> goval" where
  "scheduling_value s = VStruct
     [(''nodeSelector'', True,
         VMap (if sch_NodeSelector s = [] then None
               else Some (map (\<lambda>(k, v). (k, VString v)) (sch_NodeSelector s)))),
      (''affinity'', True, VStruct
         [(''nodeAffinity'', True, VAny (aff_NodeAffinity (sch_Affinity s))),
          (''podAffinity'', True, VAny (aff_PodAffinity (sch_Affinity s))),
          (''podAntiAffinity'', True, VAny (aff_PodAntiAffinity (sch_Affinity s)))]),
      (''topologySpreadConstraints'', True,
         VSlice (if sch_TopologySpreadConstraints s = [] then None
                 else Some (map (\<lambda>j. VAny (Some j)) (sch_TopologySpreadConstraints s))))]"

text \<open>\<^verbatim>\<open>IntOrString\<close> marshals to a number or to a string.\<close>

definition intstr_json :: "IntOrString \<Rightarrow> json" where
  "intstr_json v = (if ios_Type v = 0 then JNum (sint (ios_IntVal v)) else JStr (ios_StrVal v))"

definition pdb_value :: "PDBSpec \<Rightarrow> goval" where
  "pdb_value p = VStruct
     [(''minAvailable'', True, VAny (Some (intstr_json (pdbs_MinAvailable p)))),
      (''maxUnavailable'', True, VAny (Some (intstr_json (pdbs_MaxUnavailable p))))]"

definition compute_spec_value :: "ComputeSpec \<Rightarrow> goval" where
  "compute_spec_value spec = VStruct
     [(''targetRef'', True, ref_value (cs_TargetRef spec)),
      (''autoscaling'', True, autoscaling_value (cs_Autoscaling spec)),
      (''scheduling'', True, scheduling_value (cs_Scheduling spec)),
      (''podDisruptionBudget'', True, pdb_value (cs_PodDisruptionBudget spec)),
      (''escapeHatches'', True, VSlice (if cs_EscapeHatches spec = [] then None
                                       else Some (map hatch_value (cs_EscapeHatches spec))))]"

definition json_member :: "string \<Rightarrow> json \<Rightarrow> json option" where
  "json_member k j = (case j of JObj kvs \<Rightarrow> map_of kvs k | _ \<Rightarrow> None)"

text \<open>
  \<^verbatim>\<open>+kubebuilder:validation:Minimum=1\<close> on the required member \<^verbatim>\<open>maxReplicas\<close>: an \<^verbatim>\<open>autoscaling\<close>
  section, when there is one, must have it, with a value of at least 1.
\<close>

definition compute_schema :: "json \<Rightarrow> bool" where
  "compute_schema doc \<longleftrightarrow>
     (case json_member ''autoscaling'' doc of
        None \<Rightarrow> True
      | Some sec \<Rightarrow>
          (case json_member ''maxReplicas'' sec of
             Some (JNum n) \<Rightarrow> 1 \<le> n
           | _ \<Rightarrow> False))"

lemma compute_schema_iff:
  "compute_schema (marshal (compute_spec_value spec)) \<longleftrightarrow>
     0 <s as_MaxReplicas (cs_Autoscaling spec)"
  by (auto simp: compute_schema_def compute_spec_value_def json_member_def ref_value_def
      autoscaling_value_def scheduling_value_def pdb_value_def word_sless_alt)

section \<open>The document determines the spec\<close>

text \<open>The types behind the documents.  \<^verbatim>\<open>IntOrString\<close> and the \<^verbatim>\<open>k8s.io\<close> types stay as JSON.\<close>

definition ref_type :: gotype where
  "ref_type = GStruct
     [(''resource'', False, GString), (''kind'', False, GString),
      (''apiVersion'', False, GString), (''namespace'', False, GString)]"

definition hatch_type :: gotype where
  "hatch_type = GStruct
     [(''kind'', False, GString), (''patchType'', False, GString), (''patch'', False, GString)]"

definition autoscaling_type :: gotype where
  "autoscaling_type = GStruct
     [(''minReplicas'', True, GInt 32), (''maxReplicas'', False, GInt 32),
      (''targetCPUUtilizationPercentage'', True, GInt 32),
      (''targetMemoryUtilizationPercentage'', True, GInt 32)]"

definition scheduling_type :: gotype where
  "scheduling_type = GStruct
     [(''nodeSelector'', True, GMap GString),
      (''affinity'', True, GStruct
         [(''nodeAffinity'', True, GAny), (''podAffinity'', True, GAny),
          (''podAntiAffinity'', True, GAny)]),
      (''topologySpreadConstraints'', True, GSlice GAny)]"

definition pdb_type :: gotype where
  "pdb_type = GStruct [(''minAvailable'', True, GAny), (''maxUnavailable'', True, GAny)]"

definition compute_spec_type :: gotype where
  "compute_spec_type = GStruct
     [(''targetRef'', True, ref_type), (''autoscaling'', True, autoscaling_type),
      (''scheduling'', True, scheduling_type), (''podDisruptionBudget'', True, pdb_type),
      (''escapeHatches'', True, GSlice hatch_type)]"

text \<open>An \<^verbatim>\<open>IntOrString\<close> as its constructors make it: the field it does not use is zero.\<close>

definition proper_intstr :: "IntOrString \<Rightarrow> bool" where
  "proper_intstr v \<longleftrightarrow>
     ios_Type v = 0 \<and> ios_StrVal v = '''' \<or> ios_Type v = 1 \<and> ios_IntVal v = 0"

definition wire_spec :: "ComputeSpec \<Rightarrow> bool" where
  "wire_spec spec \<longleftrightarrow>
     distinct (map fst (sch_NodeSelector (cs_Scheduling spec))) \<and>
     aff_NodeAffinity (sch_Affinity (cs_Scheduling spec)) \<noteq> Some JNull \<and>
     aff_PodAffinity (sch_Affinity (cs_Scheduling spec)) \<noteq> Some JNull \<and>
     aff_PodAntiAffinity (sch_Affinity (cs_Scheduling spec)) \<noteq> Some JNull \<and>
     JNull \<notin> set (sch_TopologySpreadConstraints (cs_Scheduling spec)) \<and>
     proper_intstr (pdbs_MinAvailable (cs_PodDisruptionBudget spec)) \<and>
     proper_intstr (pdbs_MaxUnavailable (cs_PodDisruptionBudget spec))"

lemma int32_fits: "int_fits 32 (sint (w :: 32 word))"
  using sint_range_size [of w] by (simp add: int_fits_def word_size)

lemma canonical_ref: "canonical ref_type (ref_value ref)"
  by (simp add: ref_type_def ref_value_def)

lemma canonical_hatches: "canonical_all hatch_type (map hatch_value hs)"
  by (induction hs) (simp_all add: hatch_type_def hatch_value_def)

lemma canonical_autoscaling: "canonical autoscaling_type (autoscaling_value a)"
  by (simp add: autoscaling_type_def autoscaling_value_def int32_fits)

lemma canonical_selector: "canonical_entries GString (map (\<lambda>(k, v). (k, VString v)) kvs)"
  by (induction kvs) auto

lemma canonical_constraints:
  "JNull \<notin> set js \<Longrightarrow> canonical_all GAny (map (\<lambda>j. VAny (Some j)) js)"
  by (induction js) auto

lemma intstr_json_not_null [simp]: "intstr_json v \<noteq> JNull"
  by (simp add: intstr_json_def)

lemma canonical_compute_spec:
  assumes "wire_spec spec"
  shows "canonical compute_spec_type (compute_spec_value spec)"
proof -
  have "canonical scheduling_type (scheduling_value (cs_Scheduling spec))"
    using assms canonical_selector canonical_constraints
    by (auto simp: wire_spec_def scheduling_type_def scheduling_value_def comp_def case_prod_unfold)
  moreover have "canonical pdb_type (pdb_value (cs_PodDisruptionBudget spec))"
    by (simp add: pdb_type_def pdb_value_def)
  ultimately show ?thesis
    by (simp add: compute_spec_type_def compute_spec_value_def canonical_ref canonical_autoscaling
        canonical_hatches) (simp add: ref_value_def autoscaling_value_def scheduling_value_def pdb_value_def)
qed

lemma intstr_json_inject:
  "proper_intstr v \<Longrightarrow> proper_intstr v' \<Longrightarrow> intstr_json v = intstr_json v' \<Longrightarrow> v = v'"
  by (cases v; cases v') (auto simp: proper_intstr_def intstr_json_def intro: signed_word_eqI split: if_splits)

lemma compute_spec_value_inject:
  assumes "wire_spec a" and "wire_spec b" and "compute_spec_value a = compute_spec_value b"
  shows "a = b"
proof -
  have r: "ref_value x = ref_value y \<Longrightarrow> x = y" for x y
    by (cases x; cases y) (simp add: ref_value_def)
  have u: "autoscaling_value x = autoscaling_value y \<Longrightarrow> x = y" for x y
    by (cases x; cases y) (auto simp: autoscaling_value_def intro: signed_word_eqI)
  have h: "inj hatch_value"
  proof (rule injI)
    show "hatch_value x = hatch_value y \<Longrightarrow> x = y" for x y
      by (cases x; cases y) (simp add: hatch_value_def)
  qed
  have f: "aff_NodeAffinity x = aff_NodeAffinity y \<Longrightarrow> aff_PodAffinity x = aff_PodAffinity y \<Longrightarrow>
      aff_PodAntiAffinity x = aff_PodAntiAffinity y \<Longrightarrow> x = y" for x y :: Affinity
    by (cases x; cases y) simp
  have n: "inj (\<lambda>(k, v). (k :: string, VString v))" "inj (\<lambda>j. VAny (Some j))"
    by (auto intro: injI)
  have s: "scheduling_value x = scheduling_value y \<Longrightarrow> x = y" for x y
    by (cases x; cases y)
      (auto simp: scheduling_value_def inj_map_eq_map [OF n(1)] inj_map_eq_map [OF n(2)] intro: f
        split: if_splits)
  have p: "pdb_value x = pdb_value y \<Longrightarrow>
      proper_intstr (pdbs_MinAvailable x) \<Longrightarrow> proper_intstr (pdbs_MaxUnavailable x) \<Longrightarrow>
      proper_intstr (pdbs_MinAvailable y) \<Longrightarrow> proper_intstr (pdbs_MaxUnavailable y) \<Longrightarrow> x = y" for x y
    by (cases x; cases y) (auto simp: pdb_value_def intro: intstr_json_inject)
  from assms(3) have
    "ref_value (cs_TargetRef a) = ref_value (cs_TargetRef b)"
    "autoscaling_value (cs_Autoscaling a) = autoscaling_value (cs_Autoscaling b)"
    "scheduling_value (cs_Scheduling a) = scheduling_value (cs_Scheduling b)"
    "pdb_value (cs_PodDisruptionBudget a) = pdb_value (cs_PodDisruptionBudget b)"
    "cs_EscapeHatches a = cs_EscapeHatches b"
    by (auto simp: compute_spec_value_def inj_map_eq_map [OF h] split: if_splits)
  with r u s p assms(1,2) show ?thesis
    by (cases a; cases b) (simp add: wire_spec_def)
qed

text \<open>
  C24: The spec of a Compute survives the API server: decoding the document of a spec into a fresh
  value gives back the value it was encoded from, without error, and no two specs have the same
  document.  This holds for specs with distinct node selector keys, no explicit nulls and
  \<^verbatim>\<open>IntOrString\<close> values as their constructors make them.
\<close>

theorem compute_spec_roundtrip:
  assumes "wire_spec spec"
  shows "unmarshal r compute_spec_type (marshal (compute_spec_value spec)) (zero_value compute_spec_type)
      = (compute_spec_value spec, None) \<and>
    (wire_spec spec' \<and> marshal (compute_spec_value spec') = marshal (compute_spec_value spec) \<longrightarrow>
      spec' = spec)"
  using unmarshal_marshal(1) [OF canonical_compute_spec, of _ r] assms compute_spec_value_inject
  by (metis prod.inject)

theorem compute_spec_roundtrip_witness:
  "unmarshal False compute_spec_type (marshal (compute_spec_value sample_ComputeSpec))
     (zero_value compute_spec_type) = (compute_spec_value sample_ComputeSpec, None)"
proof -
  have "wire_spec sample_ComputeSpec" by code_simp
  from compute_spec_roundtrip [OF this] show ?thesis by blast
qed

section \<open>Documents that users write\<close>

text \<open>
  The spec a controller gets for a document: the document is decoded into a fresh value, and
  the value read as a \<^verbatim>\<open>ComputeSpec\<close>.  \<^verbatim>\<open>IntOrString\<close> decodes itself and refuses what is neither a
  number of 32 bits nor a string.
\<close>

definition go_field :: "goval \<Rightarrow> string \<Rightarrow> goval" where
  "go_field v n =
     (case v of
        VStruct fs \<Rightarrow> (case struct_field fs n of Some x \<Rightarrow> x | None \<Rightarrow> VAny None)
      | _ \<Rightarrow> VAny None)"

fun read_string :: "goval \<Rightarrow> string" where
  "read_string (VString txt) = txt"
| "read_string _ = ''''"

fun read_int32 :: "goval \<Rightarrow> int32" where
  "read_int32 (VInt n) = word_of_int n"
| "read_int32 _ = 0"

fun read_any :: "goval \<Rightarrow> json option" where
  "read_any (VAny a) = a"
| "read_any _ = None"

fun read_slice :: "goval \<Rightarrow> goval list" where
  "read_slice (VSlice (Some vs)) = vs"
| "read_slice _ = []"

fun read_map :: "goval \<Rightarrow> (string \<times> goval) list" where
  "read_map (VMap (Some kvs)) = kvs"
| "read_map _ = []"

definition read_intstr :: "goval \<Rightarrow> IntOrString option" where
  "read_intstr v =
     (case read_any v of
        None \<Rightarrow> Some \<lparr>ios_Type = 0, ios_IntVal = 0, ios_StrVal = ''''\<rparr>
      | Some (JNum n) \<Rightarrow>
          if int_fits 32 n then Some \<lparr>ios_Type = 0, ios_IntVal = word_of_int n, ios_StrVal = ''''\<rparr>
          else None
      | Some (JStr txt) \<Rightarrow> Some \<lparr>ios_Type = 1, ios_IntVal = 0, ios_StrVal = txt\<rparr>
      | Some _ \<Rightarrow> None)"

definition read_ref :: "goval \<Rightarrow> ResourceRef" where
  "read_ref v =
     \<lparr>ref_Resource = read_string (go_field v ''resource''),
      ref_Kind = read_string (go_field v ''kind''),
      ref_ApiVersion = read_string (go_field v ''apiVersion''),
      ref_Namespace = read_string (go_field v ''namespace'')\<rparr>"

definition read_hatch :: "goval \<Rightarrow> EscapeHatch" where
  "read_hatch v =
     \<lparr>hatch_Kind = read_string (go_field v ''kind''),
      hatch_PatchType = read_string (go_field v ''patchType''),
      hatch_Patch = read_string (go_field v ''patch'')\<rparr>"

definition read_autoscaling :: "goval \<Rightarrow> AutoscalingSpec" where
  "read_autoscaling v =
     \<lparr>as_MinReplicas = read_int32 (go_field v ''minReplicas''),
      as_MaxReplicas = read_int32 (go_field v ''maxReplicas''),
      as_TargetCPUUtilizationPercentage = read_int32 (go_field v ''targetCPUUtilizationPercentage''),
      as_TargetMemoryUtilizationPercentage =
        read_int32 (go_field v ''targetMemoryUtilizationPercentage'')\<rparr>"

definition read_scheduling :: "goval \<Rightarrow> SchedulingSpec" where
  "read_scheduling v =
     \<lparr>sch_NodeSelector = map (\<lambda>(k, x). (k, read_string x)) (read_map (go_field v ''nodeSelector'')),
      sch_Affinity =
        (let a = go_field v ''affinity'' in
         \<lparr>aff_NodeAffinity = read_any (go_field a ''nodeAffinity''),
          aff_PodAffinity = read_any (go_field a ''podAffinity''),
          aff_PodAntiAffinity = read_any (go_field a ''podAntiAffinity'')\<rparr>),
      sch_TopologySpreadConstraints =
        map (\<lambda>x. case read_any x of Some j \<Rightarrow> j | None \<Rightarrow> JNull)
          (read_slice (go_field v ''topologySpreadConstraints''))\<rparr>"

definition read_pdb :: "goval \<Rightarrow> PDBSpec option" where
  "read_pdb v =
     (case read_intstr (go_field v ''minAvailable'') of
        None \<Rightarrow> None
      | Some mn \<Rightarrow>
          (case read_intstr (go_field v ''maxUnavailable'') of
             None \<Rightarrow> None
           | Some mx \<Rightarrow> Some \<lparr>pdbs_MinAvailable = mn, pdbs_MaxUnavailable = mx\<rparr>))"

definition decode_compute_spec :: "bool \<Rightarrow> json \<Rightarrow> ComputeSpec option" where
  "decode_compute_spec reuse doc =
     (case unmarshal reuse compute_spec_type doc (zero_value compute_spec_type) of
        (v, Some e) \<Rightarrow> None
      | (v, None) \<Rightarrow>
          (case read_pdb (go_field v ''podDisruptionBudget'') of
             None \<Rightarrow> None
           | Some pdb \<Rightarrow> Some
               \<lparr>cs_TargetRef = read_ref (go_field v ''targetRef''),
                cs_Autoscaling = read_autoscaling (go_field v ''autoscaling''),
                cs_Scheduling = read_scheduling (go_field v ''scheduling''),
                cs_PodDisruptionBudget = pdb,
                cs_EscapeHatches = map read_hatch (read_slice (go_field v ''escapeHatches''))\<rparr>))"

text \<open>It gives back what was encoded.\<close>

lemma go_field_simps [simp]:
  "go_field (VStruct []) n = VAny None"
  "go_field (VStruct ((m, oe, x) # vs)) n = (if m = n then x else go_field (VStruct vs) n)"
  by (simp_all add: go_field_def)

lemma read_intstr_json: "proper_intstr v \<Longrightarrow> read_intstr (VAny (Some (intstr_json v))) = Some v"
  by (cases v) (auto simp: read_intstr_def intstr_json_def proper_intstr_def int32_fits)

lemma read_value:
  "read_ref (ref_value x1) = x1" "read_hatch (hatch_value x2) = x2"
  "read_autoscaling (autoscaling_value x3) = x3" "read_scheduling (scheduling_value x4) = x4"
  "proper_intstr (pdbs_MinAvailable x5) \<Longrightarrow> proper_intstr (pdbs_MaxUnavailable x5) \<Longrightarrow>
     read_pdb (pdb_value x5) = Some x5"
  by (simp_all add: read_ref_def ref_value_def read_hatch_def hatch_value_def read_autoscaling_def
      autoscaling_value_def read_scheduling_def scheduling_value_def read_pdb_def pdb_value_def
      read_intstr_json comp_def case_prod_unfold)

lemma decode_encoded:
  assumes "wire_spec spec"
  shows "decode_compute_spec reuse (marshal (compute_spec_value spec)) = Some spec"
proof -
  have "map read_hatch (map hatch_value hs) = hs" for hs by (simp add: comp_def read_value)
  moreover have "proper_intstr (pdbs_MinAvailable (cs_PodDisruptionBudget spec))"
    "proper_intstr (pdbs_MaxUnavailable (cs_PodDisruptionBudget spec))"
    using assms by (simp_all add: wire_spec_def)
  ultimately show ?thesis
    using unmarshal_marshal(1) [OF canonical_compute_spec [OF assms], of reuse]
    by (simp add: decode_compute_spec_def compute_spec_value_def read_value)
qed

text \<open>
  What the API server admits and stores: the document satisfies the schema, and members the
  schema does not know have been pruned.
\<close>

definition admitted_document :: "json \<Rightarrow> bool" where
  "admitted_document doc \<longleftrightarrow> compute_schema doc \<and> known_members compute_spec_type doc \<and>
     (case json_member ''autoscaling'' doc of
        None \<Rightarrow> True | Some sec \<Rightarrow> known_members autoscaling_type sec)"

lemma sint_of_fitting: "int_fits 32 n \<Longrightarrow> sint (word_of_int n :: 32 word) = n"
  by (simp add: int_fits_def int_word_sint)

text \<open>The maximum of an admitted Compute: at least one with the section, zero without.\<close>

lemma admitted_maximum:
  assumes "admitted_document doc" and "decode_compute_spec reuse doc = Some spec"
  shows "case json_member ''autoscaling'' doc of
      None \<Rightarrow> as_MaxReplicas (cs_Autoscaling spec) = 0
    | Some sec \<Rightarrow> 0 <s as_MaxReplicas (cs_Autoscaling spec)"
proof -
  let ?fs = "[(''targetRef'', True, ref_type), (''autoscaling'', True, autoscaling_type),
      (''scheduling'', True, scheduling_type), (''podDisruptionBudget'', True, pdb_type),
      (''escapeHatches'', True, GSlice hatch_type)]"
  let ?as = "[(''minReplicas'', True, GInt 32), (''maxReplicas'', False, GInt 32),
      (''targetCPUUtilizationPercentage'', True, GInt 32),
      (''targetMemoryUtilizationPercentage'', True, GInt 32)]"
  have T: "compute_spec_type = GStruct ?fs" "autoscaling_type = GStruct ?as"
    by (simp_all add: compute_spec_type_def autoscaling_type_def)
  from assms(1) obtain kvs where kvs: "doc = JObj kvs" "distinct (map fst kvs)" "fst ` set kvs \<subseteq> fst ` set ?fs"
    unfolding admitted_document_def known_members_def T(1) by (auto split: json.splits)
  from assms(2) obtain ws where ws: "unmarshal_fields reuse ?fs kvs (zero_fields ?fs) = (ws, None)"
    and a: "cs_Autoscaling spec = read_autoscaling (go_field (VStruct ws) ''autoscaling'')"
    unfolding decode_compute_spec_def T(1) kvs(1)
    by (auto split: prod.splits option.splits)
  have f: "find_field ?fs ''autoscaling'' = Some (''autoscaling'', autoscaling_type)"
    and z: "struct_field (zero_fields ?fs) ''autoscaling'' = Some (zero_value autoscaling_type)"
    by (simp_all add: find_field_def)
  obtain x where x: "struct_field ws ''autoscaling'' = Some x"
    "case map_of kvs ''autoscaling'' of None \<Rightarrow> x = zero_value autoscaling_type
     | Some j \<Rightarrow> unmarshal reuse autoscaling_type j (zero_value autoscaling_type) = (x, None)"
    by (rule unmarshal_fields_at [OF ws kvs(2,3) f z])
  from x(1) a have spec: "cs_Autoscaling spec = read_autoscaling x" by (simp add: go_field_def)
  show ?thesis
  proof (cases "map_of kvs ''autoscaling''")
    case None
    with x(2) have "x = zero_value autoscaling_type" by simp
    with spec None show ?thesis
      by (simp add: kvs(1) json_member_def T(2) read_autoscaling_def)
  next
    case (Some sec)
    with assms(1) obtain avs m where avs: "sec = JObj avs" "distinct (map fst avs)"
      "fst ` set avs \<subseteq> fst ` set ?as" "map_of avs ''maxReplicas'' = Some (JNum m)" "1 \<le> m"
      unfolding admitted_document_def known_members_def T(2) compute_schema_def kvs(1)
      by (auto simp: json_member_def split: json.splits option.splits)
    from x(2) Some avs(1) obtain us where
      us: "unmarshal_fields reuse ?as avs (zero_fields ?as) = (us, None)" "x = VStruct us"
      unfolding T(2) by (auto split: prod.splits)
    have f: "find_field ?as ''maxReplicas'' = Some (''maxReplicas'', GInt 32)"
      and z: "struct_field (zero_fields ?as) ''maxReplicas'' = Some (VInt 0)"
      by (simp_all add: find_field_def)
    obtain y where y: "struct_field us ''maxReplicas'' = Some y"
      "case map_of avs ''maxReplicas'' of None \<Rightarrow> y = VInt 0
       | Some j \<Rightarrow> unmarshal reuse (GInt 32) j (VInt 0) = (y, None)"
      by (rule unmarshal_fields_at [OF us(1) avs(2,3) f z])
    from y(2) avs(4) have "y = VInt m" "int_fits 32 m" by (simp_all split: if_splits)
    with y(1) us(2) spec avs(5) have "1 \<le> sint (as_MaxReplicas (cs_Autoscaling spec))"
      by (simp add: read_autoscaling_def go_field_def sint_of_fitting)
    with Some show ?thesis by (simp add: kvs(1) json_member_def word_sless_alt)
  qed
qed

section \<open>A server that validates\<close>

text \<open>
  \<open>validating\<close>: whatever a create-or-update call leaves in the store was there before or
  satisfies the schema.  \<open>admit\<close> adds validation to a client; it keeps the store laws.
\<close>

definition validating ::
    "('s, 'a) api \<Rightarrow> ('s \<Rightarrow> key \<Rightarrow> 'a option) \<Rightarrow> ('a \<Rightarrow> bool) \<Rightarrow> bool" where
  "validating api view ok \<longleftrightarrow>
     (\<forall>x f s r s' k y. run_state (api_createOrUpdate api x f) s = (r, s') \<longrightarrow>
        view s' k = Some y \<longrightarrow> view s k = Some y \<or> ok y)"

definition admit :: "('a \<Rightarrow> bool) \<Rightarrow> ('s, 'a) api \<Rightarrow> ('s, 'a) api" where
  "admit ok api = api\<lparr>api_createOrUpdate := (\<lambda>x f. api_createOrUpdate api x
     (\<lambda>z. bind_sum (f z) (\<lambda>y. if ok y then Inr y else Inl (LibError ''Invalid''))))\<rparr>"

lemma admit_sel [simp]:
  "api_get (admit ok api) = api_get api" "api_list (admit ok api) = api_list api"
  "api_delete (admit ok api) = api_delete api" "api_patch (admit ok api) = api_patch api"
  "api_createOrUpdate (admit ok api) x f = api_createOrUpdate api x
     (\<lambda>z. bind_sum (f z) (\<lambda>y. if ok y then Inr y else Inl (LibError ''Invalid'')))"
  by (simp_all add: admit_def)

lemma admit_Inr:
  "bind_sum (f z) (\<lambda>y. if ok y then Inr y else Inl e) = Inr y \<longleftrightarrow> f z = Inr y \<and> ok y"
  by (cases "f z") auto

lemma admit_store:
  assumes "object_store api view nf"
  shows "object_store (admit ok api) view nf"
proof (rule object_store.intro, goal_cases)
  case (1 s k x) then show ?case by (rule object_store.view_key [OF assms])
next
  case (2 k) show ?case using object_store.get_view [OF assms] by simp
next
  case (3 k s x s') then show ?case using object_store.get_found [OF assms] by simp
next
  case (4 k s e s') then show ?case using object_store.get_missing [OF assms] by simp
next
  case (5 ns) show ?case using object_store.list_view [OF assms] by simp
next
  case (6 ns s xs s') then show ?case using object_store.list_found [OF assms] by simp
next
  case (7 x s s') then show ?case using object_store.delete_ok [OF assms] by simp
next
  case (8 x s e s') then show ?case using object_store.delete_err [OF assms] by simp
next
  case (9 x f s s') then show ?case using object_store.cou_ok [OF assms] by (fastforce simp: admit_Inr)
next
  case (10 x f s e s')
  then show ?case using object_store.cou_err [OF assms] by (fastforce simp: admit_Inr)
next
  case (11 new old s s') then show ?case using object_store.patch_ok [OF assms] by simp
next
  case (12 new old s e s') then show ?case using object_store.patch_err [OF assms] by simp
next
  case (13 new old s r s' k) then show ?case using object_store.patch_frame [OF assms] by simp
qed

lemma admit_stores:
  assumes "owner_child_stores oapi oview capi cview nf"
  shows "owner_child_stores oapi oview (admit ok capi) cview nf"
  using assms admit_store
  by (auto simp: owner_child_stores_def owner_child_stores_axioms_def foreign_to_def)

lemma admit_validating:
  assumes "object_store api view nf"
  shows "validating (admit ok api) view ok"
proof (unfold validating_def, intro allI impI)
  fix x f s r s' k y
  assume run: "run_state (api_createOrUpdate (admit ok api) x f) s = (r, s')" and y: "view s' k = Some y"
  show "view s k = Some y \<or> ok y"
    by (rule object_store.cou_cases [OF assms run [unfolded admit_sel]])
      (use y in \<open>auto simp: admit_Inr split: if_splits\<close>)
qed

section \<open>Correctness\<close>

text \<open>
  C36: A Workload that asks for compute features other than autoscaling cannot get them: when
  the API server enforces the schema, a run of the compute controller for a Workload whose
  maximum number of replicas is not positive, in particular one that leaves the section
  \<^verbatim>\<open>autoscaling\<close> out, fails, and the Compute it should create is not there afterwards.
\<close>

theorem workload_without_autoscaling_rejected:
  assumes "owner_child_stores oapi oview capi cview (lib_IsNotFound L)" and "runtime_lib L"
    and "validating capi cview (\<lambda>c. compute_schema (marshal (compute_spec_value (obj_Spec c))))"
    and "run_state (WorkloadComputeReconciler_Reconcile L oapi capi req) s = (r, s')"
    and "oview s req = Some w"
    and "ref_Namespace (ws_TargetRef (obj_Spec w)) \<noteq> ''''"
    and "ref_Resource (cs_TargetRef (ws_Compute (obj_Spec w))) \<noteq> ''''"
    and "\<not> 0 <s as_MaxReplicas (cs_Autoscaling (ws_Compute (obj_Spec w)))"
    and "cview s (ref_Namespace (ws_TargetRef (obj_Spec w)), workload_compute_name w) = None"
  shows "r \<noteq> None \<and>
    cview s' (ref_Namespace (ws_TargetRef (obj_Spec w)), workload_compute_name w) = None"
proof -
  let ?k = "(ref_Namespace (ws_TargetRef (obj_Spec w)), workload_compute_name w)"
  note R = workload_compute.pure_run [OF assms(1,2)]
  note O = owner_child_stores.axioms(1) [OF assms(1)]
  note C = owner_child_stores.axioms(2) [OF assms(1)]
  have w: "\<not> workload_unplaced w" "workload_wants_compute w" "key_of (target_Compute w) = ?k"
    using assms(6,7)
    by (simp_all add: workload_unplaced_def workload_wants_compute_def target_Compute_def)
  from assms(4) show ?thesis
  proof (cases rule: workload_compute.reconcile_cases)
    case (owner_error e)
    then show ?thesis
      using assms(5,9) object_store.get_missing [OF O] runtime_lib.ignore_not_found [OF assms(2)]
        owner_child_stores.owner_get_cview [OF assms(1)]
      by (metis option.distinct(1))
  next
    case (upserted v t p u)
    have [simp]: "v = w" using object_store.get_found [OF O upserted(1)] assms(5) by simp
    have t: "cview t = cview s" using owner_child_stores.owner_get_cview [OF assms(1) upserted(1)] .
    have [simp]: "u = t" using upserted(4) by simp
    note run = upserted(5)
    show ?thesis
    proof (rule object_store.cou_cases [OF C run], goal_cases)
      case 1
      then show ?thesis using t assms(9) by simp
    next
      case (2 y)
      then obtain x where "workload_compute_mutate L w x = Inr y" by auto
      from runtime_lib.set_owner_InrD(2) [OF assms(2) workload_compute.mutate_InrE [OF this]]
      have "\<not> compute_schema (marshal (compute_spec_value (obj_Spec y)))"
        using assms(8) by (simp add: compute_schema_iff workload_compute_spec_def)
      moreover have "cview s' ?k = Some y" using 2(3) w(3) by simp
      then have "cview t ?k = Some y \<or> compute_schema (marshal (compute_spec_value (obj_Spec y)))"
        using assms(3)[unfolded validating_def, rule_format, OF run] by simp
      ultimately show ?thesis using t assms(9) by simp
    qed
  qed (use w assms(5) object_store.get_found [OF O] in fastforce)+
qed

definition plain_workload :: Workload where
  "plain_workload =
     sample_workload\<lparr>obj_Spec := (obj_Spec sample_workload)\<lparr>ws_Compute :=
       sample_ComputeSpec\<lparr>cs_Autoscaling := zero_AutoscalingSpec\<rparr>\<rparr>\<rparr>"

theorem workload_without_autoscaling_rejected_witness:
  "fst (run_state (WorkloadComputeReconciler_Reconcile mem_lib workloads_api
     (admit (\<lambda>c. compute_schema (marshal (compute_spec_value (obj_Spec c)))) computes_api)
     ('''', ''front'')) (sample_cluster\<lparr>cl_workloads := [plain_workload]\<rparr>)) \<noteq> None"
proof -
  let ?c = "sample_cluster\<lparr>cl_workloads := [plain_workload]\<rparr>"
  have w: "workloads_view ?c ('''', ''front'') = Some plain_workload" by code_simp
  have f: "ref_Namespace (ws_TargetRef (obj_Spec plain_workload)) = ''shop''"
    "workload_compute_name plain_workload = ''front-compute''"
    "ref_Resource (cs_TargetRef (ws_Compute (obj_Spec plain_workload))) \<noteq> ''''"
    "\<not> 0 <s as_MaxReplicas (cs_Autoscaling (ws_Compute (obj_Spec plain_workload)))"
    by (simp_all add: plain_workload_def sample_workload_def sample_ref_def sample_ComputeSpec_def
        zero_AutoscalingSpec_def workload_compute_name_def dashed_def)
  have none: "computes_view ?c (''shop'', ''front-compute'') = None" by code_simp
  from workload_without_autoscaling_rejected [OF admit_stores [OF workloads_computes_stores],
      OF mem_lib.runtime_lib_axioms, OF admit_validating [OF mem_computes.object_store_axioms],
      OF run_state_outcome [OF refl], OF w, unfolded f(1,2), OF _ f(3,4) none]
  show ?thesis by simp
qed

text \<open>The bounds the autoscaling API puts on a HorizontalPodAutoscaler.\<close>

definition hpa_in_bounds :: "HorizontalPodAutoscaler \<Rightarrow> bool" where
  "hpa_in_bounds h \<longleftrightarrow>
     1 \<le> sint (hpa_MaxReplicas (obj_Spec h)) \<and>
     (case hpa_MinReplicas (obj_Spec h) of None \<Rightarrow> True | Some n \<Rightarrow> 1 \<le> sint n) \<and>
     length (hpa_Metrics (obj_Spec h)) \<le> 2 \<and>
     list_all (\<lambda>m. case ms_Resource m of
         None \<Rightarrow> False
       | Some r \<Rightarrow> (case mt_AverageUtilization (rms_Target r) of None \<Rightarrow> False | Some v \<Rightarrow> 0 < sint v))
       (hpa_Metrics (obj_Spec h))"

lemma hpa_fill_in_bounds:
  assumes "0 <s as_MaxReplicas (cs_Autoscaling spec)"
  shows "hpa_in_bounds (x\<lparr>obj_Spec := hpa_fill spec h\<rparr>)"
  using assms
  by (simp add: hpa_in_bounds_def hpa_fill_def hpa_metrics_def utilization_metric_def word_sless_alt Let_def)

lemma hpa_in_bounds_cong: "obj_Spec y = obj_Spec x \<Longrightarrow> hpa_in_bounds y = hpa_in_bounds x"
  by (simp add: hpa_in_bounds_def)

text \<open>
  C14: The validation of the Compute carries over to the autoscaler.  Let every stored Compute
  come from a document that the API server admits, with or without the optional section
  \<^verbatim>\<open>autoscaling\<close>, and have no escape hatch for the autoscaler.  Then a run of the autoscaler
  controller, however it fails, keeps every autoscaler within its bounds: at least one replica
  as maximum, a minimum that is absent or at least one, at most two metrics, each with a
  positive utilization.  And an autoscaler disappears only if it is the one of the Compute the
  run is about, and no document of that Compute has the section.
\<close>

theorem admitted_autoscaler_bounds:
  assumes "owner_child_stores oapi oview capi cview (lib_IsNotFound L)" and "runtime_lib L"
    and "run_state (HPAReconciler_Reconcile L cod oapi capi req) s = (r, s')"
    and "all_stored (oview s) (\<lambda>c.
      (\<exists>doc. admitted_document doc \<and> decode_compute_spec reuse doc = Some (obj_Spec c)) \<and>
      hatches_for ''HorizontalPodAutoscaler'' (cs_EscapeHatches (obj_Spec c)) = [])"
    and "all_stored (cview s) hpa_in_bounds"
  shows "all_stored (cview s') hpa_in_bounds \<and>
    (cview s k \<noteq> None \<and> cview s' k = None \<longrightarrow>
      (\<exists>w. oview s req = Some w \<and> k = (om_Namespace (obj_Meta w), hpa_name w) \<and>
        (\<forall>doc. admitted_document doc \<and> decode_compute_spec reuse doc = Some (obj_Spec w) \<longrightarrow>
          json_member ''autoscaling'' doc = None)))"
  using assms(1-3)
proof (cases rule: hpa.pure_outcome)
  case same
  with assms(5) show ?thesis by auto
next
  case (removed w)
  have "json_member ''autoscaling'' doc = None"
    if "admitted_document doc" "decode_compute_spec reuse doc = Some (obj_Spec w)" for doc
    using admitted_maximum [OF that] removed(2)
    by (auto simp: hpa_enabled_def word_sless_alt split: option.splits)
  with removed(1,3) all_stored_del [OF assms(5)] show ?thesis by (auto split: if_splits)
next
  case (stored w x y)
  from all_storedD [OF assms(4) stored(1)] obtain doc where
    doc: "admitted_document doc" "decode_compute_spec reuse doc = Some (obj_Spec w)"
    and hf: "hatches_for ''HorizontalPodAutoscaler'' (cs_EscapeHatches (obj_Spec w)) = []" by blast
  from admitted_maximum [OF doc] stored(2) have "0 <s as_MaxReplicas (cs_Autoscaling (obj_Spec w))"
    by (simp add: hpa_enabled_def split: option.splits)
  from hpa_fill_in_bounds [OF this]
    runtime_lib.set_owner_InrD(2) [OF assms(2) stored(3) [unfolded hpa_mutate_plain [OF hf]]]
  have "hpa_in_bounds y" using hpa_in_bounds_cong by blast
  with assms(5) stored(4) show ?thesis by (auto simp: all_stored_upd)
qed

theorem admitted_autoscaler_bounds_witness:
  "all_stored (hpas_view (snd sample_hpa_run)) hpa_in_bounds"
proof -
  let ?doc = "marshal (compute_spec_value sample_ComputeSpec)"
  have "wire_spec sample_ComputeSpec" by code_simp
  from decode_encoded [OF this] have d: "decode_compute_spec False ?doc = Some sample_ComputeSpec" .
  have a: "admitted_document ?doc" by code_simp
  have stored: "all_stored (computes_view sample_cluster)
      (\<lambda>c. (\<exists>doc. admitted_document doc \<and> decode_compute_spec False doc = Some (obj_Spec c)) \<and>
        hatches_for ''HorizontalPodAutoscaler'' (cs_EscapeHatches (obj_Spec c)) = [])"
  proof (rule all_storedI)
    fix k c assume "computes_view sample_cluster k = Some c"
    then have "c = sample_compute"
      by (auto simp: mem_view_def sample_cluster_def empty_cluster_def dest: lookup_mem)
    then have "obj_Spec c = sample_ComputeSpec" "cs_EscapeHatches (obj_Spec c) = []"
      by (simp_all add: sample_compute_def sample_ComputeSpec_def)
    with a d show "(\<exists>doc. admitted_document doc \<and> decode_compute_spec False doc = Some (obj_Spec c)) \<and>
        hatches_for ''HorizontalPodAutoscaler'' (cs_EscapeHatches (obj_Spec c)) = []" by auto
  qed
  have none: "all_stored (hpas_view sample_cluster) hpa_in_bounds"
    by (auto intro!: all_storedI dest!: lookup_mem
        simp: mem_view_def sample_cluster_def empty_cluster_def sample_hpa_def zero_HPASpec_def hpa_in_bounds_def)
  show ?thesis
    using admitted_autoscaler_bounds [OF computes_hpas_stores, OF mem_lib.runtime_lib_axioms,
        OF run_state_outcome [OF refl], OF stored none] by blast
qed

end
