(* ===== verification/PDB_Controller.thy ===== *)
theory PDB_Controller
  imports HPA_Controller
begin

text \<open>
  \<^verbatim>\<open>internal/controller/compute/pdb_controller.go\<close>: the disruption budget of a Compute.  Unlike
  the other child controllers it reads a third kind first: the selector of the target
  Deployment.  \<open>pdb_prepare\<close> is that read, whose errors the code drops.
\<close>

section \<open>The callback\<close>

text \<open>A field counts as set when it is a positive integer or a non-empty string.\<close>

definition intstr_set :: "IntOrString \<Rightarrow> bool" where
  "intstr_set v \<longleftrightarrow> 0 <s ios_IntVal v \<or> ios_StrVal v \<noteq> ''''"

definition has_PDB :: "Compute \<Rightarrow> bool" where
  "has_PDB compute \<longleftrightarrow>
     (let p = cs_PodDisruptionBudget (obj_Spec compute) in
      0 <s ios_IntVal (pdbs_MinAvailable p) \<or> ios_StrVal (pdbs_MinAvailable p) \<noteq> '''' \<or>
      0 <s ios_IntVal (pdbs_MaxUnavailable p) \<or> ios_StrVal (pdbs_MaxUnavailable p) \<noteq> '''')"

definition pdb_selector :: "ComputeSpec \<Rightarrow> Deployment option \<Rightarrow> LabelSelector" where
  "pdb_selector spec deploy =
     (case deploy of
        Some d \<Rightarrow>
          (case dep_Selector (obj_Spec d) of
             Some sel \<Rightarrow> sel
           | None \<Rightarrow> \<lparr>ls_MatchLabels = [(''app'', ref_Resource (cs_TargetRef spec))], ls_rest = JNull\<rparr>)
      | None \<Rightarrow> \<lparr>ls_MatchLabels = [(''app'', ref_Resource (cs_TargetRef spec))], ls_rest = JNull\<rparr>)"

definition pdb_fill ::
    "ComputeSpec \<Rightarrow> Deployment option \<Rightarrow> PodDisruptionBudgetSpec \<Rightarrow> PodDisruptionBudgetSpec" where
  "pdb_fill spec deploy b =
     (let p = cs_PodDisruptionBudget spec;
          b = b\<lparr>pdb_Selector := Some (pdb_selector spec deploy)\<rparr>
      in if 0 <s ios_IntVal (pdbs_MinAvailable p) \<or> ios_StrVal (pdbs_MinAvailable p) \<noteq> '''' then
           b\<lparr>pdb_MinAvailable := Some (pdbs_MinAvailable p), pdb_MaxUnavailable := None\<rparr>
         else if 0 <s ios_IntVal (pdbs_MaxUnavailable p) \<or> ios_StrVal (pdbs_MaxUnavailable p) \<noteq> '''' then
           b\<lparr>pdb_MaxUnavailable := Some (pdbs_MaxUnavailable p), pdb_MinAvailable := None\<rparr>
         else b)"

definition pdb_mutate ::
    "lib \<Rightarrow> PodDisruptionBudget codec \<Rightarrow> Compute \<Rightarrow> Deployment option \<Rightarrow> PodDisruptionBudget \<Rightarrow>
     go_error + PodDisruptionBudget" where
  "pdb_mutate L cod compute deploy targetPDB =
     (case set_owner L ''Compute'' compute
             (targetPDB\<lparr>obj_Spec := pdb_fill (obj_Spec compute) deploy (obj_Spec targetPDB)\<rparr>) of
        Inl err \<Rightarrow> Inl err
      | Inr targetPDB \<Rightarrow>
          (case ApplyEscapeHatches L cod targetPDB (cs_EscapeHatches (obj_Spec compute))
                  ''PodDisruptionBudget'' of
             Inl err \<Rightarrow> Inl err
           | Inr patchedPDBObj \<Rightarrow> Inr patchedPDBObj))"

section \<open>The handler\<close>

definition pdb_name :: "Compute \<Rightarrow> string" where
  "pdb_name compute = dashed (om_Name (obj_Meta compute)) ''pdb''"

definition target_PDB :: "Compute \<Rightarrow> PodDisruptionBudget" where
  "target_PDB compute =
     named_object (pdb_name compute) (om_Namespace (obj_Meta compute)) zero_PDBSpec JNull"

text \<open>
  \<^verbatim>\<open>deploy\<close> and \<^verbatim>\<open>deployFound\<close>: \<open>None\<close> is a Deployment that was not looked for, or whose read
  failed, for whatever reason.
\<close>

definition pdb_prepare :: "('s, Deployment) api \<Rightarrow> Compute \<Rightarrow> ('s, Deployment option) state" where
  "pdb_prepare deploys compute =
     (if ref_Kind (cs_TargetRef (obj_Spec compute)) = ''Deployment'' then do {
        g \<leftarrow> api_get deploys (om_Namespace (obj_Meta compute),
                              ref_Resource (cs_TargetRef (obj_Spec compute)));
        (case g of
           Inl _ \<Rightarrow> State_Monad.return None
         | Inr deploy \<Rightarrow> State_Monad.return (Some deploy))
      }
      else State_Monad.return None)"

definition PDBReconciler_Reconcile ::
    "lib \<Rightarrow> PodDisruptionBudget codec \<Rightarrow> ('s, Deployment) api \<Rightarrow> ('s, Compute) api \<Rightarrow>
     ('s, PodDisruptionBudget) api \<Rightarrow> key \<Rightarrow> ('s, go_error option) state" where
  "PDBReconciler_Reconcile L cod deploys computes pdbs req = do {
     r \<leftarrow> api_get computes req;
     (case r of
        Inl err \<Rightarrow> State_Monad.return (lib_IgnoreNotFound L err)
      | Inr compute \<Rightarrow>
          if ref_Resource (cs_TargetRef (obj_Spec compute)) = '''' then State_Monad.return None
          else if \<not> has_PDB compute then do {
            g \<leftarrow> api_get pdbs (om_Namespace (obj_Meta compute), pdb_name compute);
            (case g of
               Inl _ \<Rightarrow> State_Monad.return None
             | Inr pdb \<Rightarrow> do {
                 err \<leftarrow> api_delete pdbs pdb;
                 (case err of Some err \<Rightarrow> State_Monad.return (Some err)
                  | None \<Rightarrow> State_Monad.return None)
               })
          }
          else do {
            deploy \<leftarrow> pdb_prepare deploys compute;
            err \<leftarrow> api_createOrUpdate pdbs (target_PDB compute) (pdb_mutate L cod compute deploy);
            (case err of Some err \<Rightarrow> State_Monad.return (Some err)
             | None \<Rightarrow> State_Monad.return None)
          })
   }"

definition PDBReconciler_SetupWithManager :: controller_setup where
  "PDBReconciler_SetupWithManager =
     \<lparr>setup_For = ''Compute'', setup_Owns = [''PodDisruptionBudget''],
      setup_Watches = [], setup_Named = ''compute-pdb''\<rparr>"

section \<open>The contract\<close>

lemma key_of_target_PDB [simp]:
  "key_of (target_PDB c) = (om_Namespace (obj_Meta c), pdb_name c)"
  by (simp add: target_PDB_def)

lemma has_PDB_alt:
  "has_PDB c \<longleftrightarrow> intstr_set (pdbs_MinAvailable (cs_PodDisruptionBudget (obj_Spec c))) \<or>
     intstr_set (pdbs_MaxUnavailable (cs_PodDisruptionBudget (obj_Spec c)))"
  by (auto simp: has_PDB_def intstr_set_def Let_def)

lemma pdb_fill_alt:
  "pdb_fill spec deploy b =
     (let p = cs_PodDisruptionBudget spec;
          b = b\<lparr>pdb_Selector := Some (pdb_selector spec deploy)\<rparr>
      in if intstr_set (pdbs_MinAvailable p) then
           b\<lparr>pdb_MinAvailable := Some (pdbs_MinAvailable p), pdb_MaxUnavailable := None\<rparr>
         else if intstr_set (pdbs_MaxUnavailable p) then
           b\<lparr>pdb_MaxUnavailable := Some (pdbs_MaxUnavailable p), pdb_MinAvailable := None\<rparr>
         else b)"
  by (simp add: pdb_fill_def intstr_set_def Let_def)

lemma pdb_fill_idem: "pdb_fill spec d (pdb_fill spec d b) = pdb_fill spec d b"
  by (simp add: pdb_fill_def Let_def)

lemma pdb_mutate_plain:
  assumes "hatches_for ''PodDisruptionBudget'' (cs_EscapeHatches (obj_Spec w)) = []"
  shows "pdb_mutate L cod w d x =
    set_owner L ''Compute'' w (x\<lparr>obj_Spec := pdb_fill (obj_Spec w) d (obj_Spec x)\<rparr>)"
  using assms by (auto simp: pdb_mutate_def split: sum.splits)

interpretation pdb: child_controller L "PDBReconciler_Reconcile L cod dapi" compute_unnamed
    has_PDB target_PDB "pdb_prepare dapi" "pdb_mutate L cod"
  by unfold_locales
    (simp add: PDBReconciler_Reconcile_def child_reconcile_def compute_unnamed_def
      cong: sum.case_cong if_cong)

text \<open>What the read finds when nothing disturbs it, for the Deployments \<open>v\<close>.\<close>

definition deployed :: "(key \<Rightarrow> Deployment option) \<Rightarrow> Compute \<Rightarrow> Deployment option" where
  "deployed v w =
     (if ref_Kind (cs_TargetRef (obj_Spec w)) = ''Deployment''
      then v (om_Namespace (obj_Meta w), ref_Resource (cs_TargetRef (obj_Spec w))) else None)"

text \<open>
  The environment: the stores of the Compute and of the budget, and the client of the
  Deployments, which does not touch either.
\<close>

locale pdb_environment =
  owner_child_stores oapi oview capi cview nf +
  D: object_store dapi dview nf
  for oapi :: "('s, Compute) api" and oview
    and capi :: "('s, PodDisruptionBudget) api" and cview
    and dapi :: "('s, Deployment) api" and dview
    and nf +
  assumes deploys_foreign: "foreign_to dapi oview" "foreign_to dapi cview"
    and computes_foreign: "foreign_to oapi dview"
begin

lemma prepare_preserves:
  "preserves oview (pdb_prepare dapi w)" "preserves cview (pdb_prepare dapi w)"
  unfolding pdb_prepare_def
  by (intro preserves_if preserves_bind preserves_case_sum preserves_return
      foreign_toD(1) deploys_foreign)+

lemma pdb_run:
  assumes "runtime_lib L" and "nf = lib_IsNotFound L"
  shows "child_controller_run L (PDBReconciler_Reconcile L cod dapi) compute_unnamed has_PDB
    target_PDB (pdb_prepare dapi) (pdb_mutate L cod) oapi oview capi cview"
proof -
  have "owner_child_stores oapi oview capi cview (lib_IsNotFound L)"
    using owner_child_stores_axioms assms(2) by simp
  then show ?thesis
    by (intro child_controller_run.intro child_controller_run_axioms.intro
        pdb.child_controller_axioms assms prepare_preserves)
qed

text \<open>A successful run stored the callback's result, for what the read of the Deployment gave.\<close>

lemma pdb_success:
  assumes "runtime_lib L" and nf: "nf = lib_IsNotFound L"
    and run: "run_state (PDBReconciler_Reconcile L cod dapi oapi capi req) s = (None, s')"
    and w: "oview s req = Some w" "\<not> compute_unnamed w" "has_PDB w"
  obtains d t u y where "run_state (api_get oapi req) s = (Inr w, t)"
    "run_state (pdb_prepare dapi w) t = (d, u)"
    "pdb_mutate L cod w d (current (cview s) (key_of (target_PDB w)) (target_PDB w)) = Inr y"
    "cview s' = (cview s)(key_of (target_PDB w) \<mapsto> y)"
    "d = None \<or> d = deployed (dview s) w"
proof -
  obtain t d u y where r: "run_state (api_get oapi req) s = (Inr w, t)"
    "run_state (pdb_prepare dapi w) t = (d, u)"
    "pdb_mutate L cod w d (current (cview s) (key_of (target_PDB w)) (target_PDB w)) = Inr y"
    "cview s' = (cview s)(key_of (target_PDB w) \<mapsto> y)"
    by (rule child_controller_run.enabled_success [OF pdb_run [OF assms(1,2)] run w])
  have "dview t = dview s"
    using foreign_toD(1) [OF computes_foreign] r(1) by (rule preservesD)
  with r(2) have "d = None \<or> d = deployed (dview s) w"
    by (auto simp: pdb_prepare_def deployed_def dest: D.get_found split: if_splits sum.splits prod.splits)
  with r show thesis by (rule that)
qed

end

locale pdb_healthy_environment =
  pdb_environment oapi oview capi cview dapi dview nf +
  healthy_stores oapi oview capi cview nf healthy +
  DH: healthy_store dapi dview nf healthy
  for oapi :: "('s, Compute) api" and oview
    and capi :: "('s, PodDisruptionBudget) api" and cview
    and dapi :: "('s, Deployment) api" and dview
    and nf and healthy
begin

lemma pdb_healthy:
  assumes "runtime_lib L" and nf: "nf = lib_IsNotFound L"
  shows "child_controller_healthy L (PDBReconciler_Reconcile L cod dapi) compute_unnamed has_PDB
    target_PDB (pdb_prepare dapi) (pdb_mutate L cod) oapi oview capi cview healthy"
proof -
  have "healthy_stores oapi oview capi cview (lib_IsNotFound L) healthy"
    using healthy_stores_axioms nf by simp
  moreover have "healthy s'" if "healthy s" "run_state (pdb_prepare dapi w) s = (p, s')" for s w p s'
    using that DH.healthy_get
    by (auto simp: pdb_prepare_def split: if_splits sum.splits prod.splits)
  ultimately show ?thesis
    by (intro child_controller_healthy.intro child_controller_healthy_axioms.intro
        pdb_run assms) auto
qed

lemma prepare_healthy:
  assumes "healthy t" and "run_state (pdb_prepare dapi w) t = (d, u)"
  shows "d = deployed (dview t) w"
  using assms DH.healthy_get
  by (cases "dview t (om_Namespace (obj_Meta w), ref_Resource (cs_TargetRef (obj_Spec w)))")
    (fastforce simp: pdb_prepare_def deployed_def split: if_splits sum.splits prod.splits)+

lemma pdb_refines_spec:
  assumes "runtime_lib L" and nf: "nf = lib_IsNotFound L" and h: "healthy s"
    and run: "run_state (PDBReconciler_Reconcile L cod dapi oapi capi req) s = (r, s')"
  shows "healthy s' \<and> oview s' = oview s \<and>
    (r = None, cview s') = child_spec compute_unnamed has_PDB target_PDB
      (\<lambda>w. pdb_mutate L cod w (deployed (dview s) w)) (oview s req) (cview s)"
proof (rule child_controller_healthy.refines_spec [OF pdb_healthy [OF assms(1,2)] h run])
  fix w t d u
  assume g: "run_state (api_get oapi req) s = (Inr w, t)"
    and d: "run_state (pdb_prepare dapi w) t = (d, u)"
  have "healthy t" using OH.healthy_get [OF h g] by simp
  moreover have "dview t = dview s"
    using foreign_toD(1) [OF computes_foreign] g by (rule preservesD)
  ultimately show "d = deployed (dview s) w" using prepare_healthy [OF _ d] by (simp add: deployed_def)
qed

text \<open>
  A run whose read of the Deployment fails goes on as if there were none, and what it makes of
  a budget the Compute controls is accepted.
\<close>

lemma failed_read_stored:
  assumes rt: "runtime_lib L" and nf: "nf = lib_IsNotFound L"
    and owner: "run_state (api_get oapi req) s = (Inr w, t)"
    and w: "ref_Kind (cs_TargetRef (obj_Spec w)) = ''Deployment''" "\<not> compute_unnamed w" "has_PDB w"
    and hf: "hatches_for ''PodDisruptionBudget'' (cs_EscapeHatches (obj_Spec w)) = []"
    and read: "run_state (api_get dapi
        (om_Namespace (obj_Meta w), ref_Resource (cs_TargetRef (obj_Spec w)))) t = (Inl e, u)"
    and h: "healthy u" and b: "cview s (key_of (target_PDB w)) = Some b"
    and own: "set_owner L ''Compute'' w b = Inr b"
    and run: "run_state (PDBReconciler_Reconcile L cod dapi oapi capi req) s = (r, s')"
  shows "r = None \<and> cview s' = (cview s)(key_of (target_PDB w) \<mapsto>
    b\<lparr>obj_Spec := pdb_fill (obj_Spec w) None (obj_Spec b)\<rparr>)"
proof -
  let ?f = "pdb_mutate L cod w None" and ?y = "b\<lparr>obj_Spec := pdb_fill (obj_Spec w) None (obj_Spec b)\<rparr>"
  have "run_state (pdb_prepare dapi w) t = (None, u)" using w(1) read by (simp add: pdb_prepare_def)
  with owner run w(2,3) have cou: "run_state (api_createOrUpdate capi (target_PDB w) ?f) u = (r, s')"
    by (simp add: PDBReconciler_Reconcile_def compute_unnamed_def)
  have "cview u = cview t" using foreign_toD(1) [OF deploys_foreign(2)] read by (rule preservesD)
  also have "\<dots> = cview s" using owner by (rule owner_get_cview)
  finally have v: "cview u = cview s" .
  have "?f b = Inr ?y"
    by (simp add: pdb_mutate_plain [OF hf] runtime_lib.set_owner_spec_update [OF rt] own)
  moreover have "key_of ?y = key_of (target_PDB w)" using C.view_key [OF b] by (simp add: key_of_def)
  ultimately show ?thesis using CH.healthy_cou_result [OF h cou] b
    by (simp add: v current_def)
qed

end

interpretation mem_pdb_env: pdb_healthy_environment computes_api computes_view pdbs_api pdbs_view
    deployments_api deployments_view mem_nf mem_healthy
  by unfold_locales
    (rule computes_deployments.child_foreign pdbs_deployments.child_foreign
      computes_deployments.owner_foreign)+

interpretation mem_pdb: child_controller_healthy mem_lib
    "PDBReconciler_Reconcile mem_lib cod deployments_api" compute_unnamed has_PDB target_PDB
    "pdb_prepare deployments_api" "pdb_mutate mem_lib cod" computes_api computes_view pdbs_api
    pdbs_view mem_healthy
  by (rule mem_pdb_env.pdb_healthy) (simp_all add: mem_lib.runtime_lib_axioms)

lemmas mem_pdb_env_laws = mem_pdb_env.pdb_environment_axioms [folded mem_lib_simps(2)]
lemmas mem_pdb_healthy_laws =
  mem_pdb_env.pdb_healthy_environment_axioms [folded mem_lib_simps(2)]

section \<open>Correctness\<close>

text \<open>
  C21: When a run of the disruption-budget controller reports success for a Compute that names
  a target and asks for a budget, and no escape hatch is meant for the budget, then the budget
  named after the Compute has exactly one of the two bounds, \<^verbatim>\<open>minAvailable\<close> if that is set in
  the Compute and \<^verbatim>\<open>maxUnavailable\<close> otherwise, with the Compute's value; it has a selector, keeps
  its other fields, and has the Compute as controller.
\<close>

theorem pdb_applied:
  assumes "pdb_environment oapi oview capi cview dapi dview (lib_IsNotFound L)"
    and "runtime_lib L"
    and "run_state (PDBReconciler_Reconcile L cod dapi oapi capi req) s = (None, s')"
    and "oview s req = Some w"
    and "ref_Resource (cs_TargetRef (obj_Spec w)) \<noteq> ''''" and "has_PDB w"
    and "hatches_for ''PodDisruptionBudget'' (cs_EscapeHatches (obj_Spec w)) = []"
  shows "\<exists>y d. cview s' = (cview s)((om_Namespace (obj_Meta w), pdb_name w) \<mapsto> y) \<and>
    (if intstr_set (pdbs_MinAvailable (cs_PodDisruptionBudget (obj_Spec w)))
     then pdb_MinAvailable (obj_Spec y) =
            Some (pdbs_MinAvailable (cs_PodDisruptionBudget (obj_Spec w))) \<and>
          pdb_MaxUnavailable (obj_Spec y) = None
     else pdb_MaxUnavailable (obj_Spec y) =
            Some (pdbs_MaxUnavailable (cs_PodDisruptionBudget (obj_Spec w))) \<and>
          pdb_MinAvailable (obj_Spec y) = None) \<and>
    pdb_Selector (obj_Spec y) = Some (pdb_selector (obj_Spec w) d) \<and>
    (d = None \<or> d = deployed (dview s) w) \<and>
    pdb_rest (obj_Spec y) =
      (case cview s (om_Namespace (obj_Meta w), pdb_name w) of
         None \<Rightarrow> JNull | Some x \<Rightarrow> pdb_rest (obj_Spec x)) \<and>
    (''Compute'', om_Name (obj_Meta w)) \<in> set (controllers_of (obj_Meta y))"
proof -
  have n: "\<not> compute_unnamed w" using assms(5) by (simp add: compute_unnamed_def)
  obtain d y
    where m: "pdb_mutate L cod w d (current (cview s) (key_of (target_PDB w)) (target_PDB w)) = Inr y"
      and st: "cview s' = (cview s)(key_of (target_PDB w) \<mapsto> y)"
      and d: "d = None \<or> d = deployed (dview s) w"
    by (rule pdb_environment.pdb_success [OF assms(1,2) refl assms(3,4) n assms(6)])
  note y = runtime_lib.set_owner_InrD(2,5) [OF assms(2) m [unfolded pdb_mutate_plain [OF assms(7)]]]
  show ?thesis
    using st y d assms(6) by (intro exI [of _ y] exI [of _ d])
      (auto simp: pdb_fill_alt has_PDB_alt current_def target_PDB_def zero_PDBSpec_def Let_def
        split: option.splits)
qed

abbreviation "sample_pdb_run c \<equiv>
  run_state (PDBReconciler_Reconcile mem_lib trivial_codec deployments_api computes_api pdbs_api
    (''shop'', ''front'')) c"

theorem pdb_applied_witness:
  "\<exists>y. pdbs_view (snd (sample_pdb_run sample_cluster)) (''shop'', ''front-pdb'') = Some y \<and>
     pdb_MaxUnavailable (obj_Spec y) = Some sample_percent \<and> pdb_MinAvailable (obj_Spec y) = None"
proof -
  have run: "sample_pdb_run sample_cluster = (None, snd (sample_pdb_run sample_cluster))"
    by (rule run_state_outcome) code_simp
  from pdb_applied [OF mem_pdb_env_laws, OF mem_lib.runtime_lib_axioms, OF run,
      OF sample_stored(2)]
  show ?thesis
    by (auto simp: sample_compute_def sample_ComputeSpec_def sample_ref_def pdb_name_def
        dashed_def has_PDB_def intstr_set_def sample_percent_def zero_IntOrString_def)
qed

text \<open>
  In the absence of faults a run of the disruption-budget controller is one step of its
  specification, in which the budget's selector is the one of the target Deployment in the
  Compute's own namespace, when the target is a Deployment that exists and has one, and the
  label \<^verbatim>\<open>app\<close> with the target's name otherwise.
\<close>

theorem pdb_refines:
  assumes "pdb_healthy_environment oapi oview capi cview dapi dview (lib_IsNotFound L) healthy"
    and "runtime_lib L" and "healthy s"
    and "run_state (PDBReconciler_Reconcile L cod dapi oapi capi req) s = (r, s')"
  shows "(r = None, cview s') =
      child_spec compute_unnamed has_PDB target_PDB
        (\<lambda>w. pdb_mutate L cod w (deployed (dview s) w)) (oview s req) (cview s) \<and>
    oview s' = oview s"
  using pdb_healthy_environment.pdb_refines_spec [OF assms(1,2) refl assms(3,4)] by blast

theorem pdb_refines_witness:
  "pdbs_view (snd (sample_pdb_run sample_cluster)) =
     snd (child_spec compute_unnamed has_PDB target_PDB
            (\<lambda>w. pdb_mutate mem_lib trivial_codec w (Some sample_deployment))
            (Some sample_compute) (pdbs_view sample_cluster))"
proof -
  have run: "sample_pdb_run sample_cluster = (None, snd (sample_pdb_run sample_cluster))"
    by (rule run_state_outcome) code_simp
  have d: "deployed (deployments_view sample_cluster) sample_compute = Some sample_deployment"
    by code_simp
  from pdb_refines [OF mem_pdb_healthy_laws, OF mem_lib.runtime_lib_axioms, OF sample_healthy,
      OF run, unfolded sample_stored(2)]
  show ?thesis by (simp add: child_spec_def d prod_eq_iff)
qed




end
