(* ===== verification/Target_Patcher.thy ===== *)
theory Target_Patcher
  imports Patch_Engine
begin

text \<open>
  The shape of the two controllers that change an existing Deployment instead of managing a
  child: \<^verbatim>\<open>internal/controller/compute/deployment_controller.go\<close> and its namesake under
  \<^verbatim>\<open>storage\<close>.  \<open>target_reconcile\<close> is the shape, \<open>target_spec\<close> the abstract step on the stores;
  the two component theories interpret \<open>target_patcher\<close> with their own handlers.
\<close>

section \<open>The common shape\<close>

text \<open>
  \<open>unnamed\<close>: the guard on the target reference; \<open>applies\<close>: the target is a Deployment;
  \<open>wanted\<close>: the owner asks for a change; \<open>target\<close>: the key of the Deployment; \<open>transform\<close>: the
  changed Deployment, escape hatches included; \<open>failed\<close>: the wrapping of an error of the
  patch call.
\<close>

definition target_reconcile ::
    "lib \<Rightarrow> ('s, 'o) api \<Rightarrow> ('s, 'd) api \<Rightarrow> ('o \<Rightarrow> bool) \<Rightarrow> ('o \<Rightarrow> bool) \<Rightarrow> ('o \<Rightarrow> bool) \<Rightarrow>
     ('o \<Rightarrow> key) \<Rightarrow> ('o \<Rightarrow> 'd \<Rightarrow> go_error + 'd) \<Rightarrow> (go_error \<Rightarrow> go_error) \<Rightarrow> key \<Rightarrow>
     ('s, go_error option) state" where
  "target_reconcile L oapi dapi unnamed applies wanted target transform failed req = do {
     r \<leftarrow> api_get oapi req;
     (case r of
        Inl err \<Rightarrow> State_Monad.return (lib_IgnoreNotFound L err)
      | Inr owner \<Rightarrow>
          if unnamed owner \<or> \<not> applies owner then State_Monad.return None
          else do {
            g \<leftarrow> api_get dapi (target owner);
            (case g of
               Inl err \<Rightarrow> State_Monad.return (if lib_IsNotFound L err then None else Some err)
             | Inr deploy \<Rightarrow>
                 if \<not> wanted owner then State_Monad.return None
                 else (case transform owner deploy of
                         Inl err \<Rightarrow> State_Monad.return (Some err)
                       | Inr patched \<Rightarrow> do {
                           err \<leftarrow> api_patch dapi patched deploy;
                           State_Monad.return (map_option failed err)
                         }))
          })
   }"

text \<open>The abstract step on the Deployments \<open>v\<close>, and whether it reports success.\<close>

definition target_spec ::
    "('o \<Rightarrow> bool) \<Rightarrow> ('o \<Rightarrow> bool) \<Rightarrow> ('o \<Rightarrow> bool) \<Rightarrow> ('o \<Rightarrow> key) \<Rightarrow> ('o \<Rightarrow> 'd \<Rightarrow> go_error + 'd) \<Rightarrow>
     'o option \<Rightarrow> (key \<Rightarrow> 'd option) \<Rightarrow> bool \<times> (key \<Rightarrow> 'd option)" where
  "target_spec unnamed applies wanted target transform owner v =
     (case owner of
        None \<Rightarrow> (True, v)
      | Some w \<Rightarrow>
          if unnamed w \<or> \<not> applies w \<or> \<not> wanted w then (True, v)
          else (case v (target w) of
                  None \<Rightarrow> (True, v)
                | Some d \<Rightarrow>
                    (case transform w d of
                       Inl e \<Rightarrow> (False, v)
                     | Inr d' \<Rightarrow> (True, v(target w \<mapsto> d')))))"

lemma target_reconcile_preserves:
  assumes "\<And>k. preserves v (api_get oapi k)" and "\<And>k. preserves v (api_get dapi k)"
    and "\<And>new old. preserves v (api_patch dapi new old)"
  shows "preserves v
    (target_reconcile L oapi dapi unnamed applies wanted target transform failed req)"
  unfolding target_reconcile_def
  by (intro preserves_bind preserves_case_sum preserves_if preserves_return assms)

lemma target_spec_idem:
  assumes "\<And>w d d'. owner = Some w \<Longrightarrow> transform w d = Inr d' \<Longrightarrow> transform w d' = Inr d'"
  shows "target_spec unnamed applies wanted target transform owner
      (snd (target_spec unnamed applies wanted target transform owner v)) =
    target_spec unnamed applies wanted target transform owner v"
  using assms by (auto simp: target_spec_def split: option.splits sum.splits)

definition target_settled ::
    "('o \<Rightarrow> bool) \<Rightarrow> ('o \<Rightarrow> bool) \<Rightarrow> ('o \<Rightarrow> bool) \<Rightarrow> ('o \<Rightarrow> key) \<Rightarrow> ('o \<Rightarrow> 'd \<Rightarrow> go_error + 'd) \<Rightarrow>
     'o option \<Rightarrow> (key \<Rightarrow> 'd option) \<Rightarrow> bool" where
  "target_settled unnamed applies wanted target transform owner v \<longleftrightarrow>
     snd (target_spec unnamed applies wanted target transform owner v) = v"

lemma target_spec_settles:
  assumes "(b, v') = target_spec unnamed applies wanted target transform owner v"
    and "\<And>w d d'. owner = Some w \<Longrightarrow> transform w d = Inr d' \<Longrightarrow> transform w d' = Inr d'"
  shows "target_settled unnamed applies wanted target transform owner v'"
proof -
  from assms(1) have "v' = snd (target_spec unnamed applies wanted target transform owner v)"
    by (metis snd_conv)
  then show ?thesis
    unfolding target_settled_def by simp (subst target_spec_idem; use assms(2) in blast)
qed

lemma target_settledD:
  "target_settled unnamed applies wanted target transform owner v \<Longrightarrow>
     (b, v') = target_spec unnamed applies wanted target transform owner v \<Longrightarrow> v' = v"
  unfolding target_settled_def by (metis snd_conv)

text \<open>
  Two patchers whose transforms commute do not disturb each other: what one has settled stays
  settled after a step of the other.
\<close>

lemma target_settled_commute:
  assumes "target_settled unnamed applies wanted target transform owner v"
    and "(b, v') = target_spec unnamed' applies' wanted' target' transform' owner' v"
    and commute: "\<And>w u d e. owner = Some w \<Longrightarrow> owner' = Some u \<Longrightarrow> transform w d = Inr d \<Longrightarrow>
           transform' u d = Inr e \<Longrightarrow> transform w e = Inr e"
    and total: "\<And>w d. owner = Some w \<Longrightarrow> \<exists>e. transform w d = Inr e"
  shows "target_settled unnamed applies wanted target transform owner v'"
proof (cases owner)
  case None
  then show ?thesis by (simp add: target_settled_def target_spec_def)
next
  case (Some w)
  show ?thesis
  proof (cases "unnamed w \<or> \<not> applies w \<or> \<not> wanted w \<or> v' (target w) = None")
    case True
    with Some show ?thesis by (auto simp: target_settled_def target_spec_def)
  next
    case False
    then obtain e where e: "v' (target w) = Some e" by auto
    have fix_v: "transform w d = Inr d" if "v (target w) = Some d" for d
    proof -
      obtain d' where d': "transform w d = Inr d'" using total [OF Some] by blast
      with assms(1) False Some that have "v(target w \<mapsto> d') = v"
        by (simp add: target_settled_def target_spec_def)
      with that have "d' = d" by (metis fun_upd_same option.inject)
      with d' show ?thesis by simp
    qed
    have "transform w e = Inr e"
    proof (cases "v (target w) = Some e")
      case True
      then show ?thesis by (rule fix_v)
    next
      case False
      with assms(2) e obtain u d where "owner' = Some u" "v (target w) = Some d" "transform' u d = Inr e"
        by (auto simp: target_spec_def split: option.splits sum.splits if_splits)
      with commute [OF Some] fix_v show ?thesis by blast
    qed
    with e False Some show ?thesis
      by (simp add: target_settled_def target_spec_def fun_upd_idem)
  qed
qed

section \<open>Controllers of that shape\<close>

locale target_patcher =
  fixes L :: lib
    and reconcile :: "('s, ('op, 'oq) object) api \<Rightarrow> ('s, ('dp, 'dq) object) api \<Rightarrow> key \<Rightarrow>
                      ('s, go_error option) state"
    and unnamed applies wanted :: "('op, 'oq) object \<Rightarrow> bool"
    and target :: "('op, 'oq) object \<Rightarrow> key"
    and transform :: "('op, 'oq) object \<Rightarrow> ('dp, 'dq) object \<Rightarrow> go_error + ('dp, 'dq) object"
    and failed :: "go_error \<Rightarrow> go_error"
  assumes patcher_shape:
    "reconcile oapi dapi req =
       target_reconcile L oapi dapi unnamed applies wanted target transform failed req"
begin

lemma patcher_cases:
  assumes run: "run_state (reconcile oapi dapi req) s = (r, s')"
  obtains (owner_error) e where "run_state (api_get oapi req) s = (Inl e, s')"
      "r = lib_IgnoreNotFound L e"
  | (skipped) w where "run_state (api_get oapi req) s = (Inr w, s')"
      "unnamed w \<or> \<not> applies w" "r = None"
  | (unread) w t e where "run_state (api_get oapi req) s = (Inr w, t)"
      "\<not> unnamed w" "applies w" "run_state (api_get dapi (target w)) t = (Inl e, s')"
      "r = (if lib_IsNotFound L e then None else Some e)"
  | (unwanted) w t d where "run_state (api_get oapi req) s = (Inr w, t)" "\<not> unnamed w"
      "applies w" "run_state (api_get dapi (target w)) t = (Inr d, s')" "\<not> wanted w" "r = None"
  | (refused) w t d e where "run_state (api_get oapi req) s = (Inr w, t)" "\<not> unnamed w"
      "applies w" "run_state (api_get dapi (target w)) t = (Inr d, s')" "wanted w"
      "transform w d = Inl e" "r = Some e"
  | (patched) w t d u d' e where "run_state (api_get oapi req) s = (Inr w, t)" "\<not> unnamed w"
      "applies w" "run_state (api_get dapi (target w)) t = (Inr d, u)" "wanted w"
      "transform w d = Inr d'" "run_state (api_patch dapi d' d) u = (e, s')"
      "r = map_option failed e"
proof -
  obtain g t where g: "run_state (api_get oapi req) s = (g, t)"
    by (cases "run_state (api_get oapi req) s") auto
  show thesis
  proof (cases g)
    case (Inl e)
    with g run show thesis
      by (intro owner_error [of e]) (auto simp: patcher_shape target_reconcile_def)
  next
    case (Inr w)
    show thesis
    proof (cases "unnamed w \<or> \<not> applies w")
      case True
      with g Inr run show thesis
        by (intro skipped [of w]) (auto simp: patcher_shape target_reconcile_def)
    next
      case False
      obtain h u where h: "run_state (api_get dapi (target w)) t = (h, u)"
        by (cases "run_state (api_get dapi (target w)) t") auto
      show thesis
      proof (cases h)
        case (Inl e)
        with g \<open>g = Inr w\<close> False h run show thesis
          by (intro unread [of w t e]) (auto simp: patcher_shape target_reconcile_def)
      next
        case (Inr d)
        with g \<open>g = Inr w\<close> False h run show thesis
          by (auto simp: patcher_shape target_reconcile_def split: if_splits sum.splits prod.splits
              intro: unwanted refused patched)
      qed
    qed
  qed
qed

end

locale target_patcher_run =
  target_patcher L reconcile unnamed applies wanted target transform failed +
  owner_child_stores oapi oview dapi dview "lib_IsNotFound L" +
  runtime_lib L
  for L
    and reconcile :: "('s, ('op, 'oq) object) api \<Rightarrow> ('s, ('dp, 'dq) object) api \<Rightarrow> key \<Rightarrow>
                      ('s, go_error option) state"
    and unnamed applies wanted target transform failed
    and oapi :: "('s, ('op, 'oq) object) api" and oview
    and dapi :: "('s, ('dp, 'dq) object) api" and dview
begin

lemma patcher_owner_preserved: "preserves oview (reconcile oapi dapi req)"
  unfolding patcher_shape target_reconcile_def
  by (intro preserves_bind preserves_case_sum preserves_if preserves_return O.get_view
      child_frame)

text \<open>
  What a run leaves of the Deployments: as they were, or with the transform of the target
  stored; a success for a wanted change is the latter.  The transform must not rename the
  object, which an escape hatch could do.
\<close>

lemma patcher_outcome:
  assumes run: "run_state (reconcile oapi dapi req) s = (r, s')"
    and keep: "\<And>w d d'. oview s req = Some w \<Longrightarrow> transform w d = Inr d' \<Longrightarrow> key_of d' = key_of d"
  obtains (same) "dview s' = dview s"
      "\<And>w d. r = None \<Longrightarrow> oview s req = Some w \<Longrightarrow> \<not> unnamed w \<Longrightarrow> applies w \<Longrightarrow> wanted w \<Longrightarrow>
         dview s (target w) = Some d \<Longrightarrow> False"
  | (stored) w d d' where "oview s req = Some w" "\<not> unnamed w" "applies w" "wanted w"
      "dview s (target w) = Some d" "transform w d = Inr d'"
      "dview s' = (dview s)(target w \<mapsto> d')"
  using run
proof (cases rule: patcher_cases)
  case (owner_error e)
  show thesis
  proof (rule same)
    show "dview s' = dview s" using owner_error(1) by (rule owner_get_cview)
    show False if "r = None" "oview s req = Some w" for w
      using that owner_error O.get_missing [OF owner_error(1)]
      by (auto simp: ignore_not_found split: if_splits)
  qed
next
  case (skipped w)
  then have "oview s req = Some w" by (blast intro: O.get_found)
  with skipped show thesis by (intro same) (auto simp: owner_get_cview)
next
  case (unread w t e)
  have t: "dview t = dview s" using unread(1) by (rule owner_get_cview)
  show thesis
  proof (rule same)
    show "dview s' = dview s" using C.get_result [OF unread(4)] t by simp
    show False if "r = None" "oview s req = Some w'" "dview s (target w') = Some d" for w' d
      using that unread t C.get_missing [OF unread(4)] O.get_found [OF unread(1)]
      by (auto split: if_splits)
  qed
next
  case (unwanted w t d)
  then have "dview s' = dview s" "oview s req = Some w"
    using owner_get_cview C.get_result O.get_found by metis+
  with unwanted show thesis by (intro same) auto
next
  case (refused w t d e)
  then have "dview s' = dview s" using owner_get_cview C.get_result by metis
  with refused show thesis by (intro same) auto
next
  case (patched w t d u d' e)
  have tu: "dview u = dview s" "oview s req = Some w"
    using patched owner_get_cview C.get_result O.get_found by metis+
  have d: "dview u (target w) = Some d"
    using C.get_found [OF patched(4)] C.get_result [OF patched(4)] by simp
  then have k: "key_of d' = target w"
    using keep [OF tu(2) patched(6)] C.view_key by simp
  show thesis
  proof (cases "dview s' = (dview u)(key_of d' \<mapsto> d')")
    case True
    with patched tu d k show thesis by (intro stored) simp_all
  next
    case False
    with patched(7) d k C.patch_ok C.patch_err have "e \<noteq> None" "dview s' = dview u"
      by (metis option.exhaust)+
    with tu patched(8) show thesis by (intro same) auto
  qed
qed

lemma patcher_frame:
  assumes "run_state (reconcile oapi dapi req) s = (r, s')"
    and "\<And>w d d'. oview s req = Some w \<Longrightarrow> transform w d = Inr d' \<Longrightarrow> key_of d' = key_of d"
    and "\<And>w. oview s req = Some w \<Longrightarrow> k \<noteq> target w"
  shows "dview s' k = dview s k"
  using assms(1,2) by (rule patcher_outcome) (use assms(3) in auto)

lemma patcher_success:
  assumes "run_state (reconcile oapi dapi req) s = (None, s')"
    and "oview s req = Some w" and "\<not> unnamed w" and "applies w" and "wanted w"
    and "dview s (target w) = Some d"
    and "\<And>d d'. transform w d = Inr d' \<Longrightarrow> key_of d' = key_of d"
  shows "\<exists>d'. transform w d = Inr d' \<and> dview s' = (dview s)(target w \<mapsto> d')"
  by (rule patcher_outcome [OF assms(1)]) (use assms in auto)

lemma patcher_inert:
  assumes run: "run_state (reconcile oapi dapi req) s = (r, s')"
    and idle: "\<And>w. oview s req = Some w \<Longrightarrow>
           unnamed w \<or> \<not> applies w \<or> \<not> wanted w \<or> dview s (target w) = None"
  shows "dview s' = dview s"
  using run
proof (cases rule: patcher_cases)
  case (patched w t d u d' e)
  then have "oview s req = Some w" "dview s (target w) = Some d"
    using owner_get_cview C.get_found O.get_found by metis+
  with idle patched show ?thesis by fastforce
qed (metis owner_get_cview C.get_result)+

end

section \<open>Undisturbed runs implement the abstract step\<close>

locale target_patcher_healthy =
  target_patcher_run L reconcile unnamed applies wanted target transform failed oapi oview dapi dview +
  healthy_stores oapi oview dapi dview "lib_IsNotFound L" healthy
  for L
    and reconcile :: "('s, ('op, 'oq) object) api \<Rightarrow> ('s, ('dp, 'dq) object) api \<Rightarrow> key \<Rightarrow>
                      ('s, go_error option) state"
    and unnamed applies wanted target transform failed
    and oapi :: "('s, ('op, 'oq) object) api" and oview
    and dapi :: "('s, ('dp, 'dq) object) api" and dview and healthy
begin

lemma patcher_refines:
  assumes h: "healthy s" and run: "run_state (reconcile oapi dapi req) s = (r, s')"
    and keep: "\<And>w d d'. oview s req = Some w \<Longrightarrow> transform w d = Inr d' \<Longrightarrow> key_of d' = key_of d"
  shows "healthy s' \<and> oview s' = oview s \<and>
    (r = None, dview s') =
      target_spec unnamed applies wanted target transform (oview s req) (dview s)"
proof -
  have ov: "oview s' = oview s" using patcher_owner_preserved run by (rule preservesD)
  from run show ?thesis
  proof (cases rule: patcher_cases)
    case (owner_error e)
    note g = OH.healthy_get [OF h owner_error(1)]
    then have "oview s req = None" and "lib_IsNotFound L e"
      by (cases "oview s req"; auto)+
    moreover have "dview s' = dview s" using owner_error(1) by (rule owner_get_cview)
    ultimately show ?thesis
      using g owner_error ov by (simp add: target_spec_def ignore_not_found)
  next
    case (skipped w)
    have "oview s req = Some w" using skipped(1) by (rule O.get_found)
    moreover have "healthy s'" using OH.healthy_get [OF h skipped(1)] by simp
    moreover have "dview s' = dview s" using skipped(1) by (rule owner_get_cview)
    ultimately show ?thesis using skipped ov by (auto simp: target_spec_def)
  next
    case (unread w t e)
    have t: "healthy t" "dview t = dview s" "oview s req = Some w"
      using OH.healthy_get [OF h unread(1)] owner_get_cview [OF unread(1)] O.get_found [OF unread(1)]
      by auto
    note g = CH.healthy_get [OF t(1) unread(4)]
    then have "dview s (target w) = None" "lib_IsNotFound L e" "healthy s'"
      using t by (cases "dview t (target w)"; auto)+
    moreover have "dview s' = dview s" using C.get_result [OF unread(4)] t by simp
    ultimately show ?thesis using unread ov t by (simp add: target_spec_def)
  next
    case (unwanted w t d)
    have t: "healthy t" "dview t = dview s" "oview s req = Some w"
      using OH.healthy_get [OF h unwanted(1)] owner_get_cview [OF unwanted(1)]
        O.get_found [OF unwanted(1)] by auto
    have "healthy s'" "dview s' = dview s"
      using CH.healthy_get [OF t(1) unwanted(4)] C.get_result [OF unwanted(4)] t by auto
    then show ?thesis using unwanted ov t by (simp add: target_spec_def)
  next
    case (refused w t d e)
    have t: "healthy t" "dview t = dview s" "oview s req = Some w"
      using OH.healthy_get [OF h refused(1)] owner_get_cview [OF refused(1)]
        O.get_found [OF refused(1)] by auto
    have "healthy s'" "dview s' = dview s" "dview s (target w) = Some d"
      using CH.healthy_get [OF t(1) refused(4)] C.get_result [OF refused(4)]
        C.get_found [OF refused(4)] t by auto
    then show ?thesis using refused ov t by (simp add: target_spec_def)
  next
    case (patched w t d u d' e)
    have t: "healthy t" "dview t = dview s" "oview s req = Some w"
      using OH.healthy_get [OF h patched(1)] owner_get_cview [OF patched(1)]
        O.get_found [OF patched(1)] by auto
    have u: "healthy u" "dview u = dview s" "dview s (target w) = Some d"
      using CH.healthy_get [OF t(1) patched(4)] C.get_result [OF patched(4)]
        C.get_found [OF patched(4)] t by auto
    then have k: "key_of d' = target w"
      using keep [OF t(3) patched(6)] C.view_key by simp
    note p = CH.healthy_patch [OF u(1) patched(7)]
    then have "healthy s'" "e = None" using u k by simp_all
    moreover from this have "dview s' = (dview u)(key_of d' \<mapsto> d')"
      using C.patch_ok patched(7) u k by simp
    ultimately show ?thesis using patched ov t u k by (simp add: target_spec_def)
  qed
qed

lemma patcher_idempotent:
  assumes h: "healthy s" and run: "run_state (reconcile oapi dapi req) s = (r, s')"
    and run': "run_state (reconcile oapi dapi req) s' = (r', s'')"
    and keep: "\<And>w d d'. oview s req = Some w \<Longrightarrow> transform w d = Inr d' \<Longrightarrow> key_of d' = key_of d"
    and idem: "\<And>w d d'. oview s req = Some w \<Longrightarrow> transform w d = Inr d' \<Longrightarrow> transform w d' = Inr d'"
  shows "dview s'' = dview s' \<and> (r' = None \<longleftrightarrow> r = None)"
proof -
  let ?step = "target_spec unnamed applies wanted target transform (oview s req)"
  have one: "healthy s' \<and> oview s' = oview s \<and> (r = None, dview s') = ?step (dview s)"
    using h run keep by (rule patcher_refines)
  then have "healthy s'" and ov: "oview s' = oview s" by blast+
  then have two: "(r' = None, dview s'') = ?step (dview s')"
    using patcher_refines [OF _ run'] keep by simp
  have "?step (snd (?step (dview s))) = ?step (dview s)"
    using idem by (rule target_spec_idem)
  moreover have "snd (?step (dview s)) = dview s'"
    using one by (metis snd_conv)
  ultimately have "?step (dview s') = (r = None, dview s')"
    using one by simp
  with two show ?thesis by simp
qed

end

end
