(* ===== verification/Compute_Deployment.thy ===== *)
theory Compute_Deployment
  imports Target_Patcher HPA_Controller
begin

text \<open>
  \<^verbatim>\<open>internal/controller/compute/deployment_controller.go\<close>: the scheduling constraints of a
  Compute, written into the pod template of the target Deployment, and the map from a
  changed Deployment back to the Computes that target it.
\<close>

section \<open>The handler\<close>

definition has_scheduling :: "Compute \<Rightarrow> bool" where
  "has_scheduling compute \<longleftrightarrow>
     (let sch = cs_Scheduling (obj_Spec compute) in
      length (sch_NodeSelector sch) > 0 \<or>
      aff_NodeAffinity (sch_Affinity sch) \<noteq> None \<or>
      aff_PodAffinity (sch_Affinity sch) \<noteq> None \<or>
      aff_PodAntiAffinity (sch_Affinity sch) \<noteq> None \<or>
      length (sch_TopologySpreadConstraints sch) > 0)"

text \<open>The three assignments to \<^verbatim>\<open>deploy.Spec.Template.Spec\<close>.\<close>

definition apply_scheduling :: "SchedulingSpec \<Rightarrow> DeploymentSpec \<Rightarrow> DeploymentSpec" where
  "apply_scheduling sch d =
     d\<lparr>dep_Template_Spec := (dep_Template_Spec d)
        \<lparr>ps_NodeSelector := sch_NodeSelector sch,
         ps_Affinity := Some (sch_Affinity sch),
         ps_TopologySpreadConstraints := sch_TopologySpreadConstraints sch\<rparr>\<rparr>"

definition scheduling_transform ::
    "lib \<Rightarrow> Deployment codec \<Rightarrow> Compute \<Rightarrow> Deployment \<Rightarrow> go_error + Deployment" where
  "scheduling_transform L cod compute deploy =
     (case ApplyEscapeHatches L cod
             (deploy\<lparr>obj_Spec := apply_scheduling (cs_Scheduling (obj_Spec compute)) (obj_Spec deploy)\<rparr>)
             (cs_EscapeHatches (obj_Spec compute)) ''Deployment'' of
        Inl err \<Rightarrow> Inl (wrap ''failed to apply escape hatch to deployment: %w'' [] err)
      | Inr patchedDeployObj \<Rightarrow> Inr patchedDeployObj)"

definition ComputeDeploymentReconciler_Reconcile ::
    "lib \<Rightarrow> Deployment codec \<Rightarrow> ('s, Compute) api \<Rightarrow> ('s, Deployment) api \<Rightarrow> key \<Rightarrow>
     ('s, go_error option) state" where
  "ComputeDeploymentReconciler_Reconcile L cod computes deploys req = do {
     r \<leftarrow> api_get computes req;
     (case r of
        Inl err \<Rightarrow> State_Monad.return (lib_IgnoreNotFound L err)
      | Inr compute \<Rightarrow>
          if ref_Resource (cs_TargetRef (obj_Spec compute)) = '''' then State_Monad.return None
          else do {
            deploy \<leftarrow>
              (if ref_Kind (cs_TargetRef (obj_Spec compute)) = ''Deployment'' then do {
                 g \<leftarrow> api_get deploys (om_Namespace (obj_Meta compute),
                                       ref_Resource (cs_TargetRef (obj_Spec compute)));
                 (case g of
                    Inl err \<Rightarrow>
                      if \<not> lib_IsNotFound L err then State_Monad.return (Inl err)
                      else State_Monad.return (Inr None)
                  | Inr deploy \<Rightarrow> State_Monad.return (Inr (Some deploy)))
               }
               else State_Monad.return (Inr None));
            (case deploy of
               Inl err \<Rightarrow> State_Monad.return (Some err)
             | Inr None \<Rightarrow> State_Monad.return None
             | Inr (Some deploy) \<Rightarrow>
                 if has_scheduling compute then
                   (case scheduling_transform L cod compute deploy of
                      Inl err \<Rightarrow> State_Monad.return (Some err)
                    | Inr patched \<Rightarrow> do {
                        err \<leftarrow> api_patch deploys patched deploy;
                        (case err of
                           Some err \<Rightarrow> State_Monad.return
                             (Some (wrap ''failed to patch deployment scheduling: %w'' [] err))
                         | None \<Rightarrow> State_Monad.return None)
                      })
                 else State_Monad.return None)
          })
   }"

section \<open>Requeueing on Deployment changes\<close>

definition findComputesForDeployment ::
    "('s, Compute) api \<Rightarrow> Deployment \<Rightarrow> ('s, key list) state" where
  "findComputesForDeployment computes deploy = do {
     r \<leftarrow> api_list computes (om_Namespace (obj_Meta deploy));
     (case r of
        Inl _ \<Rightarrow> State_Monad.return []
      | Inr items \<Rightarrow> State_Monad.return
          (map key_of
            (filter (\<lambda>compute.
                ref_Resource (cs_TargetRef (obj_Spec compute)) \<noteq> '''' \<and>
                ref_Kind (cs_TargetRef (obj_Spec compute)) = ''Deployment'' \<and>
                ref_Resource (cs_TargetRef (obj_Spec compute)) = om_Name (obj_Meta deploy)) items)))
   }"

definition ComputeDeploymentReconciler_SetupWithManager :: controller_setup where
  "ComputeDeploymentReconciler_SetupWithManager =
     \<lparr>setup_For = ''Compute'', setup_Owns = [], setup_Watches = [''Deployment''],
      setup_Named = ''compute-deployment''\<rparr>"

section \<open>The contract\<close>

definition compute_targets_deployment :: "Compute \<Rightarrow> bool" where
  "compute_targets_deployment c \<longleftrightarrow> ref_Kind (cs_TargetRef (obj_Spec c)) = ''Deployment''"

definition compute_target_key :: "Compute \<Rightarrow> key" where
  "compute_target_key c =
     (om_Namespace (obj_Meta c), ref_Resource (cs_TargetRef (obj_Spec c)))"

interpretation compute_deployment: target_patcher L "ComputeDeploymentReconciler_Reconcile L cod"
    compute_unnamed compute_targets_deployment has_scheduling compute_target_key
    "scheduling_transform L cod"
    "\<lambda>err. wrap ''failed to patch deployment scheduling: %w'' [] err"
  by unfold_locales
    (simp add: ComputeDeploymentReconciler_Reconcile_def target_reconcile_def
      compute_unnamed_def compute_targets_deployment_def compute_target_key_def
      bind_case_sum bind_if return_map_option return_if if_branches cong: sum.case_cong if_cong)

interpretation mem_compute_deployment: target_patcher_healthy mem_lib
    "ComputeDeploymentReconciler_Reconcile mem_lib cod" compute_unnamed
    compute_targets_deployment has_scheduling compute_target_key "scheduling_transform mem_lib cod"
    "\<lambda>err. wrap ''failed to patch deployment scheduling: %w'' [] err"
    computes_api computes_view deployments_api deployments_view mem_healthy
  by (intro target_patcher_healthy.intro target_patcher_run.intro
      compute_deployment.target_patcher_axioms mem_lib.runtime_lib_axioms
      computes_deployments_stores computes_deployments_healthy)

lemma scheduling_run:
  assumes "owner_child_stores oapi oview dapi dview (lib_IsNotFound L)" and "runtime_lib L"
  shows "target_patcher_run L (ComputeDeploymentReconciler_Reconcile L cod) compute_unnamed
    compute_targets_deployment has_scheduling compute_target_key (scheduling_transform L cod)
    (\<lambda>err. wrap ''failed to patch deployment scheduling: %w'' [] err) oapi oview dapi dview"
  by (intro target_patcher_run.intro compute_deployment.target_patcher_axioms assms)

lemma scheduling_healthy:
  assumes "healthy_stores oapi oview dapi dview (lib_IsNotFound L) healthy" and "runtime_lib L"
  shows "target_patcher_healthy L (ComputeDeploymentReconciler_Reconcile L cod) compute_unnamed
    compute_targets_deployment has_scheduling compute_target_key (scheduling_transform L cod)
    (\<lambda>err. wrap ''failed to patch deployment scheduling: %w'' [] err) oapi oview dapi dview healthy"
  by (intro target_patcher_healthy.intro scheduling_run assms healthy_stores.axioms(1) [OF assms(1)])

lemma scheduling_transform_plain:
  assumes "hatches_for ''Deployment'' (cs_EscapeHatches (obj_Spec w)) = []"
  shows "scheduling_transform L cod w d =
    Inr (d\<lparr>obj_Spec := apply_scheduling (cs_Scheduling (obj_Spec w)) (obj_Spec d)\<rparr>)"
  using assms by (simp add: scheduling_transform_def)

section \<open>Correctness\<close>

text \<open>
  C19: When a run reports success for a Compute that targets an existing Deployment of its
  namespace and has scheduling constraints, and no escape hatch is meant for the Deployment,
  the Deployment has the Compute's node selector, affinity and spread constraints; its header,
  status, containers, volumes and every other field are what they were, and no other
  Deployment has changed.
\<close>

theorem scheduling_applied:
  assumes "owner_child_stores oapi oview dapi dview (lib_IsNotFound L)" and "runtime_lib L"
    and "run_state (ComputeDeploymentReconciler_Reconcile L cod oapi dapi req) s = (None, s')"
    and "oview s req = Some w"
    and "ref_Resource (cs_TargetRef (obj_Spec w)) \<noteq> ''''"
    and "ref_Kind (cs_TargetRef (obj_Spec w)) = ''Deployment''"
    and "has_scheduling w"
    and "hatches_for ''Deployment'' (cs_EscapeHatches (obj_Spec w)) = []"
    and "dview s (om_Namespace (obj_Meta w), ref_Resource (cs_TargetRef (obj_Spec w))) = Some d"
  shows "\<exists>d'. dview s' =
      (dview s)((om_Namespace (obj_Meta w), ref_Resource (cs_TargetRef (obj_Spec w))) \<mapsto> d') \<and>
    (let p = dep_Template_Spec (obj_Spec d); p' = dep_Template_Spec (obj_Spec d') in
      ps_NodeSelector p' = sch_NodeSelector (cs_Scheduling (obj_Spec w)) \<and>
      ps_Affinity p' = Some (sch_Affinity (cs_Scheduling (obj_Spec w))) \<and>
      ps_TopologySpreadConstraints p' =
        sch_TopologySpreadConstraints (cs_Scheduling (obj_Spec w)) \<and>
      ps_Containers p' = ps_Containers p \<and> ps_Volumes p' = ps_Volumes p \<and> ps_rest p' = ps_rest p) \<and>
    obj_Meta d' = obj_Meta d \<and> obj_Status d' = obj_Status d \<and>
    dep_Selector (obj_Spec d') = dep_Selector (obj_Spec d) \<and>
    dep_rest (obj_Spec d') = dep_rest (obj_Spec d)"
proof -
  note run = scheduling_run [OF assms(1,2)]
  have "\<not> compute_unnamed w" "compute_targets_deployment w"
    "dview s (compute_target_key w) = Some d"
    using assms(5,6,9)
    by (simp_all add: compute_unnamed_def compute_targets_deployment_def compute_target_key_def)
  from target_patcher_run.patcher_success [OF run assms(3,4) this(1,2) assms(7) this(3)]
  obtain d' where "scheduling_transform L cod w d = Inr d'"
    and st: "dview s' = (dview s)(compute_target_key w \<mapsto> d')"
    by (auto simp: scheduling_transform_plain [OF assms(8)])
  then have "d' = d\<lparr>obj_Spec := apply_scheduling (cs_Scheduling (obj_Spec w)) (obj_Spec d)\<rparr>"
    by (simp add: scheduling_transform_plain [OF assms(8)])
  with st show ?thesis
    by (intro exI [of _ d']) (simp add: compute_target_key_def apply_scheduling_def)
qed

abbreviation "sample_scheduling_run \<equiv>
  run_state (ComputeDeploymentReconciler_Reconcile mem_lib trivial_codec computes_api
    deployments_api (''shop'', ''front'')) sample_cluster"

theorem scheduling_applied_witness:
  "\<exists>d'. deployments_view (snd sample_scheduling_run) (''shop'', ''web'') = Some d' \<and>
     ps_NodeSelector (dep_Template_Spec (obj_Spec d')) = [(''disk'', ''ssd'')]"
proof -
  have run: "sample_scheduling_run = (None, snd sample_scheduling_run)"
    by (rule run_state_outcome) code_simp
  from scheduling_applied [OF computes_deployments_stores, OF mem_lib.runtime_lib_axioms, OF run,
      OF sample_stored(2)]
  show ?thesis
    using sample_stored(7)
    by (auto simp: sample_compute_def sample_ComputeSpec_def sample_ref_def has_scheduling_def
        Let_def)
qed

text \<open>
  C38: A Compute without scheduling constraints never changes a Deployment, whatever the run
  meets and returns: constraints written earlier for the same Compute stay in the pod
  template when they are removed from the Compute, and escape hatches meant for the
  Deployment are not looked at.
\<close>

theorem scheduling_never_removed:
  assumes "owner_child_stores oapi oview dapi dview (lib_IsNotFound L)" and "runtime_lib L"
    and "run_state (ComputeDeploymentReconciler_Reconcile L cod oapi dapi req) s = (r, s')"
    and "\<forall>w. oview s req = Some w \<longrightarrow>
      sch_NodeSelector (cs_Scheduling (obj_Spec w)) = [] \<and>
      sch_Affinity (cs_Scheduling (obj_Spec w)) = zero_Affinity \<and>
      sch_TopologySpreadConstraints (cs_Scheduling (obj_Spec w)) = []"
  shows "dview s' = dview s"
  using scheduling_run [OF assms(1,2)] assms(3)
  by (rule target_patcher_run.patcher_inert)
    (use assms(4) in \<open>auto simp: has_scheduling_def zero_Affinity_def\<close>)

theorem scheduling_never_removed_witness:
  "deployments_view (snd (run_state (ComputeDeploymentReconciler_Reconcile mem_lib trivial_codec
      computes_api deployments_api (''shop'', ''front''))
      (sample_cluster\<lparr>cl_computes := [sample_compute_off]\<rparr>))) (''shop'', ''web'') =
    Some sample_deployment"
proof -
  let ?c = "sample_cluster\<lparr>cl_computes := [sample_compute_off]\<rparr>"
  have "computes_view ?c (''shop'', ''front'') = Some sample_compute_off" by code_simp
  then have "\<forall>w. computes_view ?c (''shop'', ''front'') = Some w \<longrightarrow>
      sch_NodeSelector (cs_Scheduling (obj_Spec w)) = [] \<and>
      sch_Affinity (cs_Scheduling (obj_Spec w)) = zero_Affinity \<and>
      sch_TopologySpreadConstraints (cs_Scheduling (obj_Spec w)) = []"
    by (simp add: sample_compute_off_def zero_ComputeSpec_def)
  from scheduling_never_removed [OF computes_deployments_stores, OF mem_lib.runtime_lib_axioms,
      OF run_state_outcome [OF refl], OF this]
  have "deployments_view (snd (run_state (ComputeDeploymentReconciler_Reconcile mem_lib
      trivial_codec computes_api deployments_api (''shop'', ''front'')) ?c)) =
    deployments_view ?c" .
  moreover have "deployments_view ?c (''shop'', ''web'') = Some sample_deployment" by code_simp
  ultimately show ?thesis by simp
qed

text \<open>
  A change of a Deployment requeues exactly the Computes for which the reconciler would
  read that Deployment: those of its namespace that name it as a target of kind Deployment.
\<close>

theorem find_computes_exact:
  assumes "healthy_store oapi oview nf healthy" and "healthy s"
    and "run_state (findComputesForDeployment oapi d) s = (requests, s')"
  shows "set requests = {k. \<exists>c. oview s k = Some c \<and> \<not> compute_unnamed c \<and>
      compute_targets_deployment c \<and> compute_target_key c = key_of d} \<and> oview s' = oview s"
proof -
  note os = healthy_store.axioms(1) [OF assms(1)]
  obtain xs t where l: "run_state (api_list oapi (om_Namespace (obj_Meta d))) s = (Inr xs, t)"
    using healthy_store.healthy_list [OF assms(1,2) prod.collapse [symmetric]]
    by (metis prod.collapse)
  let ?p = "\<lambda>c. \<not> compute_unnamed c \<and> compute_targets_deployment c \<and>
      ref_Resource (cs_TargetRef (obj_Spec c)) = om_Name (obj_Meta d)"
  have "requests = map key_of (filter ?p xs)" and t: "s' = t"
    using assms(3) l
    by (simp_all add: findComputesForDeployment_def compute_unnamed_def
        compute_targets_deployment_def)
  then have "set requests =
      {k. \<exists>x. oview s k = Some x \<and> fst k = om_Namespace (obj_Meta d) \<and> ?p x}"
    using object_store.list_keys [OF os l, of ?p] by simp
  moreover have "oview t = oview s"
    using object_store.list_view [OF os] l by (rule preservesD)
  moreover have "om_Namespace (obj_Meta c) = fst k" if "oview s k = Some c" for c k
    using object_store.view_key [OF os that] by (auto simp: key_of_def)
  ultimately show ?thesis
    using t by (auto simp: compute_target_key_def key_of_def)
qed

theorem find_computes_exact_witness:
  "(''shop'', ''front'') \<in> set (fst (run_state (findComputesForDeployment computes_api
      sample_deployment) sample_cluster))"
proof -
  have t: "compute_target_key sample_compute = key_of sample_deployment"
    "compute_targets_deployment sample_compute" "\<not> compute_unnamed sample_compute"
    by code_simp+
  from find_computes_exact [OF mem_computes.healthy_store_axioms, OF sample_healthy,
      OF prod.collapse [symmetric]]
  show ?thesis using sample_stored(2) t by auto
qed

end
