(* ===== verification/Named_Lists.thy ===== *)
theory Named_Lists
  imports Prelude
begin

text \<open>
  Lists of named entries (the volumes of a pod, the mounts of a container) and the update
  the storage controller applies to them: change the first entry of a name, or append one.
  The locale \<open>named_entries\<close> states what such updates do, alone and in a loop over a list of
  wishes; \<open>Storage_Deployment\<close> interprets it for volumes and for mounts.
\<close>

text \<open>
  What may be expected of such a loop over wishes of different names, as a relation between the
  list before and the list after: the old entries keep their places, each is as before or has
  got the change of a wish of its name, and the wishes without an entry follow in their order.
\<close>

definition entries_updated ::
    "('a \<Rightarrow> string) \<Rightarrow> ('v \<Rightarrow> string) \<Rightarrow> ('v \<Rightarrow> 'a \<Rightarrow> 'a) \<Rightarrow> ('v \<Rightarrow> 'a) \<Rightarrow> 'v list \<Rightarrow>
     'a list \<Rightarrow> 'a list \<Rightarrow> bool" where
  "entries_updated name wish change new vs xs ys \<longleftrightarrow>
     (\<exists>kept. ys = kept @ map new (filter (\<lambda>v. wish v \<notin> name ` set xs) vs) \<and>
        list_all2 (\<lambda>x y. y = x \<or> (\<exists>v \<in> set vs. name x = wish v \<and> y = change v x)) xs kept)"

locale named_entries =
  fixes name :: "'a \<Rightarrow> string"
    and wish :: "'v \<Rightarrow> string"
    and change :: "'v \<Rightarrow> 'a \<Rightarrow> 'a"
    and new :: "'v \<Rightarrow> 'a"
    and put :: "'v \<Rightarrow> 'a list \<Rightarrow> 'a list"
  assumes put_upsert: "put v xs = upsert (\<lambda>x. name x = wish v) (change v) (new v) xs"
    and name_change: "name (change v x) = name x"
    and name_new: "name (new v) = wish v"
    and change_idem: "change v (change v x) = change v x"
    and change_new: "change v (new v) = new v"
begin

text \<open>The first entry of a name.\<close>

abbreviation (input) entry :: "string \<Rightarrow> 'a list \<Rightarrow> 'a option" where
  "entry n xs \<equiv> find (\<lambda>x. name x = n) xs"

lemma put_simps:
  "put v [] = [new v]"
  "put v (x # xs) = (if name x = wish v then change v x # xs else x # put v xs)"
  by (simp_all add: put_upsert upsert_def split_beta)

lemma put_entry:
  "entry n (put v xs) =
     (if n = wish v then Some (case entry n xs of None \<Rightarrow> new v | Some x \<Rightarrow> change v x)
      else entry n xs)"
  by (induction xs) (auto simp: put_simps name_change name_new)

lemma put_others:
  "wish v \<in> N \<Longrightarrow> filter (\<lambda>x. name x \<notin> N) (put v xs) = filter (\<lambda>x. name x \<notin> N) xs"
  by (induction xs) (auto simp: put_simps name_change name_new)

lemma put_names:
  "map name (put v xs) = map name xs @ (if wish v \<in> name ` set xs then [] else [wish v])"
  by (induction xs) (auto simp: put_simps name_change name_new)

lemma put_distinct: "distinct (map name xs) \<Longrightarrow> distinct (map name (put v xs))"
  by (auto simp: put_names)

lemma put_settled: "entry (wish v) xs = Some x \<Longrightarrow> change v x = x \<Longrightarrow> put v xs = xs"
  by (induction xs) (auto simp: put_simps split: if_splits)

text \<open>The loop over the wishes.\<close>

lemma puts_entry_other:
  "n \<notin> wish ` set vs \<Longrightarrow> entry n (fold put vs xs) = entry n xs"
  by (induction vs arbitrary: xs) (auto simp: put_entry)

lemma puts_entry:
  assumes "v \<in> set vs" and "distinct (map wish vs)"
  shows "entry (wish v) (fold put vs xs) =
    Some (case entry (wish v) xs of None \<Rightarrow> new v | Some x \<Rightarrow> change v x)"
  using assms
proof (induction vs arbitrary: xs)
  case Nil
  then show ?case by simp
next
  case (Cons u vs)
  show ?case
  proof (cases "v = u")
    case True
    with Cons.prems(2) have "wish v \<notin> wish ` set vs" by simp
    then show ?thesis unfolding True by (simp add: puts_entry_other put_entry)
  next
    case False
    with Cons.prems have v: "v \<in> set vs" "distinct (map wish vs)" by auto
    then have "wish v \<in> wish ` set vs" by simp
    with Cons.prems(2) have "wish v \<noteq> wish u" by auto
    with v show ?thesis using Cons.IH [of "put u xs"] by (simp add: put_entry)
  qed
qed

lemma puts_others:
  "wish ` set vs \<subseteq> N \<Longrightarrow> filter (\<lambda>x. name x \<notin> N) (fold put vs xs) = filter (\<lambda>x. name x \<notin> N) xs"
  by (induction vs arbitrary: xs) (auto simp: put_others)

lemma put_present:
  "wish v \<in> name ` set xs \<Longrightarrow>
     list_all2 (\<lambda>x y. y = x \<or> name x = wish v \<and> y = change v x) xs (put v xs)"
  by (induction xs) (auto simp: put_simps list_all2_refl)

lemma put_absent: "wish v \<notin> name ` set xs \<Longrightarrow> put v xs = xs @ [new v]"
  by (induction xs) (auto simp: put_simps)

lemma puts_updated:
  assumes "distinct (map wish vs)"
  shows "entries_updated name wish change new vs xs (fold put vs xs)"
  using assms
proof (induction vs arbitrary: xs)
  case Nil
  then show ?case by (simp add: entries_updated_def list_all2_refl)
next
  case (Cons u vs)
  let ?R = "\<lambda>vs x y. y = x \<or> (\<exists>v \<in> set vs. name x = wish v \<and> y = change v x)"
  let ?rest = "\<lambda>xs. map new (filter (\<lambda>v. wish v \<notin> name ` set xs) vs)"
  from Cons.prems have u: "wish u \<notin> wish ` set vs" by simp
  from Cons.IH Cons.prems obtain kept where
    eq: "fold put vs (put u xs) = kept @ ?rest (put u xs)" and kept: "list_all2 (?R vs) (put u xs) kept"
    unfolding entries_updated_def by auto
  have names: "name ` set (put u xs) = insert (wish u) (name ` set xs)"
    using arg_cong [OF put_names [of u xs], of set] by (auto split: if_splits)
  have "wish v \<noteq> wish u" if "v \<in> set vs" for v using u that by (metis image_eqI)
  with names have rest: "?rest (put u xs) = ?rest xs"
    by (intro arg_cong [of _ _ "map new"] filter_cong) simp_all
  show ?case
  proof (cases "wish u \<in> name ` set xs")
    case True
    have "list_all2 (?R (u # vs)) xs kept"
    proof (rule list_all2_trans [OF _ put_present [OF True] kept])
      fix x y z
      assume "y = x \<or> name x = wish u \<and> y = change u x" and z: "?R vs y z"
      then show "?R (u # vs) x z" using u name_change by (metis image_eqI list.set_intros)
    qed
    with True eq rest show ?thesis unfolding entries_updated_def by (intro exI [of _ kept]) simp
  next
    case False
    with kept obtain k1 z where k: "kept = k1 @ [z]" "list_all2 (?R vs) xs k1" "?R vs (new u) z"
      by (auto simp: put_absent list_all2_append1 list_all2_Cons1)
    from k(3) u name_new have "z = new u" by (metis image_eqI)
    moreover have "list_all2 (?R (u # vs)) xs k1" by (rule list_all2_mono [OF k(2)]) auto
    ultimately show ?thesis using False eq rest k(1)
      unfolding entries_updated_def by (intro exI [of _ k1]) simp
  qed
qed

lemma puts_distinct: "distinct (map name xs) \<Longrightarrow> distinct (map name (fold put vs xs))"
  by (induction vs arbitrary: xs) (auto simp: put_distinct)

lemma puts_settled:
  "\<forall>v \<in> set vs. \<exists>x. entry (wish v) xs = Some x \<and> change v x = x \<Longrightarrow> fold put vs xs = xs"
  by (induction vs) (auto simp: put_settled)

lemma puts_idem:
  assumes "distinct (map wish vs)"
  shows "fold put vs (fold put vs xs) = fold put vs xs"
proof (rule puts_settled, rule ballI)
  fix v
  assume "v \<in> set vs"
  from puts_entry [OF this assms]
  show "\<exists>x. entry (wish v) (fold put vs xs) = Some x \<and> change v x = x"
    by (auto simp: change_idem change_new split: option.splits)
qed

end

end
