(* ===== verification/Storage_Deployment.thy ===== *)
theory Storage_Deployment
  imports Target_Patcher Named_Lists Sample_Cluster
begin

text \<open>
  \<^verbatim>\<open>internal/controller/storage/deployment_controller.go\<close>: the volumes of a Storage, written
  into the pod template of the target Deployment and mounted in its first container, and the
  map from a changed Deployment back to the Storages that target it.
\<close>

section \<open>One volume\<close>

definition claim_name :: "Storage \<Rightarrow> VolumeSpec \<Rightarrow> string" where
  "claim_name storage vol = dashed (om_Name (obj_Meta storage)) (vsp_Name vol)"

text \<open>\<^verbatim>\<open>corev1.VolumeSource{PersistentVolumeClaim: &...{ClaimName: pvcName}}\<close>\<close>

definition claim_source :: "string \<Rightarrow> VolumeSource" where
  "claim_source pvcName =
     \<lparr>vs_PersistentVolumeClaim = Some \<lparr>pvcvs_ClaimName = pvcName, pvcvs_ReadOnly = False\<rparr>,
      vs_rest = JNull\<rparr>"

definition put_volume :: "string \<Rightarrow> VolumeSpec \<Rightarrow> Volume list \<Rightarrow> Volume list" where
  "put_volume pvcName vol volumes =
     upsert (\<lambda>v. vol_Name v = vsp_Name vol)
       (\<lambda>v. v\<lparr>vol_VolumeSource := claim_source pvcName\<rparr>)
       \<lparr>vol_Name = vsp_Name vol, vol_VolumeSource = claim_source pvcName\<rparr> volumes"

definition put_mount :: "VolumeSpec \<Rightarrow> VolumeMount list \<Rightarrow> VolumeMount list" where
  "put_mount vol mounts =
     upsert (\<lambda>m. vm_Name m = vsp_Name vol) (\<lambda>m. m\<lparr>vm_MountPath := vsp_MountPath vol\<rparr>)
       \<lparr>vm_Name = vsp_Name vol, vm_MountPath = vsp_MountPath vol, vm_rest = JNull\<rparr> mounts"

text \<open>The body of \<^verbatim>\<open>for _, vol := range storage.Spec.Volumes\<close>.\<close>

definition mount_volume :: "Storage \<Rightarrow> VolumeSpec \<Rightarrow> PodSpec \<Rightarrow> PodSpec" where
  "mount_volume storage vol pod =
     (let pvcName = claim_name storage vol;
          pod = pod\<lparr>ps_Volumes := put_volume pvcName vol (ps_Volumes pod)\<rparr>
      in (case ps_Containers pod of
            [] \<Rightarrow> pod
          | c # cs \<Rightarrow>
              pod\<lparr>ps_Containers :=
                c\<lparr>ct_VolumeMounts := put_mount vol (ct_VolumeMounts c)\<rparr> # cs\<rparr>))"

definition mount_volumes :: "Storage \<Rightarrow> PodSpec \<Rightarrow> PodSpec" where
  "mount_volumes storage pod = fold (mount_volume storage) (ss_Volumes (obj_Spec storage)) pod"

section \<open>The handler\<close>

definition volumes_transform ::
    "lib \<Rightarrow> Deployment codec \<Rightarrow> Storage \<Rightarrow> Deployment \<Rightarrow> go_error + Deployment" where
  "volumes_transform L cod storage deploy =
     (case ApplyEscapeHatches L cod
             (deploy\<lparr>obj_Spec := (obj_Spec deploy)
                \<lparr>dep_Template_Spec := mount_volumes storage (dep_Template_Spec (obj_Spec deploy))\<rparr>\<rparr>)
             (ss_EscapeHatches (obj_Spec storage)) ''Deployment'' of
        Inl err \<Rightarrow> Inl (wrap ''failed to apply escape hatch to Deployment: %w'' [] err)
      | Inr patchedDeployObj \<Rightarrow> Inr patchedDeployObj)"

definition StorageDeploymentReconciler_Reconcile ::
    "lib \<Rightarrow> Deployment codec \<Rightarrow> ('s, Storage) api \<Rightarrow> ('s, Deployment) api \<Rightarrow> key \<Rightarrow>
     ('s, go_error option) state" where
  "StorageDeploymentReconciler_Reconcile L cod storages deploys req = do {
     r \<leftarrow> api_get storages req;
     (case r of
        Inl err \<Rightarrow> State_Monad.return (lib_IgnoreNotFound L err)
      | Inr storage \<Rightarrow>
          if ref_Resource (ss_TargetRef (obj_Spec storage)) = '''' then State_Monad.return None
          else if ref_Kind (ss_TargetRef (obj_Spec storage)) = ''Deployment'' then do {
            g \<leftarrow> api_get deploys (om_Namespace (obj_Meta storage),
                                  ref_Resource (ss_TargetRef (obj_Spec storage)));
            (case g of
               Inl err \<Rightarrow>
                 if lib_IsNotFound L err then State_Monad.return None
                 else State_Monad.return (Some err)
             | Inr deploy \<Rightarrow>
                 (case volumes_transform L cod storage deploy of
                    Inl err \<Rightarrow> State_Monad.return (Some err)
                  | Inr patched \<Rightarrow> do {
                      err \<leftarrow> api_patch deploys patched deploy;
                      (case err of
                         Some err \<Rightarrow> State_Monad.return
                           (Some (wrap ''failed to patch deployment with volumes: %w'' [] err))
                       | None \<Rightarrow> State_Monad.return None)
                    }))
          }
          else State_Monad.return None)
   }"

section \<open>Requeueing on Deployment changes\<close>

definition findStoragesForDeployment ::
    "('s, Storage) api \<Rightarrow> Deployment \<Rightarrow> ('s, key list) state" where
  "findStoragesForDeployment storages deploy = do {
     r \<leftarrow> api_list storages (om_Namespace (obj_Meta deploy));
     (case r of
        Inl _ \<Rightarrow> State_Monad.return []
      | Inr items \<Rightarrow> State_Monad.return
          (map key_of
            (filter (\<lambda>storage.
                ref_Resource (ss_TargetRef (obj_Spec storage)) \<noteq> '''' \<and>
                ref_Kind (ss_TargetRef (obj_Spec storage)) = ''Deployment'' \<and>
                ref_Resource (ss_TargetRef (obj_Spec storage)) = om_Name (obj_Meta deploy)) items)))
   }"

definition StorageDeploymentReconciler_SetupWithManager :: controller_setup where
  "StorageDeploymentReconciler_SetupWithManager =
     \<lparr>setup_For = ''Storage'', setup_Owns = [], setup_Watches = [''Deployment''],
      setup_Named = ''storage-deployment''\<rparr>"

section \<open>The contract\<close>

definition storage_unnamed :: "Storage \<Rightarrow> bool" where
  "storage_unnamed w \<longleftrightarrow> ref_Resource (ss_TargetRef (obj_Spec w)) = ''''"

definition storage_targets_deployment :: "Storage \<Rightarrow> bool" where
  "storage_targets_deployment w \<longleftrightarrow> ref_Kind (ss_TargetRef (obj_Spec w)) = ''Deployment''"

definition storage_target_key :: "Storage \<Rightarrow> key" where
  "storage_target_key w =
     (om_Namespace (obj_Meta w), ref_Resource (ss_TargetRef (obj_Spec w)))"

interpretation storage_deployment: target_patcher L "StorageDeploymentReconciler_Reconcile L cod"
    storage_unnamed storage_targets_deployment "\<lambda>_. True" storage_target_key
    "volumes_transform L cod"
    "\<lambda>err. wrap ''failed to patch deployment with volumes: %w'' [] err"
  by unfold_locales
    (simp add: StorageDeploymentReconciler_Reconcile_def target_reconcile_def
      storage_unnamed_def storage_targets_deployment_def storage_target_key_def
      bind_case_sum bind_if return_map_option return_if if_branches cong: sum.case_cong if_cong)

interpretation mem_storage_deployment: target_patcher_healthy mem_lib
    "StorageDeploymentReconciler_Reconcile mem_lib cod" storage_unnamed
    storage_targets_deployment "\<lambda>_. True" storage_target_key "volumes_transform mem_lib cod"
    "\<lambda>err. wrap ''failed to patch deployment with volumes: %w'' [] err"
    storages_api storages_view deployments_api deployments_view mem_healthy
  by (intro target_patcher_healthy.intro target_patcher_run.intro
      storage_deployment.target_patcher_axioms mem_lib.runtime_lib_axioms
      storages_deployments_stores storages_deployments_healthy)

lemma volumes_run:
  assumes "owner_child_stores oapi oview dapi dview (lib_IsNotFound L)" and "runtime_lib L"
  shows "target_patcher_run L (StorageDeploymentReconciler_Reconcile L cod) storage_unnamed
    storage_targets_deployment (\<lambda>_. True) storage_target_key (volumes_transform L cod)
    (\<lambda>err. wrap ''failed to patch deployment with volumes: %w'' [] err) oapi oview dapi dview"
  by (intro target_patcher_run.intro storage_deployment.target_patcher_axioms assms)

lemma volumes_healthy:
  assumes "healthy_stores oapi oview dapi dview (lib_IsNotFound L) healthy" and "runtime_lib L"
  shows "target_patcher_healthy L (StorageDeploymentReconciler_Reconcile L cod) storage_unnamed
    storage_targets_deployment (\<lambda>_. True) storage_target_key (volumes_transform L cod)
    (\<lambda>err. wrap ''failed to patch deployment with volumes: %w'' [] err) oapi oview dapi dview healthy"
  by (intro target_patcher_healthy.intro volumes_run assms healthy_stores.axioms(1) [OF assms(1)])

lemma volumes_transform_plain:
  assumes "hatches_for ''Deployment'' (ss_EscapeHatches (obj_Spec w)) = []"
  shows "volumes_transform L cod w d =
    Inr (d\<lparr>obj_Spec := (obj_Spec d)
      \<lparr>dep_Template_Spec := mount_volumes w (dep_Template_Spec (obj_Spec d))\<rparr>\<rparr>)"
  using assms by (simp add: volumes_transform_def)

section \<open>The loop over the volumes\<close>

interpretation vols: named_entries vol_Name vsp_Name
    "\<lambda>vol v. v\<lparr>vol_VolumeSource := claim_source (claim_name storage vol)\<rparr>"
    "\<lambda>vol. \<lparr>vol_Name = vsp_Name vol, vol_VolumeSource = claim_source (claim_name storage vol)\<rparr>"
    "\<lambda>vol. put_volume (claim_name storage vol) vol"
  by unfold_locales (simp_all add: put_volume_def)

interpretation mounts: named_entries vm_Name vsp_Name
    "\<lambda>vol m. m\<lparr>vm_MountPath := vsp_MountPath vol\<rparr>"
    "\<lambda>vol. \<lparr>vm_Name = vsp_Name vol, vm_MountPath = vsp_MountPath vol, vm_rest = JNull\<rparr>"
    put_mount
  by unfold_locales (simp_all add: put_mount_def)

text \<open>The loop, field by field: only the volumes and the mounts of the first container change.\<close>

definition mount_first :: "VolumeSpec list \<Rightarrow> Container list \<Rightarrow> Container list" where
  "mount_first vs cs =
     (case cs of [] \<Rightarrow> []
      | c # cs \<Rightarrow> c\<lparr>ct_VolumeMounts := fold put_mount vs (ct_VolumeMounts c)\<rparr> # cs)"

lemma fold_mount_volume:
  "fold (mount_volume w) vs pod =
     pod\<lparr>ps_Volumes := fold (\<lambda>v. put_volume (claim_name w v) v) vs (ps_Volumes pod),
         ps_Containers := mount_first vs (ps_Containers pod)\<rparr>"
  by (induction vs arbitrary: pod)
    (auto simp: mount_volume_def mount_first_def Let_def split: list.splits)

lemma mount_volumes_fields:
  "mount_volumes w pod =
     pod\<lparr>ps_Volumes := fold (\<lambda>v. put_volume (claim_name w v) v) (ss_Volumes (obj_Spec w))
                          (ps_Volumes pod),
         ps_Containers := mount_first (ss_Volumes (obj_Spec w)) (ps_Containers pod)\<rparr>"
  by (simp add: mount_volumes_def fold_mount_volume)

lemma mount_volumes_idem:
  assumes "distinct (map vsp_Name (ss_Volumes (obj_Spec w)))"
  shows "mount_volumes w (mount_volumes w pod) = mount_volumes w pod"
  using vols.puts_idem [OF assms] mounts.puts_idem [OF assms]
  by (simp add: mount_volumes_fields mount_first_def split: list.splits)

section \<open>Correctness\<close>

text \<open>
  C15: When a run reports success for a Storage that targets an existing Deployment of its
  namespace, its volume names are distinct and no escape hatch is meant for the Deployment,
  then each volume of the Storage is in the pod template, backed by the claim that the claim
  controller makes for it; if there is a container, the first one mounts each volume at its
  path.  Nothing else changes.  In both lists the old entries keep their places, an old entry is
  as before or belongs to a volume of the Storage and has got its claim or its path (and keeps
  its other settings), and only the missing entries are appended; the first container is as
  before but for its mounts, the pod but for volumes and containers, the Deployment (replicas,
  strategy, status, header and all) but for the pod, and so are the other containers and the
  other Deployments.
\<close>

theorem volumes_mounted:
  assumes "owner_child_stores oapi oview dapi dview (lib_IsNotFound L)" and "runtime_lib L"
    and "run_state (StorageDeploymentReconciler_Reconcile L cod oapi dapi req) s = (None, s')"
    and "oview s req = Some w"
    and "ref_Resource (ss_TargetRef (obj_Spec w)) \<noteq> ''''"
    and "ref_Kind (ss_TargetRef (obj_Spec w)) = ''Deployment''"
    and "hatches_for ''Deployment'' (ss_EscapeHatches (obj_Spec w)) = []"
    and "distinct (map vsp_Name (ss_Volumes (obj_Spec w)))"
    and "dview s (om_Namespace (obj_Meta w), ref_Resource (ss_TargetRef (obj_Spec w))) = Some d"
  shows "\<exists>d'. dview s' =
      (dview s)((om_Namespace (obj_Meta w), ref_Resource (ss_TargetRef (obj_Spec w))) \<mapsto> d') \<and>
    (let p = dep_Template_Spec (obj_Spec d); p' = dep_Template_Spec (obj_Spec d');
         own = vsp_Name ` set (ss_Volumes (obj_Spec w)) in
      (\<forall>v \<in> set (ss_Volumes (obj_Spec w)).
         map_option vol_VolumeSource (find (\<lambda>x. vol_Name x = vsp_Name v) (ps_Volumes p')) =
           Some (claim_source (dashed (om_Name (obj_Meta w)) (vsp_Name v))) \<and>
         (ps_Containers p \<noteq> [] \<longrightarrow>
            map_option vm_MountPath
                (find (\<lambda>m. vm_Name m = vsp_Name v) (ct_VolumeMounts (hd (ps_Containers p')))) =
              Some (vsp_MountPath v))) \<and>
      filter (\<lambda>x. vol_Name x \<notin> own) (ps_Volumes p') =
        filter (\<lambda>x. vol_Name x \<notin> own) (ps_Volumes p) \<and>
      length (ps_Containers p') = length (ps_Containers p) \<and>
      tl (ps_Containers p') = tl (ps_Containers p) \<and>
      (ps_Containers p \<noteq> [] \<longrightarrow>
         filter (\<lambda>m. vm_Name m \<notin> own) (ct_VolumeMounts (hd (ps_Containers p'))) =
           filter (\<lambda>m. vm_Name m \<notin> own) (ct_VolumeMounts (hd (ps_Containers p)))) \<and>
      entries_updated vol_Name vsp_Name
        (\<lambda>v x. x\<lparr>vol_VolumeSource := claim_source (dashed (om_Name (obj_Meta w)) (vsp_Name v))\<rparr>)
        (\<lambda>v. \<lparr>vol_Name = vsp_Name v,
              vol_VolumeSource = claim_source (dashed (om_Name (obj_Meta w)) (vsp_Name v))\<rparr>)
        (ss_Volumes (obj_Spec w)) (ps_Volumes p) (ps_Volumes p') \<and>
      (ps_Containers p \<noteq> [] \<longrightarrow>
         entries_updated vm_Name vsp_Name (\<lambda>v m. m\<lparr>vm_MountPath := vsp_MountPath v\<rparr>)
           (\<lambda>v. \<lparr>vm_Name = vsp_Name v, vm_MountPath = vsp_MountPath v, vm_rest = JNull\<rparr>)
           (ss_Volumes (obj_Spec w)) (ct_VolumeMounts (hd (ps_Containers p)))
           (ct_VolumeMounts (hd (ps_Containers p'))) \<and>
         (hd (ps_Containers p'))\<lparr>ct_VolumeMounts := ct_VolumeMounts (hd (ps_Containers p))\<rparr> =
           hd (ps_Containers p)) \<and>
      p'\<lparr>ps_Volumes := ps_Volumes p, ps_Containers := ps_Containers p\<rparr> = p \<and>
      d'\<lparr>obj_Spec := (obj_Spec d')\<lparr>dep_Template_Spec := p\<rparr>\<rparr> = d) \<and>
    obj_Meta d' = obj_Meta d \<and> dep_Selector (obj_Spec d') = dep_Selector (obj_Spec d)"
proof -
  note run = volumes_run [OF assms(1,2)]
  let ?vs = "ss_Volumes (obj_Spec w)"
  let ?d' = "d\<lparr>obj_Spec := (obj_Spec d)
      \<lparr>dep_Template_Spec := mount_volumes w (dep_Template_Spec (obj_Spec d))\<rparr>\<rparr>"
  have "\<not> storage_unnamed w" "storage_targets_deployment w"
    "dview s (storage_target_key w) = Some d"
    using assms(5,6,9)
    by (simp_all add: storage_unnamed_def storage_targets_deployment_def storage_target_key_def)
  from target_patcher_run.patcher_success [OF run assms(3,4) this(1,2) TrueI this(3)]
  have st: "dview s' = (dview s)(storage_target_key w \<mapsto> ?d')"
    by (auto simp: volumes_transform_plain [OF assms(7)])
  have vol: "map_option vol_VolumeSource (find (\<lambda>x. vol_Name x = vsp_Name v)
      (fold (\<lambda>v. put_volume (claim_name w v) v) ?vs xs)) = Some (claim_source (claim_name w v))"
    if "v \<in> set ?vs" for v xs
    using vols.puts_entry [OF that assms(8), of w xs] by (simp split: option.splits)
  have mnt: "map_option vm_MountPath (find (\<lambda>m. vm_Name m = vsp_Name v) (fold put_mount ?vs ms)) =
      Some (vsp_MountPath v)"
    if "v \<in> set ?vs" for v ms
    using mounts.puts_entry [OF that assms(8), of ms] by (simp split: option.splits)
  note shapes = vols.puts_updated [OF assms(8), of w] mounts.puts_updated [OF assms(8)]
  from st show ?thesis
    using vol mnt shapes [unfolded claim_name_def] vols.puts_others [OF order_refl, of ?vs w "ps_Volumes (dep_Template_Spec (obj_Spec d))"]
      mounts.puts_others [OF order_refl, of ?vs]
    by (intro exI [of _ ?d'])
      (auto simp: storage_target_key_def mount_volumes_fields mount_first_def claim_name_def Let_def
        split: list.splits)
qed

abbreviation "sample_volumes_run \<equiv>
  run_state (StorageDeploymentReconciler_Reconcile mem_lib trivial_codec storages_api
    deployments_api (''shop'', ''front'')) sample_cluster"

lemma sample_volumes_ok: "sample_volumes_run = (None, snd sample_volumes_run)"
  by (rule run_state_outcome) code_simp

theorem volumes_mounted_witness:
  "\<exists>d'. deployments_view (snd sample_volumes_run) (''shop'', ''web'') = Some d' \<and>
     map_option vol_VolumeSource
         (find (\<lambda>x. vol_Name x = ''logs'') (ps_Volumes (dep_Template_Spec (obj_Spec d')))) =
       Some (claim_source ''front-logs'')"
proof -
  have own: "ref_Resource (ss_TargetRef (obj_Spec sample_storage)) = ''web''"
    "ref_Kind (ss_TargetRef (obj_Spec sample_storage)) = ''Deployment''"
    "om_Namespace (obj_Meta sample_storage) = ''shop''"
    "om_Name (obj_Meta sample_storage) = ''front''"
    "hatches_for ''Deployment'' (ss_EscapeHatches (obj_Spec sample_storage)) = []"
    "map vsp_Name (ss_Volumes (obj_Spec sample_storage)) = [''data'', ''logs'']"
    by (simp_all add: sample_storage_def sample_StorageSpec_def sample_ref_def)
  have v: "\<exists>v \<in> set (ss_Volumes (obj_Spec sample_storage)). vsp_Name v = ''logs''"
    by (simp add: sample_storage_def sample_StorageSpec_def)
  note mounted = volumes_mounted [OF storages_deployments_stores, OF mem_lib.runtime_lib_axioms,
      OF sample_volumes_ok, OF sample_stored(3), unfolded own, OF _ refl refl _ sample_stored(7)]
  have "\<exists>d'. deployments_view (snd sample_volumes_run) =
      (deployments_view sample_cluster)((''shop'', ''web'') \<mapsto> d') \<and>
    (\<forall>v \<in> set (ss_Volumes (obj_Spec sample_storage)).
      map_option vol_VolumeSource
          (find (\<lambda>x. vol_Name x = vsp_Name v) (ps_Volumes (dep_Template_Spec (obj_Spec d')))) =
        Some (claim_source (dashed ''front'' (vsp_Name v))))"
    by (rule exE [OF mounted]) (simp, simp, unfold Let_def, blast)
  with v show ?thesis by (fastforce simp: dashed_def)
qed

text \<open>
  C16: In the absence of faults, and when no escape hatch is meant for the Deployment, a run is
  one step of the specification: the loop applied to the stored Deployment, nothing when the
  Deployment or the Storage is missing or the target is of another kind.  With distinct volume
  names a second run finds everything in place and changes nothing.
\<close>

theorem volumes_refines:
  assumes "healthy_stores oapi oview dapi dview (lib_IsNotFound L) healthy" and "runtime_lib L"
    and "healthy s"
    and "run_state (StorageDeploymentReconciler_Reconcile L cod oapi dapi req) s = (r, s')"
    and "run_state (StorageDeploymentReconciler_Reconcile L cod oapi dapi req) s' = (r', s'')"
    and "\<forall>w. oview s req = Some w \<longrightarrow>
      hatches_for ''Deployment'' (ss_EscapeHatches (obj_Spec w)) = []"
  shows "(r = None, dview s') =
      target_spec storage_unnamed storage_targets_deployment (\<lambda>_. True) storage_target_key
        (volumes_transform L cod) (oview s req) (dview s) \<and>
    oview s' = oview s \<and> r = None \<and>
    ((\<forall>w. oview s req = Some w \<longrightarrow> distinct (map vsp_Name (ss_Volumes (obj_Spec w)))) \<longrightarrow>
      dview s'' = dview s' \<and> r' = None)"
proof -
  have keep: "key_of d' = key_of d"
    if "oview s req = Some w" "volumes_transform L cod w d = Inr d'" for w d d'
    using that assms(6) by (auto simp: volumes_transform_plain)
  note H = volumes_healthy [OF assms(1,2)]
  have one: "healthy s' \<and> oview s' = oview s \<and> (r = None, dview s') =
      target_spec storage_unnamed storage_targets_deployment (\<lambda>_. True) storage_target_key
        (volumes_transform L cod) (oview s req) (dview s)"
    using H assms(3,4) keep by (rule target_patcher_healthy.patcher_refines)
  have idem: "dview s'' = dview s' \<and> (r' = None \<longleftrightarrow> r = None)"
    if "\<forall>w. oview s req = Some w \<longrightarrow> distinct (map vsp_Name (ss_Volumes (obj_Spec w)))"
    using H assms(3-5) keep
    by (rule target_patcher_healthy.patcher_idempotent)
      (use that assms(6) in \<open>auto simp: volumes_transform_plain mount_volumes_idem\<close>)
  have "r = None"
    using one assms(6)
    by (auto simp: target_spec_def volumes_transform_plain split: option.splits if_splits)
  with one idem show ?thesis by blast
qed

theorem volumes_refines_witness:
  "deployments_view (snd (run_state (StorageDeploymentReconciler_Reconcile mem_lib trivial_codec
      storages_api deployments_api (''shop'', ''front'')) (snd sample_volumes_run))) =
    deployments_view (snd sample_volumes_run)"
proof -
  have "hatches_for ''Deployment'' (ss_EscapeHatches (obj_Spec sample_storage)) = []"
    "distinct (map vsp_Name (ss_Volumes (obj_Spec sample_storage)))"
    by (simp_all add: sample_storage_def sample_StorageSpec_def)
  then show ?thesis
    using volumes_refines [OF storages_deployments_healthy, OF mem_lib.runtime_lib_axioms,
        OF sample_healthy, OF sample_volumes_ok, OF run_state_outcome [OF refl]] sample_stored(3)
    by auto
qed

text \<open>
  A change of a Deployment requeues exactly the Storages for which the reconciler would
  read that Deployment.
\<close>

theorem find_storages_exact:
  assumes "healthy_store oapi oview nf healthy" and "healthy s"
    and "run_state (findStoragesForDeployment oapi d) s = (requests, s')"
  shows "set requests = {k. \<exists>c. oview s k = Some c \<and> \<not> storage_unnamed c \<and>
      storage_targets_deployment c \<and> storage_target_key c = key_of d} \<and> oview s' = oview s"
proof -
  note os = healthy_store.axioms(1) [OF assms(1)]
  obtain xs t where l: "run_state (api_list oapi (om_Namespace (obj_Meta d))) s = (Inr xs, t)"
    using healthy_store.healthy_list [OF assms(1,2) prod.collapse [symmetric]]
    by (metis prod.collapse)
  let ?p = "\<lambda>c. \<not> storage_unnamed c \<and> storage_targets_deployment c \<and>
      ref_Resource (ss_TargetRef (obj_Spec c)) = om_Name (obj_Meta d)"
  have "requests = map key_of (filter ?p xs)" and t: "s' = t"
    using assms(3) l
    by (simp_all add: findStoragesForDeployment_def storage_unnamed_def
        storage_targets_deployment_def)
  then have "set requests =
      {k. \<exists>x. oview s k = Some x \<and> fst k = om_Namespace (obj_Meta d) \<and> ?p x}"
    using object_store.list_keys [OF os l, of ?p] by simp
  moreover have "oview t = oview s"
    using object_store.list_view [OF os] l by (rule preservesD)
  moreover have "om_Namespace (obj_Meta c) = fst k" if "oview s k = Some c" for c k
    using object_store.view_key [OF os that] by (auto simp: key_of_def)
  ultimately show ?thesis
    using t by (auto simp: storage_target_key_def key_of_def)
qed

theorem find_storages_exact_witness:
  "(''shop'', ''front'') \<in> set (fst (run_state (findStoragesForDeployment storages_api
      sample_deployment) sample_cluster))"
proof -
  have t: "storage_target_key sample_storage = key_of sample_deployment"
    "storage_targets_deployment sample_storage" "\<not> storage_unnamed sample_storage"
    by code_simp+
  from find_storages_exact [OF mem_storages.healthy_store_axioms, OF sample_healthy,
      OF prod.collapse [symmetric]]
  show ?thesis using sample_stored(3) t by auto
qed

end
