(* ===== verification/PVC_Controller.thy ===== *)
theory PVC_Controller
  imports Storage_Deployment
begin

text \<open>
  \<^verbatim>\<open>internal/controller/storage/pvc_controller.go\<close>: one claim per volume of a Storage.  The handler
  loops over the volumes and stops at the first error; it deletes nothing.
\<close>

section \<open>The callback\<close>

text \<open>The assignments to \<^verbatim>\<open>targetPVC.Spec\<close>, for the parsed size.\<close>

definition pvc_fill ::
    "StorageSpec \<Rightarrow> VolumeSpec \<Rightarrow> quantity \<Rightarrow> PersistentVolumeClaimSpec \<Rightarrow> PersistentVolumeClaimSpec" where
  "pvc_fill spec vol qty p =
     (let accessModes = (if length (vsp_AccessModes vol) = 0 then [''ReadWriteOnce'']
                         else vsp_AccessModes vol);
          storageClassPtr = (if ss_StorageClassName spec \<noteq> '''' then Some (ss_StorageClassName spec)
                             else None)
      in p\<lparr>pvc_AccessModes := accessModes,
           pvc_Resources := \<lparr>vrr_Limits = [], vrr_Requests = [(''storage'', qty)]\<rparr>,
           pvc_StorageClassName := storageClassPtr\<rparr>)"

definition pvc_mutate ::
    "lib \<Rightarrow> PersistentVolumeClaim codec \<Rightarrow> Storage \<Rightarrow> VolumeSpec \<Rightarrow> PersistentVolumeClaim \<Rightarrow>
     go_error + PersistentVolumeClaim" where
  "pvc_mutate L cod storage vol targetPVC =
     (case lib_ParseQuantity L (vsp_Size vol) of
        Inl err \<Rightarrow> Inl (wrap ''failed to parse volume size %q: %w'' [vsp_Size vol] err)
      | Inr quantity \<Rightarrow>
          (case set_owner L ''Storage'' storage
                  (targetPVC\<lparr>obj_Spec := pvc_fill (obj_Spec storage) vol quantity (obj_Spec targetPVC)\<rparr>) of
             Inl err \<Rightarrow> Inl err
           | Inr targetPVC \<Rightarrow>
               (case ApplyEscapeHatches L cod targetPVC (ss_EscapeHatches (obj_Spec storage))
                       ''PersistentVolumeClaim'' of
                  Inl err \<Rightarrow> Inl (wrap ''failed to apply escape hatch to PVC: %w'' [] err)
                | Inr patchedPVCObj \<Rightarrow> Inr patchedPVCObj)))"

section \<open>The handler\<close>

definition target_PVC :: "Storage \<Rightarrow> VolumeSpec \<Rightarrow> PersistentVolumeClaim" where
  "target_PVC storage vol =
     named_object (claim_name storage vol) (om_Namespace (obj_Meta storage)) zero_PVCSpec JNull"

text \<open>\<^verbatim>\<open>for _, vol := range storage.Spec.Volumes\<close>\<close>

fun pvc_loop ::
    "lib \<Rightarrow> PersistentVolumeClaim codec \<Rightarrow> ('s, PersistentVolumeClaim) api \<Rightarrow> Storage \<Rightarrow>
     VolumeSpec list \<Rightarrow> ('s, go_error option) state" where
  "pvc_loop L cod pvcs storage [] = State_Monad.return None"
| "pvc_loop L cod pvcs storage (vol # vols) = do {
     err \<leftarrow> api_createOrUpdate pvcs (target_PVC storage vol) (pvc_mutate L cod storage vol);
     (case err of
        Some err \<Rightarrow> State_Monad.return (Some err)
      | None \<Rightarrow> pvc_loop L cod pvcs storage vols)
   }"

definition PVCReconciler_Reconcile ::
    "lib \<Rightarrow> PersistentVolumeClaim codec \<Rightarrow> ('s, Storage) api \<Rightarrow>
     ('s, PersistentVolumeClaim) api \<Rightarrow> key \<Rightarrow> ('s, go_error option) state" where
  "PVCReconciler_Reconcile L cod storages pvcs req = do {
     r \<leftarrow> api_get storages req;
     (case r of
        Inl err \<Rightarrow> State_Monad.return (lib_IgnoreNotFound L err)
      | Inr storage \<Rightarrow>
          if ref_Resource (ss_TargetRef (obj_Spec storage)) = '''' then State_Monad.return None
          else pvc_loop L cod pvcs storage (ss_Volumes (obj_Spec storage)))
   }"

definition PVCReconciler_SetupWithManager :: controller_setup where
  "PVCReconciler_SetupWithManager =
     \<lparr>setup_For = ''Storage'', setup_Owns = [''PersistentVolumeClaim''],
      setup_Watches = [], setup_Named = ''storage-pvc''\<rparr>"

section \<open>The loop\<close>

definition claim_key :: "Storage \<Rightarrow> VolumeSpec \<Rightarrow> key" where
  "claim_key storage vol = (om_Namespace (obj_Meta storage), claim_name storage vol)"

lemma key_of_target_PVC [simp]: "key_of (target_PVC w v) = claim_key w v"
  by (simp add: target_PVC_def claim_key_def)

lemma claim_key_eq [simp]: "claim_key w v = claim_key w v' \<longleftrightarrow> vsp_Name v = vsp_Name v'"
  by (simp add: claim_key_def claim_name_def)

lemma pvc_mutate_plain:
  assumes "hatches_for ''PersistentVolumeClaim'' (ss_EscapeHatches (obj_Spec w)) = []"
  shows "pvc_mutate L cod w v x =
    (case lib_ParseQuantity L (vsp_Size v) of
       Inl err \<Rightarrow> Inl (wrap ''failed to parse volume size %q: %w'' [vsp_Size v] err)
     | Inr q \<Rightarrow> set_owner L ''Storage'' w (x\<lparr>obj_Spec := pvc_fill (obj_Spec w) v q (obj_Spec x)\<rparr>))"
  using assms by (auto simp: pvc_mutate_def split: sum.splits)

lemma pvc_mutate_idem:
  assumes "runtime_lib L"
    and "hatches_for ''PersistentVolumeClaim'' (ss_EscapeHatches (obj_Spec w)) = []"
    and "pvc_mutate L cod w v x = Inr y"
  shows "pvc_mutate L cod w v y = Inr y"
proof -
  have "pvc_fill sp v q (pvc_fill sp v q a) = pvc_fill sp v q a" for sp q a
    by (simp add: pvc_fill_def Let_def)
  with assms(3) show ?thesis
    by (auto simp: pvc_mutate_plain [OF assms(2)] split: sum.splits
        elim: runtime_lib.set_owner_fill_idem [OF assms(1)])
qed

text \<open>What the loop does to the claims, whatever the calls return.\<close>

locale claim_store = object_store capi cview nf
  for capi :: "('s, PersistentVolumeClaim) api" and cview and nf
begin

lemma loop_cases:
  assumes "run_state (pvc_loop L cod capi w (v # vs)) s = (r, s')"
  obtains (first_fails) e where
      "run_state (api_createOrUpdate capi (target_PVC w v) (pvc_mutate L cod w v)) s = (Some e, s')"
      "r = Some e"
  | (goes_on) t where
      "run_state (api_createOrUpdate capi (target_PVC w v) (pvc_mutate L cod w v)) s = (None, t)"
      "run_state (pvc_loop L cod capi w vs) t = (r, s')"
proof -
  obtain a t where
    "run_state (api_createOrUpdate capi (target_PVC w v) (pvc_mutate L cod w v)) s = (a, t)"
    by (metis surj_pair)
  with assms show thesis by (cases a) (auto intro: first_fails goes_on)
qed

lemma loop_frame:
  assumes "run_state (pvc_loop L cod capi w vs) s = (r, s')" and "k \<notin> claim_key w ` set vs"
  shows "cview s' k = cview s k"
  using assms
proof (induction vs arbitrary: s)
  case Nil
  then show ?case by simp
next
  case (Cons v vs)
  from Cons.prems(2) have k: "k \<noteq> key_of (target_PVC w v)" "k \<notin> claim_key w ` set vs" by auto
  from Cons.prems(1) show ?case
    by (cases rule: loop_cases) (use k Cons.IH cou_frame in metis)+
qed

lemma loop_keeps_claims:
  assumes "run_state (pvc_loop L cod capi w vs) s = (r, s')" and "cview s k \<noteq> None"
  shows "cview s' k \<noteq> None"
  using assms
proof (induction vs arbitrary: s)
  case Nil
  then show ?case by simp
next
  case (Cons v vs)
  have keeps: "cview t k \<noteq> None"
    if "run_state (api_createOrUpdate capi (target_PVC w v) (pvc_mutate L cod w v)) s = (a, t)" for a t
    using that by (rule cou_cases) (use Cons.prems(2) in auto)
  from Cons.prems(1) show ?case
    by (cases rule: loop_cases) (use keeps Cons.IH in blast)+
qed

lemma loop_invariant:
  assumes "run_state (pvc_loop L cod capi w vs) s = (r, s')"
    and "all_stored (cview s) P"
    and "\<And>v x y. pvc_mutate L cod w v x = Inr y \<Longrightarrow> key_of y = key_of (target_PVC w v) \<Longrightarrow> P y"
  shows "all_stored (cview s') P"
  using assms(1,2)
proof (induction vs arbitrary: s)
  case Nil
  then show ?case by simp
next
  case (Cons v vs)
  have step: "all_stored (cview t) P"
    if "run_state (api_createOrUpdate capi (target_PVC w v) (pvc_mutate L cod w v)) s = (a, t)" for a t
    using that
  proof (rule cou_cases)
    fix y
    assume y: "pvc_mutate L cod w v (current (cview s) (key_of (target_PVC w v)) (target_PVC w v)) = Inr y"
      "key_of y = key_of (target_PVC w v)" and t: "cview t = (cview s)(key_of (target_PVC w v) \<mapsto> y)"
    from y have "P y" by (rule assms(3))
    with t Cons.prems(2) show ?thesis by (simp add: all_stored_upd)
  qed (use Cons.prems(2) in simp)
  from Cons.prems(1) show ?case
    by (cases rule: loop_cases) (use step Cons.IH in blast)+
qed

lemma loop_success:
  assumes "run_state (pvc_loop L cod capi w vs) s = (None, s')"
    and "distinct (map vsp_Name vs)" and "v \<in> set vs"
  shows "\<exists>y. pvc_mutate L cod w v (current (cview s) (claim_key w v) (target_PVC w v)) = Inr y \<and>
    cview s' (claim_key w v) = Some y"
  using assms
proof (induction vs arbitrary: s)
  case Nil
  then show ?case by simp
next
  case (Cons u vs)
  from Cons.prems(1) obtain t where
    t: "run_state (api_createOrUpdate capi (target_PVC w u) (pvc_mutate L cod w u)) s = (None, t)"
    and rest: "run_state (pvc_loop L cod capi w vs) t = (None, s')"
    by (cases rule: loop_cases) auto
  from cou_ok [OF t] obtain y where
    y: "pvc_mutate L cod w u (current (cview s) (claim_key w u) (target_PVC w u)) = Inr y"
    and ct: "cview t = (cview s)(claim_key w u \<mapsto> y)" by auto
  show ?case
  proof (cases "v = u")
    case True
    from Cons.prems(2) have "claim_key w u \<notin> claim_key w ` set vs" by auto
    with rest have "cview s' (claim_key w u) = cview t (claim_key w u)" by (rule loop_frame)
    with True y ct show ?thesis by simp
  next
    case False
    with Cons.prems have v: "v \<in> set vs" "distinct (map vsp_Name vs)" by auto
    then have "vsp_Name v \<in> vsp_Name ` set vs" by simp
    with Cons.prems(2) have "vsp_Name v \<noteq> vsp_Name u" by auto
    then have "current (cview t) (claim_key w v) x = current (cview s) (claim_key w v) x" for x
      by (simp add: ct current_def)
    with Cons.IH [OF rest v(2,1)] show ?thesis by simp
  qed
qed

end

interpretation mem_claims: claim_store pvcs_api pvcs_view mem_nf
  by unfold_locales

lemma pvc_run_cases:
  assumes "run_state (PVCReconciler_Reconcile L cod oapi capi req) s = (r, s')"
  obtains (owner_error) e where "run_state (api_get oapi req) s = (Inl e, s')"
      "r = lib_IgnoreNotFound L e"
  | (skipped) w where "run_state (api_get oapi req) s = (Inr w, s')" "storage_unnamed w" "r = None"
  | (looped) w t where "run_state (api_get oapi req) s = (Inr w, t)" "\<not> storage_unnamed w"
      "run_state (pvc_loop L cod capi w (ss_Volumes (obj_Spec w))) t = (r, s')"
proof -
  obtain g t where "run_state (api_get oapi req) s = (g, t)" by (metis surj_pair)
  with assms show thesis
    by (cases g)
      (auto simp: PVCReconciler_Reconcile_def storage_unnamed_def split: if_splits
        intro: owner_error skipped looped)
qed

section \<open>The abstract step\<close>

text \<open>
  What the loop does to the claims \<open>v\<close> when nothing disturbs it, and whether it succeeds: the
  volumes in order, up to the first that cannot be claimed.
\<close>

fun claims_spec ::
    "lib \<Rightarrow> PersistentVolumeClaim codec \<Rightarrow> Storage \<Rightarrow> VolumeSpec list \<Rightarrow>
     (key \<Rightarrow> PersistentVolumeClaim option) \<Rightarrow> bool \<times> (key \<Rightarrow> PersistentVolumeClaim option)" where
  "claims_spec L cod w [] v = (True, v)"
| "claims_spec L cod w (vol # vols) v =
     (case pvc_mutate L cod w vol (current v (claim_key w vol) (target_PVC w vol)) of
        Inl e \<Rightarrow> (False, v)
      | Inr y \<Rightarrow>
          if key_of y = claim_key w vol then claims_spec L cod w vols (v(claim_key w vol \<mapsto> y))
          else (False, v))"

definition pvc_spec ::
    "lib \<Rightarrow> PersistentVolumeClaim codec \<Rightarrow> Storage option \<Rightarrow>
     (key \<Rightarrow> PersistentVolumeClaim option) \<Rightarrow> bool \<times> (key \<Rightarrow> PersistentVolumeClaim option)" where
  "pvc_spec L cod owner v =
     (case owner of
        None \<Rightarrow> (True, v)
      | Some w \<Rightarrow>
          if storage_unnamed w then (True, v)
          else claims_spec L cod w (ss_Volumes (obj_Spec w)) v)"

lemma claims_spec_frame:
  "k \<notin> claim_key w ` set vs \<Longrightarrow> snd (claims_spec L cod w vs v) k = v k"
  by (induction vs arbitrary: v) (auto split: sum.splits)

lemma claims_spec_idem:
  assumes "runtime_lib L"
    and "hatches_for ''PersistentVolumeClaim'' (ss_EscapeHatches (obj_Spec w)) = []"
    and "distinct (map vsp_Name vs)"
  shows "claims_spec L cod w vs (snd (claims_spec L cod w vs v)) = claims_spec L cod w vs v"
  using assms(3)
proof (induction vs arbitrary: v)
  case Nil
  then show ?case by simp
next
  case (Cons vol vols)
  let ?k = "claim_key w vol"
  show ?case
  proof (cases "pvc_mutate L cod w vol (current v ?k (target_PVC w vol))")
    case (Inl e)
    then show ?thesis by simp
  next
    case (Inr y)
    let ?R = "snd (claims_spec L cod w vols (v(?k \<mapsto> y)))"
    have y: "pvc_mutate L cod w vol y = Inr y" using assms(1,2) Inr by (rule pvc_mutate_idem)
    from Cons.prems have "?k \<notin> claim_key w ` set vols" by auto
    then have R: "?R ?k = Some y" using claims_spec_frame by simp
    then have R': "?R(?k \<mapsto> y) = ?R" by (simp add: fun_upd_idem)
    have "claims_spec L cod w vols ?R = claims_spec L cod w vols (v(?k \<mapsto> y))"
      by (rule Cons.IH) (use Cons.prems in simp)
    with Inr y R R' show ?thesis by (simp add: current_def del: fun_upd_apply)
  qed
qed

locale healthy_claim_store = claim_store capi cview nf + healthy_store capi cview nf healthy
  for capi :: "('s, PersistentVolumeClaim) api" and cview and nf and healthy
begin

lemma loop_refines:
  assumes "healthy s" and "run_state (pvc_loop L cod capi w vs) s = (r, s')"
  shows "healthy s' \<and> (r = None, cview s') = claims_spec L cod w vs (cview s)"
  using assms
proof (induction vs arbitrary: s)
  case Nil
  then show ?case by simp
next
  case (Cons v vs)
  from Cons.prems(2) show ?case
  proof (cases rule: loop_cases)
    case (first_fails e)
    with healthy_cou_result [OF Cons.prems(1) first_fails(1)] show ?thesis
      by (auto split: sum.splits if_splits)
  next
    case (goes_on t)
    note one = healthy_cou_result [OF Cons.prems(1) goes_on(1)]
    then have "healthy t" by blast
    from Cons.IH [OF this goes_on(2)] one show ?thesis
      by (auto split: sum.splits if_splits)
  qed
qed

end

interpretation mem_healthy_claims: healthy_claim_store pvcs_api pvcs_view mem_nf mem_healthy
  by unfold_locales

lemma pvc_refines_spec:
  assumes hs: "healthy_stores oapi oview capi cview (lib_IsNotFound L) healthy" and "runtime_lib L"
    and h: "healthy s" and run: "run_state (PVCReconciler_Reconcile L cod oapi capi req) s = (r, s')"
  shows "healthy s' \<and> oview s' = oview s \<and> (r = None, cview s') = pvc_spec L cod (oview s req) (cview s)"
proof -
  note oc = healthy_stores.axioms(1) [OF hs]
  note ohs = healthy_stores.axioms(2) [OF hs] and chs = healthy_stores.axioms(3) [OF hs]
  note os = owner_child_stores.axioms(1) [OF oc] and cs = owner_child_stores.axioms(2) [OF oc]
  note get = healthy_store.healthy_get [OF ohs h] object_store.get_result [OF os]
    owner_child_stores.owner_get_cview [OF oc]
  from run show ?thesis
  proof (cases rule: pvc_run_cases)
    case (owner_error e)
    note g = get [OF owner_error(1)]
    then have "oview s req = None" "lib_IsNotFound L e" by (cases "oview s req"; auto)+
    with g owner_error runtime_lib.ignore_not_found [OF assms(2)] show ?thesis
      by (simp add: pvc_spec_def)
  next
    case (skipped w)
    with get [OF skipped(1)] object_store.get_found [OF os skipped(1)] show ?thesis
      by (simp add: pvc_spec_def)
  next
    case (looped w t)
    have "healthy_claim_store capi cview (lib_IsNotFound L) healthy"
      by (intro healthy_claim_store.intro claim_store.intro cs chs)
    from healthy_claim_store.loop_refines [OF this _ looped(3)] get [OF looped(1)]
    have t: "healthy s'" "(r = None, cview s') =
        claims_spec L cod w (ss_Volumes (obj_Spec w)) (cview s)" by auto
    have "preserves oview (pvc_loop L cod capi w vs)" for vs
      by (induction vs) (auto intro!: preserves_bind preserves_case_option
          owner_child_stores.child_frame [OF oc])
    with looped(3) have "oview s' = oview t" by (metis preservesD)
    with t get [OF looped(1)] object_store.get_found [OF os looped(1)] looped(2) show ?thesis
      by (simp add: pvc_spec_def)
  qed
qed

section \<open>Correctness\<close>

text \<open>
  C17: When a run reports success for a Storage with distinct volume names and no escape hatch
  for claims, every volume has its claim: the volume's access modes, or \<^verbatim>\<open>ReadWriteOnce\<close> when it
  names none, the parsed size as the only request, the storage class of the Storage, or none,
  and the Storage as controller.
\<close>

theorem pvcs_claimed:
  assumes "owner_child_stores oapi oview capi cview (lib_IsNotFound L)" and "runtime_lib L"
    and "run_state (PVCReconciler_Reconcile L cod oapi capi req) s = (None, s')"
    and "oview s req = Some w"
    and "ref_Resource (ss_TargetRef (obj_Spec w)) \<noteq> ''''"
    and "hatches_for ''PersistentVolumeClaim'' (ss_EscapeHatches (obj_Spec w)) = []"
    and "distinct (map vsp_Name (ss_Volumes (obj_Spec w)))"
  shows "\<forall>v \<in> set (ss_Volumes (obj_Spec w)). \<exists>y q.
    cview s' (om_Namespace (obj_Meta w), dashed (om_Name (obj_Meta w)) (vsp_Name v)) = Some y \<and>
    lib_ParseQuantity L (vsp_Size v) = Inr q \<and>
    pvc_Resources (obj_Spec y) = \<lparr>vrr_Limits = [], vrr_Requests = [(''storage'', q)]\<rparr> \<and>
    pvc_AccessModes (obj_Spec y) =
      (if vsp_AccessModes v = [] then [''ReadWriteOnce''] else vsp_AccessModes v) \<and>
    pvc_StorageClassName (obj_Spec y) =
      (if ss_StorageClassName (obj_Spec w) = '''' then None
       else Some (ss_StorageClassName (obj_Spec w))) \<and>
    (''Storage'', om_Name (obj_Meta w)) \<in> set (controllers_of (obj_Meta y))"
proof
  fix v
  assume v: "v \<in> set (ss_Volumes (obj_Spec w))"
  note st = owner_child_stores.axioms(1,2) [OF assms(1)]
  from assms(3) obtain t where t: "run_state (api_get oapi req) s = (Inr w, t)"
    and loop: "run_state (pvc_loop L cod capi w (ss_Volumes (obj_Spec w))) t = (None, s')"
  proof (cases rule: pvc_run_cases)
    case (owner_error e)
    then show ?thesis
      using assms(4) object_store.get_missing [OF st(1)] runtime_lib.ignore_not_found [OF assms(2)]
      by (metis option.distinct(1))
  next
    case (skipped x)
    then show ?thesis
      using assms(4,5) object_store.get_found [OF st(1)]
      by (metis option.inject storage_unnamed_def)
  next
    case (looped x u)
    then show ?thesis
      using that assms(4) object_store.get_found [OF st(1) looped(1)] by simp
  qed
  from claim_store.loop_success [OF claim_store.intro [OF st(2)] loop assms(7) v]
  obtain y x where y: "pvc_mutate L cod w v x = Inr y" "cview s' (claim_key w v) = Some y" by blast
  then obtain q where q: "lib_ParseQuantity L (vsp_Size v) = Inr q"
    and o: "set_owner L ''Storage'' w (x\<lparr>obj_Spec := pvc_fill (obj_Spec w) v q (obj_Spec x)\<rparr>) = Inr y"
    by (auto simp: pvc_mutate_plain [OF assms(6)] split: sum.splits)
  from runtime_lib.set_owner_InrD(2,5) [OF assms(2) o] y(2) q
  show "\<exists>y q. cview s' (om_Namespace (obj_Meta w), dashed (om_Name (obj_Meta w)) (vsp_Name v)) = Some y \<and>
    lib_ParseQuantity L (vsp_Size v) = Inr q \<and>
    pvc_Resources (obj_Spec y) = \<lparr>vrr_Limits = [], vrr_Requests = [(''storage'', q)]\<rparr> \<and>
    pvc_AccessModes (obj_Spec y) =
      (if vsp_AccessModes v = [] then [''ReadWriteOnce''] else vsp_AccessModes v) \<and>
    pvc_StorageClassName (obj_Spec y) =
      (if ss_StorageClassName (obj_Spec w) = '''' then None
       else Some (ss_StorageClassName (obj_Spec w))) \<and>
    (''Storage'', om_Name (obj_Meta w)) \<in> set (controllers_of (obj_Meta y))"
    by (intro exI [of _ y] exI [of _ q]) (auto simp: pvc_fill_def Let_def claim_key_def claim_name_def)
qed

abbreviation "sample_pvc_run \<equiv>
  run_state (PVCReconciler_Reconcile mem_lib trivial_codec storages_api pvcs_api
    (''shop'', ''front'')) sample_cluster"

lemma sample_pvc_ok: "sample_pvc_run = (None, snd sample_pvc_run)"
  by (rule run_state_outcome) code_simp

theorem pvcs_claimed_witness:
  "\<exists>y. pvcs_view (snd sample_pvc_run) (''shop'', ''front-data'') = Some y \<and>
     pvc_AccessModes (obj_Spec y) = [''ReadWriteOnce'']"
  using pvcs_claimed [OF storages_pvcs_stores, OF mem_lib.runtime_lib_axioms, OF sample_pvc_ok,
      OF sample_stored(3)]
  by (simp add: sample_storage_def sample_StorageSpec_def sample_ref_def dashed_def) blast

text \<open>
  In the absence of faults a run of the claim controller is one step of its specification,
  which claims the volumes in order up to the first that cannot be claimed; and when the volume
  names are distinct and no escape hatch is meant for claims, a second run changes nothing and
  reports what the first one did.
\<close>

theorem pvc_refines:
  assumes "healthy_stores oapi oview capi cview (lib_IsNotFound L) healthy" and "runtime_lib L"
    and "healthy s"
    and "run_state (PVCReconciler_Reconcile L cod oapi capi req) s = (r, s')"
    and "run_state (PVCReconciler_Reconcile L cod oapi capi req) s' = (r', s'')"
  shows "(r = None, cview s') = pvc_spec L cod (oview s req) (cview s) \<and> oview s' = oview s \<and>
    ((\<forall>w. oview s req = Some w \<longrightarrow>
        hatches_for ''PersistentVolumeClaim'' (ss_EscapeHatches (obj_Spec w)) = [] \<and>
        distinct (map vsp_Name (ss_Volumes (obj_Spec w)))) \<longrightarrow>
      cview s'' = cview s' \<and> (r' = None \<longleftrightarrow> r = None))"
proof -
  note one = pvc_refines_spec [OF assms(1-4)]
  then have two: "(r' = None, cview s'') = pvc_spec L cod (oview s req) (cview s')"
    using pvc_refines_spec [OF assms(1,2) _ assms(5)] by simp
  from one have v: "cview s' = snd (pvc_spec L cod (oview s req) (cview s))" by (metis snd_conv)
  have "cview s'' = cview s' \<and> (r' = None \<longleftrightarrow> r = None)"
    if "\<forall>w. oview s req = Some w \<longrightarrow>
        hatches_for ''PersistentVolumeClaim'' (ss_EscapeHatches (obj_Spec w)) = [] \<and>
        distinct (map vsp_Name (ss_Volumes (obj_Spec w)))"
  proof -
    have "pvc_spec L cod (oview s req) (cview s') = pvc_spec L cod (oview s req) (cview s)"
      using that claims_spec_idem [OF assms(2)] by (simp add: v pvc_spec_def split: option.splits)
    with one two have "(r' = None, cview s'') = (r = None, cview s')" by simp
    then show ?thesis by simp
  qed
  with one show ?thesis by blast
qed

theorem pvc_refines_witness:
  "pvcs_view (snd (run_state (PVCReconciler_Reconcile mem_lib trivial_codec storages_api pvcs_api
      (''shop'', ''front'')) (snd sample_pvc_run))) = pvcs_view (snd sample_pvc_run)"
proof -
  have "hatches_for ''PersistentVolumeClaim'' (ss_EscapeHatches (obj_Spec sample_storage)) = []"
    "distinct (map vsp_Name (ss_Volumes (obj_Spec sample_storage)))"
    by (simp_all add: sample_storage_def sample_StorageSpec_def)
  then show ?thesis
    using pvc_refines [OF storages_pvcs_healthy, OF mem_lib.runtime_lib_axioms, OF sample_healthy,
        OF sample_pvc_ok, OF run_state_outcome [OF refl]] sample_stored(3)
    by auto
qed

text \<open>
  C18: Whatever fails on the way, the claim controller touches only the claims named after
  the volumes of its Storage, and no claim is ever removed: dropping a volume from a Storage,
  or all of them, leaves the claim and its data.
\<close>

theorem pvcs_never_removed:
  assumes "owner_child_stores oapi oview capi cview (lib_IsNotFound L)"
    and "run_state (PVCReconciler_Reconcile L cod oapi capi req) s = (r, s')"
  shows "oview s' = oview s \<and>
    (\<forall>k. cview s k \<noteq> None \<longrightarrow> cview s' k \<noteq> None) \<and>
    (\<forall>k. cview s' k \<noteq> cview s k \<longrightarrow>
       (\<exists>w v. oview s req = Some w \<and> v \<in> set (ss_Volumes (obj_Spec w)) \<and>
          k = (om_Namespace (obj_Meta w), dashed (om_Name (obj_Meta w)) (vsp_Name v))))"
proof -
  note st = owner_child_stores.axioms(1,2) [OF assms(1)]
  note ow = owner_child_stores.owner_get_cview [OF assms(1)]
  have loop_owner: "preserves oview (pvc_loop L cod capi w vs)" for w vs
    by (induction vs)
      (auto intro!: preserves_bind owner_child_stores.child_frame [OF assms(1)]
        preserves_case_option)
  have "preserves oview (PVCReconciler_Reconcile L cod oapi capi req)"
    unfolding PVCReconciler_Reconcile_def
    by (intro preserves_bind preserves_case_sum preserves_if preserves_return
        object_store.get_view [OF st(1)] loop_owner)
  then have "oview s' = oview s" using assms(2) by (rule preservesD)
  moreover have "(cview s k \<noteq> None \<longrightarrow> cview s' k \<noteq> None) \<and> (cview s' k \<noteq> cview s k \<longrightarrow>
       (\<exists>w v. oview s req = Some w \<and> v \<in> set (ss_Volumes (obj_Spec w)) \<and> k = claim_key w v))" for k
    using assms(2)
  proof (cases rule: pvc_run_cases)
    case (looped w t)
    have w: "oview s req = Some w" using object_store.get_found [OF st(1) looped(1)] .
    have t: "cview t = cview s" using looped(1) by (rule ow)
    note cs = claim_store.intro [OF st(2)]
    show ?thesis
      using claim_store.loop_keeps_claims [OF cs looped(3), of k]
        claim_store.loop_frame [OF cs looped(3), of k] w t by auto
  qed (auto dest: ow)
  ultimately show ?thesis by (auto simp: claim_key_def claim_name_def)
qed

theorem pvcs_never_removed_witness:
  "pvcs_view (snd (run_state (PVCReconciler_Reconcile mem_lib trivial_codec storages_api pvcs_api
      (''shop'', ''front'')) (snd sample_pvc_run))) (''shop'', ''front-data'') \<noteq> None"
proof -
  have "pvcs_view (snd sample_pvc_run) (''shop'', ''front-data'') \<noteq> None" by code_simp
  with pvcs_never_removed [OF storages_pvcs_stores, OF run_state_outcome [OF refl]]
  show ?thesis by blast
qed

lemma pvc_loop_unparsable:
  assumes "claim_store capi cview nf"
    and "run_state (pvc_loop L cod capi w (pre @ v # post)) s = (r, s')"
    and "lib_ParseQuantity L (vsp_Size v) = Inl e"
    and "\<forall>u \<in> set (v # post). vsp_Name u \<notin> vsp_Name ` set pre"
  shows "r \<noteq> None \<and> (\<forall>u \<in> set (v # post). cview s' (claim_key w u) = cview s (claim_key w u))"
  using assms(2,4)
proof (induction pre arbitrary: s)
  case Nil
  have fails: "a \<noteq> None \<and> cview t = cview s"
    if "run_state (api_createOrUpdate capi (target_PVC w v) (pvc_mutate L cod w v)) s = (a, t)" for a t
    using object_store.cou_callback_fails [OF claim_store.axioms [OF assms(1)] that] assms(3)
    by (simp add: pvc_mutate_def)
  from Nil.prems(1) have "run_state (pvc_loop L cod capi w (v # post)) s = (r, s')" by simp
  then show ?case
    by (rule claim_store.loop_cases [OF assms(1)]) (use fails in fastforce)+
next
  case (Cons p pre)
  have frame: "cview t (claim_key w u) = cview s (claim_key w u)"
    if "run_state (api_createOrUpdate capi (target_PVC w p) (pvc_mutate L cod w p)) s = (a, t)"
      and "u \<in> set (v # post)" for a t u
    using that Cons.prems(2)
    by (intro object_store.cou_frame [OF claim_store.axioms [OF assms(1)] that(1)]) auto
  from Cons.prems(1) have "run_state (pvc_loop L cod capi w (p # (pre @ v # post))) s = (r, s')"
    by simp
  then show ?case
  proof (rule claim_store.loop_cases [OF assms(1)])
    fix e'
    assume "run_state (api_createOrUpdate capi (target_PVC w p) (pvc_mutate L cod w p)) s = (Some e', s')"
      and "r = Some e'"
    with frame show ?thesis by blast
  next
    fix t
    assume t: "run_state (api_createOrUpdate capi (target_PVC w p) (pvc_mutate L cod w p)) s = (None, t)"
      and "run_state (pvc_loop L cod capi w (pre @ v # post)) t = (r, s')"
    then have "r \<noteq> None \<and> (\<forall>u \<in> set (v # post). cview s' (claim_key w u) = cview t (claim_key w u))"
      using Cons.IH Cons.prems(2) by simp
    with frame [OF t] show ?thesis by metis
  qed
qed

text \<open>
  One volume with a size that does not parse holds up the rest: the run reports an error
  and neither this volume nor any volume after it gets or changes its claim, while the
  volumes before it are still handled.
\<close>

theorem pvc_stops_at_unparsable_size:
  assumes "owner_child_stores oapi oview capi cview (lib_IsNotFound L)" and "runtime_lib L"
    and "run_state (PVCReconciler_Reconcile L cod oapi capi req) s = (r, s')"
    and "oview s req = Some w"
    and "ref_Resource (ss_TargetRef (obj_Spec w)) \<noteq> ''''"
    and "ss_Volumes (obj_Spec w) = pre @ v # post"
    and "distinct (map vsp_Name (ss_Volumes (obj_Spec w)))"
    and "lib_ParseQuantity L (vsp_Size v) = Inl e"
  shows "r \<noteq> None \<and>
    (\<forall>u \<in> set (v # post).
       cview s' (om_Namespace (obj_Meta w), dashed (om_Name (obj_Meta w)) (vsp_Name u)) =
       cview s (om_Namespace (obj_Meta w), dashed (om_Name (obj_Meta w)) (vsp_Name u)))"
proof -
  note st = owner_child_stores.axioms(1,2) [OF assms(1)]
  note ow = owner_child_stores.owner_get_cview [OF assms(1)]
  have d: "\<forall>u \<in> set (v # post). vsp_Name u \<notin> vsp_Name ` set pre"
    using assms(7) unfolding assms(6) by auto
  from assms(3) show ?thesis
  proof (cases rule: pvc_run_cases)
    case (owner_error e)
    then show ?thesis
      using assms(4) object_store.get_missing [OF st(1)] runtime_lib.ignore_not_found [OF assms(2)]
        ow by (metis option.distinct(1))
  next
    case (skipped x)
    then show ?thesis
      using assms(4,5) object_store.get_found [OF st(1)]
      by (metis option.inject storage_unnamed_def)
  next
    case (looped x t)
    have [simp]: "x = w" using object_store.get_found [OF st(1) looped(1)] assms(4) by simp
    from looped(3) have "run_state (pvc_loop L cod capi w (pre @ v # post)) t = (r, s')"
      by (simp add: assms(6))
    from pvc_loop_unparsable [OF claim_store.intro [OF st(2)] this assms(8) d] ow [OF looped(1)]
    show ?thesis by (simp add: claim_key_def claim_name_def)
  qed
qed

definition sample_bad_storage :: Storage where
  "sample_bad_storage =
     sample_storage\<lparr>obj_Spec := sample_StorageSpec\<lparr>ss_Volumes :=
       [\<lparr>vsp_Name = ''data'', vsp_Size = ''huge'', vsp_MountPath = ''/data'', vsp_AccessModes = []\<rparr>,
        \<lparr>vsp_Name = ''logs'', vsp_Size = ''1Gi'', vsp_MountPath = ''/logs'', vsp_AccessModes = []\<rparr>]\<rparr>\<rparr>"

theorem pvc_stops_at_unparsable_size_witness:
  "pvcs_view (snd (run_state (PVCReconciler_Reconcile mem_lib trivial_codec storages_api pvcs_api
      (''shop'', ''front'')) (sample_cluster\<lparr>cl_storages := [sample_bad_storage]\<rparr>)))
      (''shop'', ''front-logs'') = None"
proof -
  let ?c = "sample_cluster\<lparr>cl_storages := [sample_bad_storage]\<rparr>"
  have w: "storages_view ?c (''shop'', ''front'') = Some sample_bad_storage"
    and none: "pvcs_view ?c (''shop'', ''front-logs'') = None"
    by code_simp+
  have "ss_Volumes (obj_Spec sample_bad_storage) = [] @
      \<lparr>vsp_Name = ''data'', vsp_Size = ''huge'', vsp_MountPath = ''/data'', vsp_AccessModes = []\<rparr> #
      [\<lparr>vsp_Name = ''logs'', vsp_Size = ''1Gi'', vsp_MountPath = ''/logs'', vsp_AccessModes = []\<rparr>]"
    by (simp add: sample_bad_storage_def)
  from pvc_stops_at_unparsable_size [OF storages_pvcs_stores, OF mem_lib.runtime_lib_axioms,
      OF run_state_outcome [OF refl], OF w, OF _ this]
  show ?thesis
    using none
    by (simp add: sample_bad_storage_def sample_storage_def sample_StorageSpec_def sample_ref_def
        mem_ParseQuantity_def dashed_def)
qed

end
