(* ===== verification/Service_Controller.thy ===== *)
theory Service_Controller
  imports Child_Controller Patch_Engine Sample_Cluster
begin

text \<open>
  \<^verbatim>\<open>internal/controller/networking/service_controller.go\<close>: the Service of a Networking.  Unlike
  every other child, the Service is named after the target and not after the owner, so two
  Networkings of one target, or a Networking and a Service made by hand, meet at one key.
\<close>

section \<open>The callback\<close>

definition svc_fill :: "NetworkingSpec \<Rightarrow> K8sServiceSpec \<Rightarrow> K8sServiceSpec" where
  "svc_fill spec svc =
     svc\<lparr>svc_Selector := [(''app'', ref_Resource (ns_TargetRef spec))],
         svc_Ports := sspec_Ports (ns_Service spec),
         svc_Type := sspec_Type (ns_Service spec)\<rparr>"

definition svc_mutate ::
    "lib \<Rightarrow> Service codec \<Rightarrow> Networking \<Rightarrow> Service \<Rightarrow> go_error + Service" where
  "svc_mutate L cod net targetSvc =
     (case set_owner L ''Networking'' net
             (targetSvc\<lparr>obj_Spec := svc_fill (obj_Spec net) (obj_Spec targetSvc)\<rparr>) of
        Inl err \<Rightarrow> Inl err
      | Inr targetSvc \<Rightarrow>
          (case ApplyEscapeHatches L cod targetSvc (ns_EscapeHatches (obj_Spec net)) ''Service'' of
             Inl err \<Rightarrow> Inl (wrap ''failed to apply escape hatch to Service: %w'' [] err)
           | Inr patchedSvcObj \<Rightarrow> Inr patchedSvcObj))"

section \<open>The handler\<close>

definition svc_name :: "Networking \<Rightarrow> string" where
  "svc_name net = ref_Resource (ns_TargetRef (obj_Spec net))"

definition target_Svc :: "Networking \<Rightarrow> Service" where
  "target_Svc net =
     named_object (svc_name net) (om_Namespace (obj_Meta net)) zero_ServiceSpec JNull"

definition ServiceReconciler_Reconcile ::
    "lib \<Rightarrow> Service codec \<Rightarrow> ('s, Networking) api \<Rightarrow> ('s, Service) api \<Rightarrow> key \<Rightarrow>
     ('s, go_error option) state" where
  "ServiceReconciler_Reconcile L cod networkings services req = do {
     r \<leftarrow> api_get networkings req;
     (case r of
        Inl err \<Rightarrow> State_Monad.return (lib_IgnoreNotFound L err)
      | Inr net \<Rightarrow>
          if ref_Resource (ns_TargetRef (obj_Spec net)) = '''' then State_Monad.return None
          else if length (sspec_Ports (ns_Service (obj_Spec net))) = 0 then do {
            g \<leftarrow> api_get services (om_Namespace (obj_Meta net), svc_name net);
            (case g of
               Inl _ \<Rightarrow> State_Monad.return None
             | Inr svc \<Rightarrow> do {
                 err \<leftarrow> api_delete services svc;
                 (case err of Some err \<Rightarrow> State_Monad.return (Some err)
                  | None \<Rightarrow> State_Monad.return None)
               })
          }
          else do {
            err \<leftarrow> api_createOrUpdate services (target_Svc net) (svc_mutate L cod net);
            (case err of Some err \<Rightarrow> State_Monad.return (Some err)
             | None \<Rightarrow> State_Monad.return None)
          })
   }"

definition ServiceReconciler_SetupWithManager :: controller_setup where
  "ServiceReconciler_SetupWithManager =
     \<lparr>setup_For = ''Networking'', setup_Owns = [''Service''],
      setup_Watches = [], setup_Named = ''networking-service''\<rparr>"

section \<open>The contract\<close>

definition networking_unnamed :: "Networking \<Rightarrow> bool" where
  "networking_unnamed n \<longleftrightarrow> ref_Resource (ns_TargetRef (obj_Spec n)) = ''''"

definition svc_enabled :: "Networking \<Rightarrow> bool" where
  "svc_enabled n \<longleftrightarrow> length (sspec_Ports (ns_Service (obj_Spec n))) \<noteq> 0"

lemma key_of_target_Svc [simp]:
  "key_of (target_Svc n) = (om_Namespace (obj_Meta n), svc_name n)"
  by (simp add: target_Svc_def)

interpretation svc: pure_child_controller L "ServiceReconciler_Reconcile L cod"
    networking_unnamed svc_enabled target_Svc "svc_mutate L cod"
  by unfold_locales
    (simp add: ServiceReconciler_Reconcile_def child_reconcile_def networking_unnamed_def
      svc_enabled_def cong: sum.case_cong if_cong)

interpretation mem_svc: child_controller_healthy mem_lib "ServiceReconciler_Reconcile mem_lib cod"
    networking_unnamed svc_enabled target_Svc "\<lambda>_. State_Monad.return ()"
    "\<lambda>w _. svc_mutate mem_lib cod w" networkings_api networkings_view services_api services_view
    mem_healthy
  by (rule svc.pure_healthy [OF networkings_services_healthy mem_lib.runtime_lib_axioms,
      unfolded mem_lib_simps])

lemma svc_mutate_plain:
  assumes "hatches_for ''Service'' (ns_EscapeHatches (obj_Spec w)) = []"
  shows "svc_mutate L cod w x =
    set_owner L ''Networking'' w (x\<lparr>obj_Spec := svc_fill (obj_Spec w) (obj_Spec x)\<rparr>)"
  using assms by (auto simp: svc_mutate_def split: sum.splits)

lemma svc_fill_idem: "svc_fill spec (svc_fill spec x) = svc_fill spec x"
  by (simp add: svc_fill_def)

section \<open>Correctness\<close>

text \<open>
  In the absence of faults a run of the Service controller is one step of its
  specification, and with no escape hatch for the Service a second run changes nothing and
  ends like the first.
\<close>

theorem svc_refines:
  assumes "healthy_stores oapi oview capi cview (lib_IsNotFound L) healthy" and "runtime_lib L"
    and "healthy s"
    and "run_state (ServiceReconciler_Reconcile L cod oapi capi req) s = (r, s')"
    and "run_state (ServiceReconciler_Reconcile L cod oapi capi req) s' = (r', s'')"
  shows "(r = None, cview s') =
      child_spec networking_unnamed svc_enabled target_Svc (svc_mutate L cod) (oview s req) (cview s) \<and>
    oview s' = oview s \<and>
    ((\<forall>w. oview s req = Some w \<longrightarrow>
        hatches_for ''Service'' (ns_EscapeHatches (obj_Spec w)) = []) \<longrightarrow>
      cview s'' = cview s' \<and> (r' = None \<longleftrightarrow> r = None))"
  by (rule svc.pure_contract [OF assms])
    (simp add: svc_mutate_plain,
      rule runtime_lib.set_owner_fill_idem [OF assms(2)], simp_all add: svc_fill_idem)

abbreviation "sample_svc_run c \<equiv>
  run_state (ServiceReconciler_Reconcile mem_lib trivial_codec networkings_api services_api
    (''shop'', ''front'')) c"

theorem svc_refines_witness:
  "services_view (snd (sample_svc_run sample_cluster)) =
     snd (child_spec networking_unnamed svc_enabled target_Svc (svc_mutate mem_lib trivial_codec)
            (Some sample_networking) (services_view sample_cluster))"
  using svc_refines [OF networkings_services_healthy, OF mem_lib.runtime_lib_axioms,
      OF sample_healthy, OF run_state_outcome [OF refl], OF run_state_outcome [OF refl]]
    sample_stored(4)
  by (metis snd_conv)

text \<open>
  C39: Creation respects ownership, deletion does not.  In the absence of faults, a Networking
  with ports fails and leaves the Service of its target alone when another object controls
  that Service; a Networking without ports removes the Service of its target whoever controls
  it, and also when nobody does.
\<close>

theorem svc_deletes_foreign_service:
  assumes "healthy_stores oapi oview capi cview (lib_IsNotFound L) healthy" and "runtime_lib L"
    and "healthy s"
    and "run_state (ServiceReconciler_Reconcile L cod oapi capi req) s = (r, s')"
    and "oview s req = Some w" and "ref_Resource (ns_TargetRef (obj_Spec w)) \<noteq> ''''"
    and "cview s (om_Namespace (obj_Meta w), ref_Resource (ns_TargetRef (obj_Spec w))) = Some x"
    and "c \<in> set (controllers_of (obj_Meta x))" and "c \<noteq> (''Networking'', om_Name (obj_Meta w))"
  shows "if sspec_Ports (ns_Service (obj_Spec w)) = []
    then r = None \<and>
      cview s' = (cview s)((om_Namespace (obj_Meta w), ref_Resource (ns_TargetRef (obj_Spec w))) := None)
    else r \<noteq> None \<and> cview s' = cview s"
proof -
  obtain e where e: "svc_mutate L cod w x = Inl e"
    using runtime_lib.set_owner_refuses [OF assms(2), of c
        "x\<lparr>obj_Spec := svc_fill (obj_Spec w) (obj_Spec x)\<rparr>" "''Networking''" w] assms(8,9)
    by (auto simp: svc_mutate_def)
  have "\<not> networking_unnamed w" "svc_enabled w \<longleftrightarrow> sspec_Ports (ns_Service (obj_Spec w)) \<noteq> []"
    using assms(6) by (simp_all add: networking_unnamed_def svc_enabled_def)
  then show ?thesis
    using svc.pure_refines [OF assms(1-4)] assms(5,7) e
    by (auto simp: child_spec_def current_def svc_name_def)
qed

text \<open>A second Networking of the same target, without ports; \<open>front\<close> controls the Service.\<close>

definition rival_networking :: Networking where
  "rival_networking =
     named_object ''other'' ''shop''
       (zero_NetworkingSpec\<lparr>ns_TargetRef := sample_ref\<rparr>) \<lparr>networking_Conditions = []\<rparr>"

theorem svc_deletes_foreign_service_witness:
  "\<exists>c. services_view c (''shop'', ''web'') \<noteq> None \<and>
     services_view (snd (run_state (ServiceReconciler_Reconcile mem_lib trivial_codec
       networkings_api services_api (''shop'', ''other'')) c)) (''shop'', ''web'') = None"
proof -
  let ?c = "(snd (sample_svc_run sample_cluster))
    \<lparr>cl_networkings := [sample_networking, rival_networking]\<rparr>"
  have h: "mem_healthy ?c" by code_simp
  have w: "networkings_view ?c (''shop'', ''other'') = Some rival_networking" by code_simp
  have x: "services_view ?c (''shop'', ''web'') = Some (hd (cl_services ?c))"
    and f: "(''Networking'', ''front'') \<in> set (controllers_of (obj_Meta (hd (cl_services ?c))))"
    by code_simp+
  have r: "om_Namespace (obj_Meta rival_networking) = ''shop''"
    "ref_Resource (ns_TargetRef (obj_Spec rival_networking)) = ''web''"
    "om_Name (obj_Meta rival_networking) = ''other''"
    "sspec_Ports (ns_Service (obj_Spec rival_networking)) = []"
    by (simp_all add: rival_networking_def sample_ref_def zero_NetworkingSpec_def)
  from svc_deletes_foreign_service [OF networkings_services_healthy,
      OF mem_lib.runtime_lib_axioms, OF h, OF run_state_outcome [OF refl], OF w, unfolded r,
      OF _ x f]
  show ?thesis using x by (intro exI [of _ ?c]) simp
qed

end
