(* ===== verification/Ingress_Controller.thy ===== *)
theory Ingress_Controller
  imports Service_Controller
begin

text \<open>
  \<^verbatim>\<open>internal/controller/networking/ingress_controller.go\<close>: the Ingress of a Networking, one rule
  per host of each route, public routes before private ones.
\<close>

section \<open>The rules\<close>

definition ingress_path :: "NetworkingSpec \<Rightarrow> int32 \<Rightarrow> string \<Rightarrow> HTTPIngressPath" where
  "ingress_path spec portNum pathStr =
     \<lparr>hip_Path = pathStr, hip_PathType = Some ''Prefix'',
      hip_Backend =
        \<lparr>ib_Service = Some
           \<lparr>isb_Name = ref_Resource (ns_TargetRef spec),
            isb_Port = \<lparr>sbp_Name = '''', sbp_Number = portNum\<rparr>\<rparr>,
         ib_Resource = None\<rparr>\<rparr>"

text \<open>The rules of one route: the body of \<^verbatim>\<open>for _, route := range allRoutes\<close>.\<close>

definition route_rules :: "NetworkingSpec \<Rightarrow> GatewayRoute \<Rightarrow> IngressRule list" where
  "route_rules spec route =
     (let paths = (if length (route_Paths route) = 0 then [''/''] else route_Paths route);
          portNum = (case sspec_Ports (ns_Service spec) of [] \<Rightarrow> 80 | p # _ \<Rightarrow> sp_Port p);
          httpPaths = map (ingress_path spec portNum) paths;
          hostnames = (if length (route_Hostnames route) = 0 then [''''] else route_Hostnames route)
      in map (\<lambda>hostname. \<lparr>rule_Host = hostname, rule_HTTP = Some httpPaths\<rparr>) hostnames)"

definition ingress_rules :: "NetworkingSpec \<Rightarrow> IngressRule list" where
  "ingress_rules spec =
     (let allRoutes = ingress_PublicRoutes (ns_Ingress spec) @ ingress_PrivateRoutes (ns_Ingress spec)
      in if length allRoutes = 0 then
           [\<lparr>rule_Host = '''', rule_HTTP = Some [ingress_path spec 80 ''/'']\<rparr>]
         else concat (map (route_rules spec) allRoutes))"

definition ingress_tls :: "NetworkingSpec \<Rightarrow> IngressRule list \<Rightarrow> IngressTLS list" where
  "ingress_tls spec rules =
     (if tls_SecretName (ingress_TLS (ns_Ingress spec)) \<noteq> '''' then
        [\<lparr>itls_Hosts = filter (\<lambda>h. h \<noteq> '''') (map rule_Host rules),
          itls_SecretName = tls_SecretName (ingress_TLS (ns_Ingress spec))\<rparr>]
      else [])"

definition ing_fill :: "NetworkingSpec \<Rightarrow> K8sIngressSpec \<Rightarrow> K8sIngressSpec" where
  "ing_fill spec ing =
     (let rules = ingress_rules spec
      in ing\<lparr>ing_Rules := rules, ing_TLS := ingress_tls spec rules\<rparr>)"

definition ing_mutate ::
    "lib \<Rightarrow> Ingress codec \<Rightarrow> Networking \<Rightarrow> Ingress \<Rightarrow> go_error + Ingress" where
  "ing_mutate L cod net targetIng =
     (case set_owner L ''Networking'' net
             (targetIng\<lparr>obj_Spec := ing_fill (obj_Spec net) (obj_Spec targetIng)\<rparr>) of
        Inl err \<Rightarrow> Inl err
      | Inr targetIng \<Rightarrow>
          (case ApplyEscapeHatches L cod targetIng (ns_EscapeHatches (obj_Spec net)) ''Ingress'' of
             Inl err \<Rightarrow> Inl (wrap ''failed to apply escape hatch to Ingress: %w'' [] err)
           | Inr patchedIngObj \<Rightarrow> Inr patchedIngObj))"

section \<open>The handler\<close>

definition has_ingress :: "Networking \<Rightarrow> bool" where
  "has_ingress net \<longleftrightarrow>
     length (ingress_PublicRoutes (ns_Ingress (obj_Spec net))) > 0 \<or>
     length (ingress_PrivateRoutes (ns_Ingress (obj_Spec net))) > 0 \<or>
     tls_SecretName (ingress_TLS (ns_Ingress (obj_Spec net))) \<noteq> ''''"

definition ing_name :: "Networking \<Rightarrow> string" where
  "ing_name net = dashed (om_Name (obj_Meta net)) ''ingress''"

definition target_Ing :: "Networking \<Rightarrow> Ingress" where
  "target_Ing net =
     named_object (ing_name net) (om_Namespace (obj_Meta net)) zero_IngressSpec JNull"

definition IngressReconciler_Reconcile ::
    "lib \<Rightarrow> Ingress codec \<Rightarrow> ('s, Networking) api \<Rightarrow> ('s, Ingress) api \<Rightarrow> key \<Rightarrow>
     ('s, go_error option) state" where
  "IngressReconciler_Reconcile L cod networkings ingresses req = do {
     r \<leftarrow> api_get networkings req;
     (case r of
        Inl err \<Rightarrow> State_Monad.return (lib_IgnoreNotFound L err)
      | Inr net \<Rightarrow>
          if ref_Resource (ns_TargetRef (obj_Spec net)) = '''' then State_Monad.return None
          else if \<not> has_ingress net then do {
            g \<leftarrow> api_get ingresses (om_Namespace (obj_Meta net), ing_name net);
            (case g of
               Inl _ \<Rightarrow> State_Monad.return None
             | Inr ing \<Rightarrow> do {
                 err \<leftarrow> api_delete ingresses ing;
                 (case err of Some err \<Rightarrow> State_Monad.return (Some err)
                  | None \<Rightarrow> State_Monad.return None)
               })
          }
          else do {
            err \<leftarrow> api_createOrUpdate ingresses (target_Ing net) (ing_mutate L cod net);
            (case err of Some err \<Rightarrow> State_Monad.return (Some err)
             | None \<Rightarrow> State_Monad.return None)
          })
   }"

definition IngressReconciler_SetupWithManager :: controller_setup where
  "IngressReconciler_SetupWithManager =
     \<lparr>setup_For = ''Networking'', setup_Owns = [''Ingress''],
      setup_Watches = [], setup_Named = ''networking-ingress''\<rparr>"

section \<open>The contract\<close>

lemma key_of_target_Ing [simp]:
  "key_of (target_Ing n) = (om_Namespace (obj_Meta n), ing_name n)"
  by (simp add: target_Ing_def)

interpretation ing: pure_child_controller L "IngressReconciler_Reconcile L cod"
    networking_unnamed has_ingress target_Ing "ing_mutate L cod"
  by unfold_locales
    (simp add: IngressReconciler_Reconcile_def child_reconcile_def networking_unnamed_def
      cong: sum.case_cong if_cong)

interpretation mem_ing: child_controller_healthy mem_lib "IngressReconciler_Reconcile mem_lib cod"
    networking_unnamed has_ingress target_Ing "\<lambda>_. State_Monad.return ()"
    "\<lambda>w _. ing_mutate mem_lib cod w" networkings_api networkings_view ingresses_api ingresses_view
    mem_healthy
  by (rule ing.pure_healthy [OF networkings_ingresses_healthy mem_lib.runtime_lib_axioms,
      unfolded mem_lib_simps])

lemma ing_mutate_plain:
  assumes "hatches_for ''Ingress'' (ns_EscapeHatches (obj_Spec w)) = []"
  shows "ing_mutate L cod w x =
    set_owner L ''Networking'' w (x\<lparr>obj_Spec := ing_fill (obj_Spec w) (obj_Spec x)\<rparr>)"
  using assms by (auto simp: ing_mutate_def split: sum.splits)

lemma ing_fill_idem: "ing_fill spec (ing_fill spec x) = ing_fill spec x"
  by (simp add: ing_fill_def Let_def)

text \<open>What a successful run leaves in the store.\<close>

lemma ing_success:
  assumes "owner_child_stores oapi oview capi cview (lib_IsNotFound L)" and "runtime_lib L"
    and "run_state (IngressReconciler_Reconcile L cod oapi capi req) s = (None, s')"
    and "oview s req = Some w"
    and "ref_Resource (ns_TargetRef (obj_Spec w)) \<noteq> ''''" and "has_ingress w"
    and "hatches_for ''Ingress'' (ns_EscapeHatches (obj_Spec w)) = []"
  obtains y where "cview s' = (cview s)((om_Namespace (obj_Meta w), ing_name w) \<mapsto> y)"
    "ing_Rules (obj_Spec y) = ingress_rules (obj_Spec w)"
    "ing_TLS (obj_Spec y) = ingress_tls (obj_Spec w) (ingress_rules (obj_Spec w))"
    "(''Networking'', om_Name (obj_Meta w)) \<in> set (controllers_of (obj_Meta y))"
proof -
  have "\<not> networking_unnamed w" using assms(5) by (simp add: networking_unnamed_def)
  from ing.pure_success [OF assms(1-4) this assms(6)] obtain x y
    where m: "ing_mutate L cod w x = Inr y"
      and st: "cview s' = (cview s)(key_of (target_Ing w) \<mapsto> y)" by blast
  note y = runtime_lib.set_owner_InrD(2,5) [OF assms(2) m [unfolded ing_mutate_plain [OF assms(7)]]]
  show thesis
    by (rule that [of y]) (use st y in \<open>simp_all add: ing_fill_def Let_def\<close>)
qed

section \<open>Correctness\<close>

lemma route_rules_hosts:
  "map rule_Host (route_rules spec route) =
     (if route_Hostnames route = [] then [''''] else route_Hostnames route)"
  by (simp add: route_rules_def Let_def comp_def)

lemma route_rules_paths:
  "rl \<in> set (route_rules spec route) \<Longrightarrow>
     rule_HTTP rl = Some (map (ingress_path spec
         (case sspec_Ports (ns_Service spec) of [] \<Rightarrow> 80 | p # _ \<Rightarrow> sp_Port p))
       (if route_Paths route = [] then [''/''] else route_Paths route))"
  by (auto simp: route_rules_def Let_def split: if_splits)

text \<open>
  C20: When a run reports success for a Networking that names a target and has at least one
  route, and no escape hatch is meant for the Ingress, then the hosts of the stored rules are
  the host names of the public routes followed by those of the private ones, in order, a
  route without host names giving one rule for all hosts; every path of a rule is a path of
  its route, or the root when the route has none; and every backend is the Service named
  after the target, at the first port of the Networking, or port 80 when it has none.
\<close>

theorem ingress_routes:
  assumes "owner_child_stores oapi oview capi cview (lib_IsNotFound L)" and "runtime_lib L"
    and "run_state (IngressReconciler_Reconcile L cod oapi capi req) s = (None, s')"
    and "oview s req = Some w"
    and "ref_Resource (ns_TargetRef (obj_Spec w)) \<noteq> ''''"
    and "routes = ingress_PublicRoutes (ns_Ingress (obj_Spec w)) @
      ingress_PrivateRoutes (ns_Ingress (obj_Spec w))" and "routes \<noteq> []"
    and "hatches_for ''Ingress'' (ns_EscapeHatches (obj_Spec w)) = []"
  shows "\<exists>y. cview s' = (cview s)((om_Namespace (obj_Meta w), ing_name w) \<mapsto> y) \<and>
    map rule_Host (ing_Rules (obj_Spec y)) =
      concat (map (\<lambda>route. if route_Hostnames route = [] then [''''] else route_Hostnames route) routes) \<and>
    (\<forall>rl \<in> set (ing_Rules (obj_Spec y)). \<exists>route \<in> set routes. \<exists>paths.
       rule_HTTP rl = Some paths \<and>
       map hip_Path paths = (if route_Paths route = [] then [''/''] else route_Paths route) \<and>
       (rule_Host rl \<in> set (route_Hostnames route) \<or> rule_Host rl = '''' \<and> route_Hostnames route = []) \<and>
       (\<forall>p \<in> set paths. ib_Service (hip_Backend p) =
          Some \<lparr>isb_Name = ref_Resource (ns_TargetRef (obj_Spec w)),
                isb_Port = \<lparr>sbp_Name = '''',
                  sbp_Number = (case sspec_Ports (ns_Service (obj_Spec w)) of
                    [] \<Rightarrow> 80 | p # _ \<Rightarrow> sp_Port p)\<rparr>\<rparr>))"
proof -
  have has: "has_ingress w" using assms(6,7) by (auto simp: has_ingress_def)
  from ing_success [OF assms(1-5) has assms(8)] obtain y
    where st: "cview s' = (cview s)((om_Namespace (obj_Meta w), ing_name w) \<mapsto> y)"
      and rules: "ing_Rules (obj_Spec y) = ingress_rules (obj_Spec w)" by blast
  have all: "ingress_rules (obj_Spec w) = concat (map (route_rules (obj_Spec w)) routes)"
    using assms(6,7) by (auto simp: ingress_rules_def)
  have hosts: "map rule_Host (ingress_rules (obj_Spec w)) =
      concat (map (\<lambda>route. if route_Hostnames route = [] then [''''] else route_Hostnames route) routes)"
    by (simp add: all map_concat comp_def route_rules_hosts)
  have "\<exists>route \<in> set routes. \<exists>paths. rule_HTTP rl = Some paths \<and>
       map hip_Path paths = (if route_Paths route = [] then [''/''] else route_Paths route) \<and>
       (rule_Host rl \<in> set (route_Hostnames route) \<or> rule_Host rl = '''' \<and> route_Hostnames route = []) \<and>
       (\<forall>p \<in> set paths. ib_Service (hip_Backend p) =
          Some \<lparr>isb_Name = ref_Resource (ns_TargetRef (obj_Spec w)),
                isb_Port = \<lparr>sbp_Name = '''',
                  sbp_Number = (case sspec_Ports (ns_Service (obj_Spec w)) of
                    [] \<Rightarrow> 80 | p # _ \<Rightarrow> sp_Port p)\<rparr>\<rparr>)"
    if "rl \<in> set (ingress_rules (obj_Spec w))" for rl
  proof -
    from that all obtain route where r: "route \<in> set routes" "rl \<in> set (route_rules (obj_Spec w) route)"
      by auto
    then have "rule_Host rl \<in> set (map rule_Host (route_rules (obj_Spec w) route))" by simp
    then have "rule_Host rl \<in> set (route_Hostnames route) \<or> rule_Host rl = '''' \<and> route_Hostnames route = []"
      unfolding route_rules_hosts by (auto split: if_splits)
    with r route_rules_paths [OF r(2)] show ?thesis
      by (intro bexI [of _ route]) (auto simp: ingress_path_def comp_def)
  qed
  with st rules hosts show ?thesis by (intro exI [of _ y]) simp
qed

abbreviation "sample_ing_run c \<equiv>
  run_state (IngressReconciler_Reconcile mem_lib trivial_codec networkings_api ingresses_api
    (''shop'', ''front'')) c"

theorem ingress_routes_witness:
  "\<exists>y. ingresses_view (snd (sample_ing_run sample_cluster)) (''shop'', ''front-ingress'') = Some y \<and>
     map rule_Host (ing_Rules (obj_Spec y)) = [''shop.com'', ''www.shop.com'', ''admin.shop'']"
proof -
  have run: "sample_ing_run sample_cluster = (None, snd (sample_ing_run sample_cluster))"
    by (rule run_state_outcome) code_simp
  from ingress_routes [OF networkings_ingresses_stores, OF mem_lib.runtime_lib_axioms, OF run,
      OF sample_stored(4), OF _ refl]
  show ?thesis
    by (simp add: sample_networking_def sample_NetworkingSpec_def sample_ref_def ing_name_def
        dashed_def) (elim exE conjE, rule exI, rule conjI, simp, simp)
qed

text \<open>
  The TLS section follows the rules: with a certificate named, the stored Ingress has one
  entry with that certificate and every non-empty host of its rules, in their order; without
  one it has none, whatever was there before.
\<close>

theorem ingress_tls_hosts:
  assumes "owner_child_stores oapi oview capi cview (lib_IsNotFound L)" and "runtime_lib L"
    and "run_state (IngressReconciler_Reconcile L cod oapi capi req) s = (None, s')"
    and "oview s req = Some w"
    and "ref_Resource (ns_TargetRef (obj_Spec w)) \<noteq> ''''" and "has_ingress w"
    and "hatches_for ''Ingress'' (ns_EscapeHatches (obj_Spec w)) = []"
  shows "\<exists>y. cview s' (om_Namespace (obj_Meta w), ing_name w) = Some y \<and>
    (if tls_SecretName (ingress_TLS (ns_Ingress (obj_Spec w))) = ''''
     then ing_TLS (obj_Spec y) = []
     else \<exists>hosts. ing_TLS (obj_Spec y) =
         [\<lparr>itls_Hosts = hosts,
           itls_SecretName = tls_SecretName (ingress_TLS (ns_Ingress (obj_Spec w)))\<rparr>] \<and>
       set hosts = rule_Host ` set (ing_Rules (obj_Spec y)) - {''''} \<and>
       hosts = filter (\<lambda>h. h \<noteq> '''') (map rule_Host (ing_Rules (obj_Spec y))))"
proof -
  from ing_success [OF assms] obtain y
    where y: "cview s' = (cview s)((om_Namespace (obj_Meta w), ing_name w) \<mapsto> y)"
      "ing_Rules (obj_Spec y) = ingress_rules (obj_Spec w)"
      "ing_TLS (obj_Spec y) = ingress_tls (obj_Spec w) (ingress_rules (obj_Spec w))" by blast
  then show ?thesis by (intro exI [of _ y]) (auto simp: ingress_tls_def)
qed

theorem ingress_tls_hosts_witness:
  "\<exists>y. ingresses_view (snd (sample_ing_run sample_cluster)) (''shop'', ''front-ingress'') = Some y \<and>
     (\<exists>hosts. ing_TLS (obj_Spec y) = [\<lparr>itls_Hosts = hosts, itls_SecretName = ''cert''\<rparr>])"
proof -
  have run: "sample_ing_run sample_cluster = (None, snd (sample_ing_run sample_cluster))"
    by (rule run_state_outcome) code_simp
  from ingress_tls_hosts [OF networkings_ingresses_stores, OF mem_lib.runtime_lib_axioms, OF run,
      OF sample_stored(4)]
  show ?thesis
    by (simp add: sample_networking_def sample_NetworkingSpec_def sample_ref_def ing_name_def
        dashed_def has_ingress_def) blast
qed

text \<open>
  The rule made when a Networking names a certificate but no route sends all traffic to
  port 80 of the Service, also when the Networking declares ports and 80 is not one of them:
  the Ingress then points at a port the Service does not have.
\<close>

theorem ingress_default_rule_ignores_ports:
  assumes "owner_child_stores oapi oview capi cview (lib_IsNotFound L)" and "runtime_lib L"
    and "run_state (IngressReconciler_Reconcile L cod oapi capi req) s = (None, s')"
    and "oview s req = Some w"
    and "ref_Resource (ns_TargetRef (obj_Spec w)) \<noteq> ''''" and "has_ingress w"
    and "hatches_for ''Ingress'' (ns_EscapeHatches (obj_Spec w)) = []"
    and "ingress_PublicRoutes (ns_Ingress (obj_Spec w)) = []"
    and "ingress_PrivateRoutes (ns_Ingress (obj_Spec w)) = []"
    and "80 \<notin> sp_Port ` set (sspec_Ports (ns_Service (obj_Spec w)))"
  shows "\<exists>y p b. cview s' (om_Namespace (obj_Meta w), ing_name w) = Some y \<and>
    ing_Rules (obj_Spec y) = [\<lparr>rule_Host = '''', rule_HTTP = Some [p]\<rparr>] \<and>
    ib_Service (hip_Backend p) = Some b \<and>
    isb_Name b = svc_name w \<and>
    sbp_Number (isb_Port b) \<notin> sp_Port ` set (svc_Ports (svc_fill (obj_Spec w) x))"
proof -
  from ing_success [OF assms(1-7)] obtain y
    where y: "cview s' = (cview s)((om_Namespace (obj_Meta w), ing_name w) \<mapsto> y)"
      "ing_Rules (obj_Spec y) = ingress_rules (obj_Spec w)" by blast
  then show ?thesis
    using assms(8-10)
    by (intro exI [of _ y]) (simp add: ingress_rules_def ingress_path_def svc_name_def svc_fill_def)
qed

definition sample_tls_networking :: Networking where
  "sample_tls_networking =
     sample_networking\<lparr>obj_Spec := sample_NetworkingSpec\<lparr>ns_Ingress :=
       \<lparr>ingress_PrivateRoutes = [], ingress_PublicRoutes = [],
        ingress_TLS = \<lparr>tls_SecretName = ''cert''\<rparr>\<rparr>\<rparr>\<rparr>"

theorem ingress_default_rule_ignores_ports_witness:
  "\<exists>y p b. ingresses_view (snd (sample_ing_run
        (sample_cluster\<lparr>cl_networkings := [sample_tls_networking]\<rparr>))) (''shop'', ''front-ingress'') =
      Some y \<and>
    ing_Rules (obj_Spec y) = [\<lparr>rule_Host = '''', rule_HTTP = Some [p]\<rparr>] \<and>
    ib_Service (hip_Backend p) = Some b \<and> sbp_Number (isb_Port b) \<notin> {8080}"
proof -
  let ?c = "sample_cluster\<lparr>cl_networkings := [sample_tls_networking]\<rparr>"
  have run: "sample_ing_run ?c = (None, snd (sample_ing_run ?c))"
    by (rule run_state_outcome) code_simp
  have w: "networkings_view ?c (''shop'', ''front'') = Some sample_tls_networking" by code_simp
  have f: "ref_Resource (ns_TargetRef (obj_Spec sample_tls_networking)) \<noteq> ''''"
    "has_ingress sample_tls_networking"
    "hatches_for ''Ingress'' (ns_EscapeHatches (obj_Spec sample_tls_networking)) = []"
    "ingress_PublicRoutes (ns_Ingress (obj_Spec sample_tls_networking)) = []"
    "ingress_PrivateRoutes (ns_Ingress (obj_Spec sample_tls_networking)) = []"
    "80 \<notin> sp_Port ` set (sspec_Ports (ns_Service (obj_Spec sample_tls_networking)))"
    "om_Namespace (obj_Meta sample_tls_networking) = ''shop''"
    "ing_name sample_tls_networking = ''front-ingress''"
    by (simp_all add: sample_tls_networking_def sample_networking_def sample_NetworkingSpec_def
        sample_ref_def has_ingress_def ing_name_def dashed_def)
  have ports: "sp_Port ` set (svc_Ports (svc_fill (obj_Spec sample_tls_networking) x)) = {8080}" for x
    by (simp add: sample_tls_networking_def sample_NetworkingSpec_def svc_fill_def)
  from ingress_default_rule_ignores_ports [OF networkings_ingresses_stores,
      OF mem_lib.runtime_lib_axioms, OF run, OF w, OF f(1-6), unfolded f(7,8) ports]
  show ?thesis by blast
qed

text \<open>
  Private routes are published exactly like public ones: two successful runs, for
  Networkings that agree in everything but which of their routes are private, store the same
  rules and the same TLS section.
\<close>

theorem private_routes_published:
  assumes "owner_child_stores oapi oview capi cview (lib_IsNotFound L)" and "runtime_lib L"
    and "run_state (IngressReconciler_Reconcile L cod oapi capi req) s = (None, s')"
    and "run_state (IngressReconciler_Reconcile L cod oapi capi req) t = (None, t')"
    and "oview s req = Some w" and "oview t req = Some w'"
    and "w' = w\<lparr>obj_Spec := (obj_Spec w)\<lparr>ns_Ingress := (ns_Ingress (obj_Spec w))
        \<lparr>ingress_PublicRoutes := pub, ingress_PrivateRoutes := priv\<rparr>\<rparr>\<rparr>"
    and "pub @ priv = ingress_PublicRoutes (ns_Ingress (obj_Spec w)) @
        ingress_PrivateRoutes (ns_Ingress (obj_Spec w))"
    and "ref_Resource (ns_TargetRef (obj_Spec w)) \<noteq> ''''" and "has_ingress w"
    and "hatches_for ''Ingress'' (ns_EscapeHatches (obj_Spec w)) = []"
  shows "\<exists>y y'. cview s' (om_Namespace (obj_Meta w), ing_name w) = Some y \<and>
    cview t' (om_Namespace (obj_Meta w), ing_name w) = Some y' \<and>
    ing_Rules (obj_Spec y') = ing_Rules (obj_Spec y) \<and> ing_TLS (obj_Spec y') = ing_TLS (obj_Spec y)"
proof -
  have len: "length pub + length priv = length (ingress_PublicRoutes (ns_Ingress (obj_Spec w))) +
      length (ingress_PrivateRoutes (ns_Ingress (obj_Spec w)))"
    using arg_cong [OF assms(8), of length] by simp
  have w': "ref_Resource (ns_TargetRef (obj_Spec w')) \<noteq> ''''" "has_ingress w'"
    "hatches_for ''Ingress'' (ns_EscapeHatches (obj_Spec w')) = []"
    "om_Namespace (obj_Meta w') = om_Namespace (obj_Meta w)" "ing_name w' = ing_name w"
    using assms(7,9-11) len
    by (auto simp: has_ingress_def ing_name_def add_pos_pos)
  have rules: "ingress_rules (obj_Spec w') = ingress_rules (obj_Spec w)"
    using assms(7,8) arg_cong [OF assms(8), of "\<lambda>rs. concat (map f rs)" for f] len
    by (simp add: ingress_rules_def route_rules_def [abs_def] ingress_path_def [abs_def] Let_def
        flip: concat_append map_append)
  from ing_success [OF assms(1-3,5,9-11)] ing_success [OF assms(1,2,4,6) w'(1-3)]
  obtain y y' where "cview s' = (cview s)((om_Namespace (obj_Meta w), ing_name w) \<mapsto> y)"
    "ing_Rules (obj_Spec y) = ingress_rules (obj_Spec w)"
    "ing_TLS (obj_Spec y) = ingress_tls (obj_Spec w) (ingress_rules (obj_Spec w))"
    "cview t' = (cview t)((om_Namespace (obj_Meta w'), ing_name w') \<mapsto> y')"
    "ing_Rules (obj_Spec y') = ingress_rules (obj_Spec w')"
    "ing_TLS (obj_Spec y') = ingress_tls (obj_Spec w') (ingress_rules (obj_Spec w'))"
    by metis
  then show ?thesis
    using w' rules assms(7) by (intro exI [of _ y] exI [of _ y']) (simp add: ingress_tls_def)
qed

text \<open>The sample Networking with its private route made public.\<close>

definition sample_public_networking :: Networking where
  "sample_public_networking =
     sample_networking\<lparr>obj_Spec := (obj_Spec sample_networking)\<lparr>ns_Ingress :=
       (ns_Ingress (obj_Spec sample_networking))
         \<lparr>ingress_PublicRoutes :=
            [\<lparr>route_Hostnames = [''shop.com'', ''www.shop.com''], route_Paths = []\<rparr>,
             \<lparr>route_Hostnames = [''admin.shop''], route_Paths = [''/admin'']\<rparr>],
          ingress_PrivateRoutes := []\<rparr>\<rparr>\<rparr>"

theorem private_routes_published_witness:
  "\<exists>y y'. ingresses_view (snd (sample_ing_run sample_cluster)) (''shop'', ''front-ingress'') = Some y \<and>
     ingresses_view (snd (sample_ing_run (sample_cluster\<lparr>cl_networkings :=
       [sample_public_networking]\<rparr>))) (''shop'', ''front-ingress'') = Some y' \<and>
     ing_Rules (obj_Spec y') = ing_Rules (obj_Spec y)"
proof -
  let ?c = "sample_cluster\<lparr>cl_networkings := [sample_public_networking]\<rparr>"
  have runs: "sample_ing_run sample_cluster = (None, snd (sample_ing_run sample_cluster))"
    "sample_ing_run ?c = (None, snd (sample_ing_run ?c))"
    by (rule run_state_outcome, code_simp)+
  have w: "networkings_view ?c (''shop'', ''front'') = Some sample_public_networking" by code_simp
  have f: "[\<lparr>route_Hostnames = [''shop.com'', ''www.shop.com''], route_Paths = []\<rparr>,
      \<lparr>route_Hostnames = [''admin.shop''], route_Paths = [''/admin'']\<rparr>] @ [] =
      ingress_PublicRoutes (ns_Ingress (obj_Spec sample_networking)) @
      ingress_PrivateRoutes (ns_Ingress (obj_Spec sample_networking))"
    "ref_Resource (ns_TargetRef (obj_Spec sample_networking)) \<noteq> ''''"
    "has_ingress sample_networking"
    "hatches_for ''Ingress'' (ns_EscapeHatches (obj_Spec sample_networking)) = []"
    "om_Namespace (obj_Meta sample_networking) = ''shop''"
    "ing_name sample_networking = ''front-ingress''"
    by (simp_all add: sample_networking_def sample_NetworkingSpec_def sample_ref_def
        has_ingress_def ing_name_def dashed_def)
  from private_routes_published [OF networkings_ingresses_stores, OF mem_lib.runtime_lib_axioms,
      OF runs(1), OF runs(2), OF sample_stored(4), OF w, OF sample_public_networking_def,
      OF f(1-4), unfolded f(5,6)]
  show ?thesis by blast
qed

end
