(* ===== verification/Monitor_Controllers.thy ===== *)
theory Monitor_Controllers
  imports Child_Controller Patch_Engine Sample_Cluster
begin

text \<open>
  \<^verbatim>\<open>internal/controller/observability\<close>: the PodMonitor and the ServiceMonitor of an
  Observability.  Both are unstructured objects; the two controllers differ in the kind, the
  name, the part of the spec they read and the key of the endpoint list.
\<close>

section \<open>Unstructured objects\<close>

text \<open>
  \<^verbatim>\<open>&unstructured.Unstructured{}\<close> with \<^verbatim>\<open>SetGroupVersionKind\<close>, \<^verbatim>\<open>SetName\<close> and \<^verbatim>\<open>SetNamespace\<close>; there is
  no member \<^verbatim>\<open>spec\<close> yet.
\<close>

definition monitoring_object :: "string \<Rightarrow> string \<Rightarrow> string \<Rightarrow> Unstructured" where
  "monitoring_object kind name namespace =
     \<lparr>obj_TypeMeta = \<lparr>tm_Kind = kind, tm_APIVersion = ''monitoring.coreos.com/v1''\<rparr>,
      obj_Meta = named_meta name namespace, obj_Spec = None, obj_Status = JNull\<rparr>"

lemma key_of_monitoring_object [simp]: "key_of (monitoring_object k n ns) = (ns, n)"
  by (simp add: monitoring_object_def key_of_def)

definition observability_unnamed :: "Observability \<Rightarrow> bool" where
  "observability_unnamed ob \<longleftrightarrow> ref_Resource (os_TargetRef (obj_Spec ob)) = ''''"

section \<open>PodMonitor\<close>

text \<open>The callback's \<^verbatim>\<open>spec\<close>: path and interval have defaults.\<close>

definition pod_monitor_spec :: "ObservabilitySpec \<Rightarrow> json" where
  "pod_monitor_spec spec =
     (let path = (if pm_Path (os_PodMonitor spec) \<noteq> '''' then pm_Path (os_PodMonitor spec)
                  else ''/metrics'');
          interval = (if pm_Interval (os_PodMonitor spec) = '''' then ''30s''
                      else pm_Interval (os_PodMonitor spec))
      in JObj
        [(''selector'', JObj [(''matchLabels'',
            JObj [(''app'', JStr (ref_Resource (os_TargetRef spec)))])]),
         (''podMetricsEndpoints'', JArr
            [JObj [(''path'', JStr path), (''interval'', JStr interval)]])])"

definition pod_monitor_mutate ::
    "lib \<Rightarrow> Observability \<Rightarrow> Unstructured \<Rightarrow> go_error + Unstructured" where
  "pod_monitor_mutate L ob targetPM =
     (case set_owner L ''Observability'' ob
             (targetPM\<lparr>obj_Spec := Some (pod_monitor_spec (obj_Spec ob))\<rparr>) of
        Inl err \<Rightarrow> Inl err
      | Inr targetPM \<Rightarrow> Inr targetPM)"

definition target_PM :: "Observability \<Rightarrow> Unstructured" where
  "target_PM ob =
     monitoring_object ''PodMonitor'' (dashed (om_Name (obj_Meta ob)) ''podmonitor'')
       (om_Namespace (obj_Meta ob))"

definition PodMonitorReconciler_Reconcile ::
    "lib \<Rightarrow> ('s, Observability) api \<Rightarrow> ('s, Unstructured) api \<Rightarrow> key \<Rightarrow>
     ('s, go_error option) state" where
  "PodMonitorReconciler_Reconcile L observabilities podmonitors req = do {
     r \<leftarrow> api_get observabilities req;
     (case r of
        Inl err \<Rightarrow> State_Monad.return (lib_IgnoreNotFound L err)
      | Inr ob \<Rightarrow>
          if ref_Resource (os_TargetRef (obj_Spec ob)) = '''' then State_Monad.return None
          else if \<not> pm_Enabled (os_PodMonitor (obj_Spec ob)) then do {
            g \<leftarrow> api_get podmonitors
              (om_Namespace (obj_Meta ob), dashed (om_Name (obj_Meta ob)) ''podmonitor'');
            (case g of
               Inl _ \<Rightarrow> State_Monad.return None
             | Inr pm \<Rightarrow> do {
                 err \<leftarrow> api_delete podmonitors pm;
                 (case err of Some err \<Rightarrow> State_Monad.return (Some err)
                  | None \<Rightarrow> State_Monad.return None)
               })
          }
          else do {
            err \<leftarrow> api_createOrUpdate podmonitors (target_PM ob) (pod_monitor_mutate L ob);
            (case err of Some err \<Rightarrow> State_Monad.return (Some err)
             | None \<Rightarrow> State_Monad.return None)
          })
   }"

definition PodMonitorReconciler_SetupWithManager :: controller_setup where
  "PodMonitorReconciler_SetupWithManager =
     \<lparr>setup_For = ''Observability'', setup_Owns = [], setup_Watches = [],
      setup_Named = ''observability-podmonitor''\<rparr>"

section \<open>ServiceMonitor\<close>

definition service_monitor_spec :: "ObservabilitySpec \<Rightarrow> json" where
  "service_monitor_spec spec =
     (let path = (if sm_Path (os_ServiceMonitor spec) \<noteq> '''' then sm_Path (os_ServiceMonitor spec)
                  else ''/metrics'');
          interval = (if sm_Interval (os_ServiceMonitor spec) = '''' then ''30s''
                      else sm_Interval (os_ServiceMonitor spec))
      in JObj
        [(''selector'', JObj [(''matchLabels'',
            JObj [(''app'', JStr (ref_Resource (os_TargetRef spec)))])]),
         (''endpoints'', JArr
            [JObj [(''path'', JStr path), (''interval'', JStr interval)]])])"

definition service_monitor_mutate ::
    "lib \<Rightarrow> Observability \<Rightarrow> Unstructured \<Rightarrow> go_error + Unstructured" where
  "service_monitor_mutate L ob targetSM =
     (case set_owner L ''Observability'' ob
             (targetSM\<lparr>obj_Spec := Some (service_monitor_spec (obj_Spec ob))\<rparr>) of
        Inl err \<Rightarrow> Inl err
      | Inr targetSM \<Rightarrow> Inr targetSM)"

definition target_SM :: "Observability \<Rightarrow> Unstructured" where
  "target_SM ob =
     monitoring_object ''ServiceMonitor'' (dashed (om_Name (obj_Meta ob)) ''servicemonitor'')
       (om_Namespace (obj_Meta ob))"

definition ServiceMonitorReconciler_Reconcile ::
    "lib \<Rightarrow> ('s, Observability) api \<Rightarrow> ('s, Unstructured) api \<Rightarrow> key \<Rightarrow>
     ('s, go_error option) state" where
  "ServiceMonitorReconciler_Reconcile L observabilities servicemonitors req = do {
     r \<leftarrow> api_get observabilities req;
     (case r of
        Inl err \<Rightarrow> State_Monad.return (lib_IgnoreNotFound L err)
      | Inr ob \<Rightarrow>
          if ref_Resource (os_TargetRef (obj_Spec ob)) = '''' then State_Monad.return None
          else if \<not> sm_Enabled (os_ServiceMonitor (obj_Spec ob)) then do {
            g \<leftarrow> api_get servicemonitors
              (om_Namespace (obj_Meta ob), dashed (om_Name (obj_Meta ob)) ''servicemonitor'');
            (case g of
               Inl _ \<Rightarrow> State_Monad.return None
             | Inr sm \<Rightarrow> do {
                 err \<leftarrow> api_delete servicemonitors sm;
                 (case err of Some err \<Rightarrow> State_Monad.return (Some err)
                  | None \<Rightarrow> State_Monad.return None)
               })
          }
          else do {
            err \<leftarrow> api_createOrUpdate servicemonitors (target_SM ob) (service_monitor_mutate L ob);
            (case err of Some err \<Rightarrow> State_Monad.return (Some err)
             | None \<Rightarrow> State_Monad.return None)
          })
   }"

definition ServiceMonitorReconciler_SetupWithManager :: controller_setup where
  "ServiceMonitorReconciler_SetupWithManager =
     \<lparr>setup_For = ''Observability'', setup_Owns = [], setup_Watches = [],
      setup_Named = ''observability-servicemonitor''\<rparr>"

section \<open>The contract\<close>

definition pm_wanted :: "Observability \<Rightarrow> bool" where
  "pm_wanted ob \<longleftrightarrow> pm_Enabled (os_PodMonitor (obj_Spec ob))"

definition sm_wanted :: "Observability \<Rightarrow> bool" where
  "sm_wanted ob \<longleftrightarrow> sm_Enabled (os_ServiceMonitor (obj_Spec ob))"

lemma key_of_targets [simp]:
  "key_of (target_PM ob) = (om_Namespace (obj_Meta ob), dashed (om_Name (obj_Meta ob)) ''podmonitor'')"
  "key_of (target_SM ob) =
     (om_Namespace (obj_Meta ob), dashed (om_Name (obj_Meta ob)) ''servicemonitor'')"
  by (simp_all add: target_PM_def target_SM_def)

lemma monitor_mutates:
  "pod_monitor_mutate L ob x =
     set_owner L ''Observability'' ob (x\<lparr>obj_Spec := Some (pod_monitor_spec (obj_Spec ob))\<rparr>)"
  "service_monitor_mutate L ob x =
     set_owner L ''Observability'' ob (x\<lparr>obj_Spec := Some (service_monitor_spec (obj_Spec ob))\<rparr>)"
  by (simp_all add: pod_monitor_mutate_def service_monitor_mutate_def split: sum.splits)

interpretation podmonitor: pure_child_controller L "PodMonitorReconciler_Reconcile L"
    observability_unnamed pm_wanted target_PM "pod_monitor_mutate L"
  by unfold_locales
    (simp add: PodMonitorReconciler_Reconcile_def child_reconcile_def observability_unnamed_def
      pm_wanted_def cong: sum.case_cong if_cong)

interpretation servicemonitor: pure_child_controller L "ServiceMonitorReconciler_Reconcile L"
    observability_unnamed sm_wanted target_SM "service_monitor_mutate L"
  by unfold_locales
    (simp add: ServiceMonitorReconciler_Reconcile_def child_reconcile_def observability_unnamed_def
      sm_wanted_def cong: sum.case_cong if_cong)

interpretation mem_podmonitor: child_controller_healthy mem_lib
    "PodMonitorReconciler_Reconcile mem_lib" observability_unnamed pm_wanted target_PM
    "\<lambda>_. State_Monad.return ()" "\<lambda>w _. pod_monitor_mutate mem_lib w" observabilities_api
    observabilities_view podmonitors_api podmonitors_view mem_healthy
  by (rule podmonitor.pure_healthy [OF observabilities_podmonitors_healthy
      mem_lib.runtime_lib_axioms, unfolded mem_lib_simps])

interpretation mem_servicemonitor: child_controller_healthy mem_lib
    "ServiceMonitorReconciler_Reconcile mem_lib" observability_unnamed sm_wanted target_SM
    "\<lambda>_. State_Monad.return ()" "\<lambda>w _. service_monitor_mutate mem_lib w" observabilities_api
    observabilities_view servicemonitors_api servicemonitors_view mem_healthy
  by (rule servicemonitor.pure_healthy [OF observabilities_servicemonitors_healthy
      mem_lib.runtime_lib_axioms, unfolded mem_lib_simps])

text \<open>The kinds are written into the object, so the two monitors of one owner do not mix.\<close>

lemma target_kinds [simp]:
  "obj_TypeMeta (target_PM ob) =
     \<lparr>tm_Kind = ''PodMonitor'', tm_APIVersion = ''monitoring.coreos.com/v1''\<rparr>"
  "obj_TypeMeta (target_SM ob) =
     \<lparr>tm_Kind = ''ServiceMonitor'', tm_APIVersion = ''monitoring.coreos.com/v1''\<rparr>"
  by (simp_all add: target_PM_def target_SM_def monitoring_object_def)

section \<open>Correctness\<close>

text \<open>
  When a run reports success for an Observability that names a target and has its PodMonitor
  enabled, the PodMonitor named after it selects the pods labelled \<^verbatim>\<open>app\<close> with the target's name
  and scrapes the configured path at the configured interval, with the defaults
  \<^verbatim>\<open>/metrics\<close> and \<^verbatim>\<open>30s\<close>; it has the Observability as controller.  The escape hatches of the
  Observability play no part.
\<close>

theorem podmonitor_applied:
  assumes "owner_child_stores oapi oview capi cview (lib_IsNotFound L)" and "runtime_lib L"
    and "run_state (PodMonitorReconciler_Reconcile L oapi capi req) s = (None, s')"
    and "oview s req = Some w"
    and "ref_Resource (os_TargetRef (obj_Spec w)) \<noteq> ''''"
    and "pm_Enabled (os_PodMonitor (obj_Spec w))"
  shows "\<exists>y. cview s' =
      (cview s)((om_Namespace (obj_Meta w), dashed (om_Name (obj_Meta w)) ''podmonitor'') \<mapsto> y) \<and>
    obj_Spec y = Some (JObj
      [(''selector'', JObj [(''matchLabels'',
          JObj [(''app'', JStr (ref_Resource (os_TargetRef (obj_Spec w))))])]),
       (''podMetricsEndpoints'', JArr
          [JObj [(''path'', JStr (if pm_Path (os_PodMonitor (obj_Spec w)) = '''' then ''/metrics''
                               else pm_Path (os_PodMonitor (obj_Spec w)))),
                 (''interval'', JStr (if pm_Interval (os_PodMonitor (obj_Spec w)) = '''' then ''30s''
                               else pm_Interval (os_PodMonitor (obj_Spec w))))]])]) \<and>
    (cview s (om_Namespace (obj_Meta w), dashed (om_Name (obj_Meta w)) ''podmonitor'') = None \<longrightarrow>
      tm_Kind (obj_TypeMeta y) = ''PodMonitor'') \<and>
    (''Observability'', om_Name (obj_Meta w)) \<in> set (controllers_of (obj_Meta y))"
proof -
  have "\<not> observability_unnamed w" "pm_wanted w"
    using assms(5,6) by (simp_all add: observability_unnamed_def pm_wanted_def)
  from podmonitor.pure_success [OF assms(1-4) this] obtain y
    where m: "pod_monitor_mutate L w (current (cview s) (key_of (target_PM w)) (target_PM w)) = Inr y"
      and st: "cview s' = (cview s)(key_of (target_PM w) \<mapsto> y)" by blast
  note y = runtime_lib.set_owner_InrD(2,4,5) [OF assms(2) m [unfolded monitor_mutates]]
  from st y show ?thesis
    by (intro exI [of _ y]) (simp add: pod_monitor_spec_def Let_def current_def)
qed

abbreviation "sample_podmonitor_run \<equiv>
  run_state (PodMonitorReconciler_Reconcile mem_lib observabilities_api podmonitors_api
    (''shop'', ''front'')) sample_cluster"

theorem podmonitor_applied_witness:
  "\<exists>y. podmonitors_view (snd sample_podmonitor_run) (''shop'', ''front-podmonitor'') = Some y \<and>
     (''Observability'', ''front'') \<in> set (controllers_of (obj_Meta y))"
proof -
  have run: "sample_podmonitor_run = (None, snd sample_podmonitor_run)"
    by (rule run_state_outcome) code_simp
  from podmonitor_applied [OF observabilities_podmonitors_stores, OF mem_lib.runtime_lib_axioms, OF run,
      OF sample_stored(5)]
  show ?thesis
    by (auto simp: sample_observability_def sample_ObservabilitySpec_def sample_ref_def dashed_def)
qed

text \<open>
  When a run reports success for an Observability that names a target and has its ServiceMonitor
  enabled, the ServiceMonitor named after it selects the Services labelled \<^verbatim>\<open>app\<close> with the target's name
  and scrapes the configured path at the configured interval, with the defaults
  \<^verbatim>\<open>/metrics\<close> and \<^verbatim>\<open>30s\<close>; it has the Observability as controller.  The escape hatches of the
  Observability play no part.
\<close>

theorem servicemonitor_applied:
  assumes "owner_child_stores oapi oview capi cview (lib_IsNotFound L)" and "runtime_lib L"
    and "run_state (ServiceMonitorReconciler_Reconcile L oapi capi req) s = (None, s')"
    and "oview s req = Some w"
    and "ref_Resource (os_TargetRef (obj_Spec w)) \<noteq> ''''"
    and "sm_Enabled (os_ServiceMonitor (obj_Spec w))"
  shows "\<exists>y. cview s' =
      (cview s)((om_Namespace (obj_Meta w), dashed (om_Name (obj_Meta w)) ''servicemonitor'') \<mapsto> y) \<and>
    obj_Spec y = Some (JObj
      [(''selector'', JObj [(''matchLabels'',
          JObj [(''app'', JStr (ref_Resource (os_TargetRef (obj_Spec w))))])]),
       (''endpoints'', JArr
          [JObj [(''path'', JStr (if sm_Path (os_ServiceMonitor (obj_Spec w)) = '''' then ''/metrics''
                               else sm_Path (os_ServiceMonitor (obj_Spec w)))),
                 (''interval'', JStr (if sm_Interval (os_ServiceMonitor (obj_Spec w)) = '''' then ''30s''
                               else sm_Interval (os_ServiceMonitor (obj_Spec w))))]])]) \<and>
    (cview s (om_Namespace (obj_Meta w), dashed (om_Name (obj_Meta w)) ''servicemonitor'') = None \<longrightarrow>
      tm_Kind (obj_TypeMeta y) = ''ServiceMonitor'') \<and>
    (''Observability'', om_Name (obj_Meta w)) \<in> set (controllers_of (obj_Meta y))"
proof -
  have "\<not> observability_unnamed w" "sm_wanted w"
    using assms(5,6) by (simp_all add: observability_unnamed_def sm_wanted_def)
  from servicemonitor.pure_success [OF assms(1-4) this] obtain y
    where m: "service_monitor_mutate L w (current (cview s) (key_of (target_SM w)) (target_SM w)) = Inr y"
      and st: "cview s' = (cview s)(key_of (target_SM w) \<mapsto> y)" by blast
  note y = runtime_lib.set_owner_InrD(2,4,5) [OF assms(2) m [unfolded monitor_mutates]]
  from st y show ?thesis
    by (intro exI [of _ y]) (simp add: service_monitor_spec_def Let_def current_def)
qed

abbreviation "sample_servicemonitor_run \<equiv>
  run_state (ServiceMonitorReconciler_Reconcile mem_lib observabilities_api servicemonitors_api
    (''shop'', ''front'')) sample_cluster"

theorem servicemonitor_applied_witness:
  "\<exists>y. servicemonitors_view (snd sample_servicemonitor_run) (''shop'', ''front-servicemonitor'') = Some y \<and>
     (''Observability'', ''front'') \<in> set (controllers_of (obj_Meta y))"
proof -
  have run: "sample_servicemonitor_run = (None, snd sample_servicemonitor_run)"
    by (rule run_state_outcome) code_simp
  from servicemonitor_applied [OF observabilities_servicemonitors_stores, OF mem_lib.runtime_lib_axioms, OF run,
      OF sample_stored(5)]
  show ?thesis
    by (auto simp: sample_observability_def sample_ObservabilitySpec_def sample_ref_def dashed_def)
qed

end
