(* ===== verification/Rbac_Controllers.thy ===== *)
theory Rbac_Controllers
  imports Child_Controller Patch_Engine Sample_Cluster
begin

text \<open>
  \<^verbatim>\<open>internal/controller/security\<close>: the Role of a Security and the RoleBinding that grants it to
  the service account named after the target.  \<^verbatim>\<open>Rules\<close>, \<^verbatim>\<open>Subjects\<close> and \<^verbatim>\<open>RoleRef\<close> are top-level
  fields of their kinds; they take the place of the spec in the model.
\<close>

definition security_unnamed :: "Security \<Rightarrow> bool" where
  "security_unnamed sec \<longleftrightarrow> ref_Resource (sec_TargetRef (obj_Spec sec)) = ''''"

definition rbac_wanted :: "Security \<Rightarrow> bool" where
  "rbac_wanted sec \<longleftrightarrow> rbac_CreateRole (sec_RBAC (obj_Spec sec))"

text \<open>Both controllers compute the name of the Role.\<close>

definition role_name :: "Security \<Rightarrow> string" where
  "role_name sec = dashed (om_Name (obj_Meta sec)) ''role''"

section \<open>Role\<close>

definition role_fill :: "SecuritySpec \<Rightarrow> RoleBody \<Rightarrow> RoleBody" where
  "role_fill spec body = body\<lparr>role_Rules := rbac_Rules (sec_RBAC spec)\<rparr>"

definition role_mutate :: "lib \<Rightarrow> Role codec \<Rightarrow> Security \<Rightarrow> Role \<Rightarrow> go_error + Role" where
  "role_mutate L cod sec targetRole =
     (case set_owner L ''Security'' sec
             (targetRole\<lparr>obj_Spec := role_fill (obj_Spec sec) (obj_Spec targetRole)\<rparr>) of
        Inl err \<Rightarrow> Inl err
      | Inr targetRole \<Rightarrow>
          (case ApplyEscapeHatches L cod targetRole (sec_EscapeHatches (obj_Spec sec)) ''Role'' of
             Inl err \<Rightarrow> Inl (wrap ''failed to apply escape hatch to Role: %w'' [] err)
           | Inr patchedRoleObj \<Rightarrow> Inr patchedRoleObj))"

definition target_Role :: "Security \<Rightarrow> Role" where
  "target_Role sec =
     named_object (role_name sec) (om_Namespace (obj_Meta sec)) \<lparr>role_Rules = []\<rparr> ()"

definition RoleReconciler_Reconcile ::
    "lib \<Rightarrow> Role codec \<Rightarrow> ('s, Security) api \<Rightarrow> ('s, Role) api \<Rightarrow> key \<Rightarrow>
     ('s, go_error option) state" where
  "RoleReconciler_Reconcile L cod securities roles req = do {
     r \<leftarrow> api_get securities req;
     (case r of
        Inl err \<Rightarrow> State_Monad.return (lib_IgnoreNotFound L err)
      | Inr sec \<Rightarrow>
          if ref_Resource (sec_TargetRef (obj_Spec sec)) = '''' then State_Monad.return None
          else if \<not> rbac_CreateRole (sec_RBAC (obj_Spec sec)) then do {
            g \<leftarrow> api_get roles (om_Namespace (obj_Meta sec), role_name sec);
            (case g of
               Inl _ \<Rightarrow> State_Monad.return None
             | Inr role \<Rightarrow> do {
                 err \<leftarrow> api_delete roles role;
                 (case err of Some err \<Rightarrow> State_Monad.return (Some err)
                  | None \<Rightarrow> State_Monad.return None)
               })
          }
          else do {
            err \<leftarrow> api_createOrUpdate roles (target_Role sec) (role_mutate L cod sec);
            (case err of Some err \<Rightarrow> State_Monad.return (Some err)
             | None \<Rightarrow> State_Monad.return None)
          })
   }"

definition RoleReconciler_SetupWithManager :: controller_setup where
  "RoleReconciler_SetupWithManager =
     \<lparr>setup_For = ''Security'', setup_Owns = [''Role''],
      setup_Watches = [], setup_Named = ''security-role''\<rparr>"

section \<open>RoleBinding\<close>

definition rb_name :: "Security \<Rightarrow> string" where
  "rb_name sec = dashed (om_Name (obj_Meta sec)) ''rb''"

definition rb_fill :: "Security \<Rightarrow> RoleBindingBody \<Rightarrow> RoleBindingBody" where
  "rb_fill sec body =
     body\<lparr>rb_RoleRef :=
            \<lparr>rr_APIGroup = ''rbac.authorization.k8s.io'', rr_Kind = ''Role'',
             rr_Name = role_name sec\<rparr>,
          rb_Subjects :=
            [\<lparr>subj_Kind = ''ServiceAccount'', subj_APIGroup = '''',
              subj_Name = ref_Resource (sec_TargetRef (obj_Spec sec)),
              subj_Namespace = om_Namespace (obj_Meta sec)\<rparr>]\<rparr>"

definition rb_mutate ::
    "lib \<Rightarrow> RoleBinding codec \<Rightarrow> Security \<Rightarrow> RoleBinding \<Rightarrow> go_error + RoleBinding" where
  "rb_mutate L cod sec targetRB =
     (case set_owner L ''Security'' sec
             (targetRB\<lparr>obj_Spec := rb_fill sec (obj_Spec targetRB)\<rparr>) of
        Inl err \<Rightarrow> Inl err
      | Inr targetRB \<Rightarrow>
          (case ApplyEscapeHatches L cod targetRB (sec_EscapeHatches (obj_Spec sec)) ''RoleBinding'' of
             Inl err \<Rightarrow> Inl (wrap ''failed to apply escape hatch to RoleBinding: %w'' [] err)
           | Inr patchedRBObj \<Rightarrow> Inr patchedRBObj))"

definition target_RB :: "Security \<Rightarrow> RoleBinding" where
  "target_RB sec =
     named_object (rb_name sec) (om_Namespace (obj_Meta sec)) zero_RoleBindingBody ()"

definition RoleBindingReconciler_Reconcile ::
    "lib \<Rightarrow> RoleBinding codec \<Rightarrow> ('s, Security) api \<Rightarrow> ('s, RoleBinding) api \<Rightarrow> key \<Rightarrow>
     ('s, go_error option) state" where
  "RoleBindingReconciler_Reconcile L cod securities rolebindings req = do {
     r \<leftarrow> api_get securities req;
     (case r of
        Inl err \<Rightarrow> State_Monad.return (lib_IgnoreNotFound L err)
      | Inr sec \<Rightarrow>
          if ref_Resource (sec_TargetRef (obj_Spec sec)) = '''' then State_Monad.return None
          else if \<not> rbac_CreateRole (sec_RBAC (obj_Spec sec)) then do {
            g \<leftarrow> api_get rolebindings (om_Namespace (obj_Meta sec), rb_name sec);
            (case g of
               Inl _ \<Rightarrow> State_Monad.return None
             | Inr rb \<Rightarrow> do {
                 err \<leftarrow> api_delete rolebindings rb;
                 (case err of Some err \<Rightarrow> State_Monad.return (Some err)
                  | None \<Rightarrow> State_Monad.return None)
               })
          }
          else do {
            err \<leftarrow> api_createOrUpdate rolebindings (target_RB sec) (rb_mutate L cod sec);
            (case err of Some err \<Rightarrow> State_Monad.return (Some err)
             | None \<Rightarrow> State_Monad.return None)
          })
   }"

definition RoleBindingReconciler_SetupWithManager :: controller_setup where
  "RoleBindingReconciler_SetupWithManager =
     \<lparr>setup_For = ''Security'', setup_Owns = [''RoleBinding''],
      setup_Watches = [], setup_Named = ''security-rolebinding''\<rparr>"

section \<open>The contract\<close>

lemma key_of_target_Role [simp]:
  "key_of (target_Role sec) = (om_Namespace (obj_Meta sec), role_name sec)"
  by (simp add: target_Role_def)

lemma key_of_target_RB [simp]:
  "key_of (target_RB sec) = (om_Namespace (obj_Meta sec), rb_name sec)"
  by (simp add: target_RB_def)

interpretation role: pure_child_controller L "RoleReconciler_Reconcile L cod"
    security_unnamed rbac_wanted target_Role "role_mutate L cod"
  by unfold_locales
    (simp add: RoleReconciler_Reconcile_def child_reconcile_def security_unnamed_def
      rbac_wanted_def cong: sum.case_cong if_cong)

interpretation rolebinding: pure_child_controller L "RoleBindingReconciler_Reconcile L cod"
    security_unnamed rbac_wanted target_RB "rb_mutate L cod"
  by unfold_locales
    (simp add: RoleBindingReconciler_Reconcile_def child_reconcile_def security_unnamed_def
      rbac_wanted_def cong: sum.case_cong if_cong)

interpretation mem_role: child_controller_healthy mem_lib "RoleReconciler_Reconcile mem_lib cod"
    security_unnamed rbac_wanted target_Role "\<lambda>_. State_Monad.return ()"
    "\<lambda>w _. role_mutate mem_lib cod w" securities_api securities_view roles_api roles_view mem_healthy
  by (rule role.pure_healthy [OF securities_roles_healthy mem_lib.runtime_lib_axioms,
      unfolded mem_lib_simps])

interpretation mem_rolebinding: child_controller_healthy mem_lib
    "RoleBindingReconciler_Reconcile mem_lib cod" security_unnamed rbac_wanted target_RB
    "\<lambda>_. State_Monad.return ()" "\<lambda>w _. rb_mutate mem_lib cod w" securities_api securities_view
    rolebindings_api rolebindings_view mem_healthy
  by (rule rolebinding.pure_healthy [OF securities_rolebindings_healthy mem_lib.runtime_lib_axioms,
      unfolded mem_lib_simps])

lemma role_mutate_plain:
  assumes "hatches_for ''Role'' (sec_EscapeHatches (obj_Spec w)) = []"
  shows "role_mutate L cod w x =
    set_owner L ''Security'' w (x\<lparr>obj_Spec := role_fill (obj_Spec w) (obj_Spec x)\<rparr>)"
  using assms by (auto simp: role_mutate_def split: sum.splits)

lemma rb_mutate_plain:
  assumes "hatches_for ''RoleBinding'' (sec_EscapeHatches (obj_Spec w)) = []"
  shows "rb_mutate L cod w x =
    set_owner L ''Security'' w (x\<lparr>obj_Spec := rb_fill w (obj_Spec x)\<rparr>)"
  using assms by (auto simp: rb_mutate_def split: sum.splits)

section \<open>Correctness\<close>

text \<open>
  C22: When the two RBAC controllers have each reported success for a Security that asks for a
  role, with no escape hatch for either kind, the Role has exactly the rules of the Security
  and the RoleBinding grants that very Role, by the name under which it is stored in the same
  namespace, to one subject: the service account named after the target in the namespace of
  the Security.  Both have the Security as controller.
\<close>

theorem rbac_pair:
  assumes "owner_child_stores oapi oview capi cview (lib_IsNotFound L)"
    and "owner_child_stores oapi oview bapi bview (lib_IsNotFound L)" and "runtime_lib L"
    and "run_state (RoleReconciler_Reconcile L cod oapi capi req) s = (None, s')"
    and "run_state (RoleBindingReconciler_Reconcile L bcod oapi bapi req) t = (None, t')"
    and "oview s req = Some w" and "oview t req = Some w"
    and "ref_Resource (sec_TargetRef (obj_Spec w)) \<noteq> ''''"
    and "rbac_CreateRole (sec_RBAC (obj_Spec w))"
    and "hatches_for ''Role'' (sec_EscapeHatches (obj_Spec w)) = []"
    and "hatches_for ''RoleBinding'' (sec_EscapeHatches (obj_Spec w)) = []"
  shows "\<exists>role rb n. cview s' = (cview s)((om_Namespace (obj_Meta w), n) \<mapsto> role) \<and>
    bview t' = (bview t)((om_Namespace (obj_Meta w), rb_name w) \<mapsto> rb) \<and>
    role_Rules (obj_Spec role) = rbac_Rules (sec_RBAC (obj_Spec w)) \<and>
    rr_Kind (rb_RoleRef (obj_Spec rb)) = ''Role'' \<and> rr_Name (rb_RoleRef (obj_Spec rb)) = n \<and>
    (\<exists>sub. rb_Subjects (obj_Spec rb) = [sub] \<and> subj_Kind sub = ''ServiceAccount'' \<and>
       subj_Name sub = ref_Resource (sec_TargetRef (obj_Spec w)) \<and>
       subj_Namespace sub = om_Namespace (obj_Meta w)) \<and>
    (''Security'', om_Name (obj_Meta w)) \<in> set (controllers_of (obj_Meta role)) \<and>
    (''Security'', om_Name (obj_Meta w)) \<in> set (controllers_of (obj_Meta rb))"
proof -
  have w: "\<not> security_unnamed w" "rbac_wanted w"
    using assms(8,9) by (simp_all add: security_unnamed_def rbac_wanted_def)
  from role.pure_success [OF assms(1,3,4,6) w] obtain x y
    where m: "role_mutate L cod w x = Inr y"
      and st: "cview s' = (cview s)(key_of (target_Role w) \<mapsto> y)" by blast
  from rolebinding.pure_success [OF assms(2,3,5,7) w] obtain u z
    where bm: "rb_mutate L bcod w u = Inr z"
      and bst: "bview t' = (bview t)(key_of (target_RB w) \<mapsto> z)" by blast
  note y = runtime_lib.set_owner_InrD(2,5) [OF assms(3) m [unfolded role_mutate_plain [OF assms(10)]]]
  note z = runtime_lib.set_owner_InrD(2,5) [OF assms(3) bm [unfolded rb_mutate_plain [OF assms(11)]]]
  show ?thesis
    using st bst y z
    by (intro exI [of _ y] exI [of _ z] exI [of _ "role_name w"])
      (simp add: role_fill_def rb_fill_def)
qed

abbreviation "sample_role_run \<equiv>
  run_state (RoleReconciler_Reconcile mem_lib trivial_codec securities_api roles_api
    (''shop'', ''front'')) sample_cluster"

abbreviation "sample_rb_run \<equiv>
  run_state (RoleBindingReconciler_Reconcile mem_lib trivial_codec securities_api rolebindings_api
    (''shop'', ''front'')) (snd sample_role_run)"

theorem rbac_pair_witness:
  "\<exists>role rb. roles_view (snd sample_role_run) (''shop'', rr_Name (rb_RoleRef (obj_Spec rb))) = Some role \<and>
     rolebindings_view (snd sample_rb_run) (''shop'', ''front-rb'') = Some rb \<and>
     role_Rules (obj_Spec role) = [sample_rule]"
proof -
  have runs: "sample_role_run = (None, snd sample_role_run)" "sample_rb_run = (None, snd sample_rb_run)"
    by (rule run_state_outcome, code_simp)+
  have w: "securities_view (snd sample_role_run) (''shop'', ''front'') = Some sample_security"
    by code_simp
  have f: "om_Namespace (obj_Meta sample_security) = ''shop''"
    "rb_name sample_security = ''front-rb''" "rbac_Rules (sec_RBAC (obj_Spec sample_security)) = [sample_rule]"
    "ref_Resource (sec_TargetRef (obj_Spec sample_security)) \<noteq> ''''"
    "rbac_CreateRole (sec_RBAC (obj_Spec sample_security))"
    "sec_EscapeHatches (obj_Spec sample_security) = []"
    by (simp_all add: sample_security_def sample_SecuritySpec_def sample_ref_def rb_name_def dashed_def)
  from rbac_pair [OF securities_roles_stores, OF securities_rolebindings_stores,
      OF mem_lib.runtime_lib_axioms, OF runs(1), OF runs(2), OF sample_stored(6), OF w, OF f(4,5),
      unfolded f(1-3,6), OF hatches_for_simps(1) hatches_for_simps(1)]
  obtain role rb n where "roles_view (snd sample_role_run) = (roles_view sample_cluster)((''shop'', n) \<mapsto> role)"
    "rolebindings_view (snd sample_rb_run) = (rolebindings_view (snd sample_role_run))((''shop'', ''front-rb'') \<mapsto> rb)"
    "role_Rules (obj_Spec role) = [sample_rule]" "rr_Name (rb_RoleRef (obj_Spec rb)) = n"
    by (elim exE conjE) (rule that)
  then show ?thesis by (intro exI [of _ role] exI [of _ rb]) simp
qed

text \<open>
  In the absence of faults both controllers are steps of their specifications.  In
  particular, when the Security does not ask for a role, Role and RoleBinding are removed,
  whoever made them.
\<close>

theorem rbac_refines:
  assumes "healthy_stores oapi oview capi cview (lib_IsNotFound L) healthy"
    and "healthy_stores oapi oview bapi bview (lib_IsNotFound L) healthy" and "runtime_lib L"
    and "healthy s" and "healthy t"
    and "run_state (RoleReconciler_Reconcile L cod oapi capi req) s = (r, s')"
    and "run_state (RoleBindingReconciler_Reconcile L bcod oapi bapi req) t = (q, t')"
  shows "(r = None, cview s') =
      child_spec security_unnamed rbac_wanted target_Role (role_mutate L cod) (oview s req) (cview s) \<and>
    (q = None, bview t') =
      child_spec security_unnamed rbac_wanted target_RB (rb_mutate L bcod) (oview t req) (bview t) \<and>
    (\<forall>w. oview s req = Some w \<and> \<not> security_unnamed w \<and> \<not> rbac_wanted w \<longrightarrow>
       r = None \<and> cview s' (om_Namespace (obj_Meta w), role_name w) = None)"
  using role.pure_refines [OF assms(1,3,4,6)] rolebinding.pure_refines [OF assms(2,3,5,7)]
  by (auto simp: child_spec_def)

theorem rbac_refines_witness:
  "roles_view (snd sample_role_run) =
     snd (child_spec security_unnamed rbac_wanted target_Role (role_mutate mem_lib trivial_codec)
            (Some sample_security) (roles_view sample_cluster))"
proof -
  have t: "mem_healthy (snd sample_role_run)" by code_simp
  from rbac_refines [OF securities_roles_healthy, OF securities_rolebindings_healthy,
      OF mem_lib.runtime_lib_axioms, OF sample_healthy, OF t, OF run_state_outcome [OF refl],
      OF run_state_outcome [OF refl]] sample_stored(6)
  show ?thesis by (metis snd_conv)
qed

end
