(* ===== verification/Manager_Setup.thy ===== *)
theory Manager_Setup
  imports PDB_Controller Compute_Deployment PVC_Controller Ingress_Controller Monitor_Controllers
    Rbac_Controllers Workload_Controllers
begin

text \<open>
  \<^verbatim>\<open>cmd/main.go\<close>: the options of the manager computed from the command line, the registration
  of the sixteen controllers, the health checks and the start.  The calls on the manager are
  parameters (\<open>manager_api\<close>); \<^verbatim>\<open>os.Exit(1)\<close> is a value that names the message logged.  Parsing
  the command line is the \<^verbatim>\<open>flag\<close> package's; the model starts from the parsed values, and
  \<open>default_flags\<close> are the defaults the code declares.  Also \<^verbatim>\<open>internal/markers.go\<close>, the
  permissions the operator is given.
\<close>

section \<open>The command line\<close>

record flags =
  metricsAddr :: string
  metricsCertPath :: string
  metricsCertName :: string
  metricsCertKey :: string
  webhookCertPath :: string
  webhookCertName :: string
  webhookCertKey :: string
  enableLeaderElection :: bool
  probeAddr :: string
  secureMetrics :: bool
  enableHTTP2 :: bool

definition default_flags :: flags where
  "default_flags =
     \<lparr>metricsAddr = ''0'', metricsCertPath = '''', metricsCertName = ''tls.crt'',
      metricsCertKey = ''tls.key'', webhookCertPath = '''', webhookCertName = ''tls.crt'',
      webhookCertKey = ''tls.key'', enableLeaderElection = False, probeAddr = '':8081'',
      secureMetrics = True, enableHTTP2 = False\<rparr>"

section \<open>The options\<close>

record tls_config =
  tls_NextProtos :: "string list"
  tls_rest :: json

definition disableHTTP2 :: "tls_config \<Rightarrow> tls_config" where
  "disableHTTP2 c = c\<lparr>tls_NextProtos := [''http/1.1'']\<rparr>"

text \<open>The options structs hold the fields the code sets; an empty directory means unset.\<close>

record webhook_options =
  wh_TLSOpts :: "(tls_config \<Rightarrow> tls_config) list"
  wh_CertDir :: string
  wh_CertName :: string
  wh_KeyName :: string

record metrics_options =
  mo_BindAddress :: string
  mo_SecureServing :: bool
  mo_TLSOpts :: "(tls_config \<Rightarrow> tls_config) list"
  mo_FilterProvider :: "string option"
  mo_CertDir :: string
  mo_CertName :: string
  mo_KeyName :: string

record manager_options =
  mg_Metrics :: metrics_options
  mg_WebhookServer :: webhook_options
  mg_HealthProbeBindAddress :: string
  mg_LeaderElection :: bool
  mg_LeaderElectionID :: string

definition tlsOpts :: "flags \<Rightarrow> (tls_config \<Rightarrow> tls_config) list" where
  "tlsOpts f = (if \<not> enableHTTP2 f then [] @ [disableHTTP2] else [])"

definition webhookServerOptions :: "flags \<Rightarrow> webhook_options" where
  "webhookServerOptions f =
     (let o1 = \<lparr>wh_TLSOpts = tlsOpts f, wh_CertDir = '''', wh_CertName = '''', wh_KeyName = ''''\<rparr>
      in if length (webhookCertPath f) > 0 then
           o1\<lparr>wh_CertDir := webhookCertPath f, wh_CertName := webhookCertName f,
              wh_KeyName := webhookCertKey f\<rparr>
         else o1)"

definition metricsServerOptions :: "flags \<Rightarrow> metrics_options" where
  "metricsServerOptions f =
     (let o1 = \<lparr>mo_BindAddress = metricsAddr f, mo_SecureServing = secureMetrics f,
               mo_TLSOpts = tlsOpts f, mo_FilterProvider = None,
               mo_CertDir = '''', mo_CertName = '''', mo_KeyName = ''''\<rparr>;
          o2 = (if secureMetrics f
                then o1\<lparr>mo_FilterProvider := Some ''filters.WithAuthenticationAndAuthorization''\<rparr>
                else o1)
      in if length (metricsCertPath f) > 0 then
           o2\<lparr>mo_CertDir := metricsCertPath f, mo_CertName := metricsCertName f,
              mo_KeyName := metricsCertKey f\<rparr>
         else o2)"

definition managerOptions :: "flags \<Rightarrow> manager_options" where
  "managerOptions f =
     \<lparr>mg_Metrics = metricsServerOptions f, mg_WebhookServer = webhookServerOptions f,
      mg_HealthProbeBindAddress = probeAddr f, mg_LeaderElection = enableLeaderElection f,
      mg_LeaderElectionID = ''33e9e80b.lmoet.io''\<rparr>"

section \<open>Registration and start\<close>

record 's manager_api =
  mgr_New :: "manager_options \<Rightarrow> ('s, go_error option) state"
  mgr_Complete :: "controller_setup \<Rightarrow> ('s, go_error option) state"
  mgr_AddHealthzCheck :: "('s, go_error option) state"
  mgr_AddReadyzCheck :: "('s, go_error option) state"
  mgr_Start :: "('s, go_error option) state"

text \<open>\<^verbatim>\<open>setupLog.Error(err, message, "controller", name); os.Exit(1)\<close>\<close>

datatype exit = Exit string string go_error

text \<open>The controllers in the order of \<^verbatim>\<open>main\<close>, with the name the log gives them.\<close>

definition workload_registrations :: "(string \<times> controller_setup) list" where
  "workload_registrations =
     [(''WorkloadCompute'', WorkloadComputeReconciler_SetupWithManager),
      (''WorkloadStorage'', WorkloadStorageReconciler_SetupWithManager),
      (''WorkloadNetworking'', WorkloadNetworkingReconciler_SetupWithManager),
      (''WorkloadObservability'', WorkloadObservabilityReconciler_SetupWithManager),
      (''WorkloadSecurity'', WorkloadSecurityReconciler_SetupWithManager)]"

definition compute_registrations :: "(string \<times> controller_setup) list" where
  "compute_registrations =
     [(''ComputeDeployment'', ComputeDeploymentReconciler_SetupWithManager),
      (''ComputeHPA'', HPAReconciler_SetupWithManager),
      (''ComputePDB'', PDBReconciler_SetupWithManager)]"

definition storage_registrations :: "(string \<times> controller_setup) list" where
  "storage_registrations =
     [(''StoragePVC'', PVCReconciler_SetupWithManager),
      (''StorageDeployment'', StorageDeploymentReconciler_SetupWithManager)]"

definition networking_registrations :: "(string \<times> controller_setup) list" where
  "networking_registrations =
     [(''NetworkingService'', ServiceReconciler_SetupWithManager),
      (''NetworkingIngress'', IngressReconciler_SetupWithManager)]"

definition observability_registrations :: "(string \<times> controller_setup) list" where
  "observability_registrations =
     [(''ObservabilityServiceMonitor'', ServiceMonitorReconciler_SetupWithManager),
      (''ObservabilityPodMonitor'', PodMonitorReconciler_SetupWithManager)]"

definition security_registrations :: "(string \<times> controller_setup) list" where
  "security_registrations =
     [(''SecurityRole'', RoleReconciler_SetupWithManager),
      (''SecurityRoleBinding'', RoleBindingReconciler_SetupWithManager)]"

definition registrations :: "(string \<times> controller_setup) list" where
  "registrations =
     workload_registrations @ compute_registrations @ storage_registrations @
     networking_registrations @ observability_registrations @ security_registrations"

lemmas registrations_defs =
  registrations_def workload_registrations_def
  compute_registrations_def
  storage_registrations_def
  networking_registrations_def
  observability_registrations_def
  security_registrations_def

fun register_all ::
    "'s manager_api \<Rightarrow> (string \<times> controller_setup) list \<Rightarrow> ('s, exit option) state" where
  "register_all M [] = State_Monad.return None"
| "register_all M ((name, ctl) # rest) = do {
     err \<leftarrow> mgr_Complete M ctl;
     (case err of
        Some err \<Rightarrow> State_Monad.return (Some (Exit ''Failed to create controller'' name err))
      | None \<Rightarrow> register_all M rest)
   }"

text \<open>The end of \<^verbatim>\<open>main\<close>: the two checks and the start.\<close>

definition start_manager :: "'s manager_api \<Rightarrow> ('s, exit option) state" where
  "start_manager M = do {
     err \<leftarrow> mgr_AddHealthzCheck M;
     (case err of
        Some err \<Rightarrow> State_Monad.return (Some (Exit ''Failed to set up health check'' '''' err))
      | None \<Rightarrow> do {
          err \<leftarrow> mgr_AddReadyzCheck M;
          (case err of
             Some err \<Rightarrow> State_Monad.return (Some (Exit ''Failed to set up ready check'' '''' err))
           | None \<Rightarrow> do {
               err \<leftarrow> mgr_Start M;
               (case err of
                  Some err \<Rightarrow> State_Monad.return (Some (Exit ''Failed to run manager'' '''' err))
                | None \<Rightarrow> State_Monad.return None)
             })
        })
   }"

definition main :: "'s manager_api \<Rightarrow> flags \<Rightarrow> ('s, exit option) state" where
  "main M f = do {
     err \<leftarrow> mgr_New M (managerOptions f);
     (case err of
        Some err \<Rightarrow> State_Monad.return (Some (Exit ''Failed to start manager'' '''' err))
      | None \<Rightarrow> do {
          r \<leftarrow> register_all M registrations;
          (case r of
             Some exit \<Rightarrow> State_Monad.return (Some exit)
           | None \<Rightarrow> start_manager M)
        })
   }"

section \<open>The permissions\<close>

text \<open>\<^verbatim>\<open>+kubebuilder:rbac:groups=...,resources=...,verbs=...\<close>, line by line.\<close>

definition all_verbs :: "string list" where
  "all_verbs = [''get'', ''list'', ''watch'', ''create'', ''update'', ''patch'', ''delete'']"

definition rbac_markers :: "(string \<times> string list \<times> string list) list" where
  "rbac_markers =
     (let own = ''calypso.lmoet.io''; status = [''get'', ''update'', ''patch''] in
      [(own, [''workloads''], all_verbs),
       (own, [''workloads/status''], status),
       (own, [''workloads/finalizers''], [''update'']),
       (own, [''computes'', ''storages'', ''networkings'', ''observabilities'', ''securities''], all_verbs),
       (own, [''computes/status'', ''storages/status'', ''networkings/status'',
              ''observabilities/status'', ''securities/status''], status),
       (own, [''computes''], all_verbs),
       (own, [''computes/status''], status),
       (own, [''computes/finalizers''], [''update'']),
       (''apps'', [''deployments''], [''get'', ''list'', ''watch'', ''update'', ''patch'']),
       (''autoscaling'', [''horizontalpodautoscalers''], all_verbs),
       (''policy'', [''poddisruptionbudgets''], all_verbs),
       (own, [''observabilities''], all_verbs),
       (own, [''observabilities/status''], status),
       (own, [''observabilities/finalizers''], [''update'']),
       (''monitoring.coreos.com'', [''servicemonitors'', ''podmonitors''], all_verbs),
       (own, [''securities''], all_verbs),
       (own, [''securities/status''], status),
       (own, [''securities/finalizers''], [''update'']),
       (''rbac.authorization.k8s.io'', [''roles'', ''rolebindings''], all_verbs),
       (own, [''networkings''], all_verbs),
       (own, [''networkings/status''], status),
       (own, [''networkings/finalizers''], [''update'']),
       ('''', [''services''], all_verbs),
       (''networking.k8s.io'', [''ingresses''], all_verbs),
       (own, [''storages''], all_verbs),
       (own, [''storages/status''], status),
       (own, [''storages/finalizers''], [''update'']),
       ('''', [''persistentvolumeclaims''], all_verbs),
       (''apps'', [''deployments''], [''get'', ''list'', ''watch'', ''update'', ''patch''])])"

definition granted_verbs :: "string \<Rightarrow> string \<Rightarrow> string list" where
  "granted_verbs grp resource =
     concat (map (\<lambda>(g, rs, vs). if g = grp \<and> resource \<in> set rs then vs else []) rbac_markers)"

definition granted :: "string \<Rightarrow> string \<Rightarrow> string \<Rightarrow> bool" where
  "granted grp resource verb \<longleftrightarrow> verb \<in> set (granted_verbs grp resource)"

section \<open>Correctness\<close>

text \<open>
  A manager that records the calls it gets; \<open>refuse\<close> says which of them fail.
\<close>

datatype event =
    New manager_options
  | Complete controller_setup
  | AddHealthzCheck
  | AddReadyzCheck
  | Start

definition attempt :: "(event \<Rightarrow> go_error option) \<Rightarrow> event \<Rightarrow> (event list, go_error option) state" where
  "attempt refuse ev = State (\<lambda>tr. (refuse ev, tr @ [ev]))"

definition recording_manager :: "(event \<Rightarrow> go_error option) \<Rightarrow> event list manager_api" where
  "recording_manager refuse =
     \<lparr>mgr_New = (\<lambda>opts. attempt refuse (New opts)),
      mgr_Complete = (\<lambda>ctl. attempt refuse (Complete ctl)),
      mgr_AddHealthzCheck = attempt refuse AddHealthzCheck,
      mgr_AddReadyzCheck = attempt refuse AddReadyzCheck,
      mgr_Start = attempt refuse Start\<rparr>"


text \<open>The events up to and including the first refused one.\<close>

definition until_refused :: "(event \<Rightarrow> go_error option) \<Rightarrow> event list \<Rightarrow> event list" where
  "until_refused refuse evs =
     takeWhile (\<lambda>ev. refuse ev = None) evs @ take 1 (dropWhile (\<lambda>ev. refuse ev = None) evs)"

lemma until_refused_simps [simp]:
  "until_refused refuse [] = []"
  "until_refused refuse (ev # evs) =
     (if refuse ev = None then ev # until_refused refuse evs else [ev])"
  by (simp_all add: until_refused_def)


lemma attempt_run [simp]: "run_state (attempt refuse ev) tr = (refuse ev, tr @ [ev])"
  by (simp add: attempt_def)

lemma recording_manager_sel [simp]:
  "mgr_New (recording_manager refuse) opts = attempt refuse (New opts)"
  "mgr_Complete (recording_manager refuse) ctl = attempt refuse (Complete ctl)"
  "mgr_AddHealthzCheck (recording_manager refuse) = attempt refuse AddHealthzCheck"
  "mgr_AddReadyzCheck (recording_manager refuse) = attempt refuse AddReadyzCheck"
  "mgr_Start (recording_manager refuse) = attempt refuse Start"
  by (simp_all add: recording_manager_def)



text \<open>A manager that refuses a second controller of the same name.\<close>

definition naming_manager :: "string list manager_api" where
  "naming_manager =
     \<lparr>mgr_New = (\<lambda>opts. State_Monad.return None),
      mgr_Complete = (\<lambda>ctl. State (\<lambda>names.
        if setup_Named ctl \<in> set names
        then (Some (LibError ''controller with name already exists''), names)
        else (None, setup_Named ctl # names))),
      mgr_AddHealthzCheck = State_Monad.return None,
      mgr_AddReadyzCheck = State_Monad.return None,
      mgr_Start = State_Monad.return None\<rparr>"

text \<open>
  The sixteen controllers have sixteen different names: a manager that refuses a second
  controller of the same name, as the controller runtime does, accepts them all.
\<close>

theorem main_registers_all:
  "fst (run_state (main naming_manager f) []) = None \<and>
   length (snd (run_state (main naming_manager f) [])) = 16"
proof -
  have "run_state (register_all naming_manager registrations) [] =
      (None, rev (map (\<lambda>(name, ctl). setup_Named ctl) registrations))"
    by code_simp
  then show ?thesis by (simp add: main_def start_manager_def naming_manager_def registrations_defs)
qed

text \<open>
  Unless HTTP/2 is asked for, both servers offer HTTP/1.1 only, whatever the TLS
  configuration they start from, and otherwise they leave it alone.  The metrics endpoint is
  served over TLS exactly when it is behind authentication and authorization, and own
  certificates are used exactly when a directory is given.
\<close>

theorem server_options:
  "foldl (\<lambda>c opt. opt c) c (wh_TLSOpts (mg_WebhookServer (managerOptions f))) =
     (if enableHTTP2 f then c else c\<lparr>tls_NextProtos := [''http/1.1'']\<rparr>) \<and>
   foldl (\<lambda>c opt. opt c) c (mo_TLSOpts (mg_Metrics (managerOptions f))) =
     (if enableHTTP2 f then c else c\<lparr>tls_NextProtos := [''http/1.1'']\<rparr>) \<and>
   (mo_FilterProvider (mg_Metrics (managerOptions f)) \<noteq> None \<longleftrightarrow>
      mo_SecureServing (mg_Metrics (managerOptions f))) \<and>
   mo_CertDir (mg_Metrics (managerOptions f)) = metricsCertPath f \<and>
   wh_CertDir (mg_WebhookServer (managerOptions f)) = webhookCertPath f \<and>
   (mo_CertName (mg_Metrics (managerOptions f)) = (if metricsCertPath f = '''' then '''' else metricsCertName f)) \<and>
   mo_FilterProvider (mg_Metrics (managerOptions default_flags)) \<noteq> None \<and>
   tlsOpts default_flags = [disableHTTP2]"
  by (simp add: managerOptions_def metricsServerOptions_def webhookServerOptions_def tlsOpts_def
      default_flags_def disableHTTP2_def Let_def)

section \<open>Permissions\<close>

text \<open>Group and resource of the kinds the set-ups mention.\<close>

definition resource_of :: "string \<Rightarrow> string \<times> string" where
  "resource_of kind =
     the (map_of
       [(''Workload'', ''calypso.lmoet.io'', ''workloads''),
        (''Compute'', ''calypso.lmoet.io'', ''computes''),
        (''Storage'', ''calypso.lmoet.io'', ''storages''),
        (''Networking'', ''calypso.lmoet.io'', ''networkings''),
        (''Observability'', ''calypso.lmoet.io'', ''observabilities''),
        (''Security'', ''calypso.lmoet.io'', ''securities''),
        (''Deployment'', ''apps'', ''deployments''),
        (''HorizontalPodAutoscaler'', ''autoscaling'', ''horizontalpodautoscalers''),
        (''PodDisruptionBudget'', ''policy'', ''poddisruptionbudgets''),
        (''PersistentVolumeClaim'', '''', ''persistentvolumeclaims''),
        (''Service'', '''', ''services''),
        (''Ingress'', ''networking.k8s.io'', ''ingresses''),
        (''Role'', ''rbac.authorization.k8s.io'', ''roles''),
        (''RoleBinding'', ''rbac.authorization.k8s.io'', ''rolebindings''),
        (''PodMonitor'', ''monitoring.coreos.com'', ''podmonitors''),
        (''ServiceMonitor'', ''monitoring.coreos.com'', ''servicemonitors'')] kind)"

definition allowed :: "string \<Rightarrow> string \<Rightarrow> bool" where
  "allowed kind verb = granted (fst (resource_of kind)) (snd (resource_of kind)) verb"

lemma resource_of_kinds:
  "resource_of ''Workload'' = (''calypso.lmoet.io'', ''workloads'')"
  "resource_of ''Compute'' = (''calypso.lmoet.io'', ''computes'')"
  "resource_of ''Storage'' = (''calypso.lmoet.io'', ''storages'')"
  "resource_of ''Networking'' = (''calypso.lmoet.io'', ''networkings'')"
  "resource_of ''Observability'' = (''calypso.lmoet.io'', ''observabilities'')"
  "resource_of ''Security'' = (''calypso.lmoet.io'', ''securities'')"
  "resource_of ''Deployment'' = (''apps'', ''deployments'')"
  "resource_of ''HorizontalPodAutoscaler'' = (''autoscaling'', ''horizontalpodautoscalers'')"
  "resource_of ''PodDisruptionBudget'' = (''policy'', ''poddisruptionbudgets'')"
  "resource_of ''PersistentVolumeClaim'' = ('''', ''persistentvolumeclaims'')"
  "resource_of ''Service'' = ('''', ''services'')"
  "resource_of ''Ingress'' = (''networking.k8s.io'', ''ingresses'')"
  "resource_of ''Role'' = (''rbac.authorization.k8s.io'', ''roles'')"
  "resource_of ''RoleBinding'' = (''rbac.authorization.k8s.io'', ''rolebindings'')"
  "resource_of ''PodMonitor'' = (''monitoring.coreos.com'', ''podmonitors'')"
  "resource_of ''ServiceMonitor'' = (''monitoring.coreos.com'', ''servicemonitors'')"
  by (simp_all add: resource_of_def)

lemma granted_own:
  "set (granted_verbs ''calypso.lmoet.io'' ''workloads'') = set all_verbs"
  "set (granted_verbs ''calypso.lmoet.io'' ''computes'') = set all_verbs"
  "set (granted_verbs ''calypso.lmoet.io'' ''storages'') = set all_verbs"
  "set (granted_verbs ''calypso.lmoet.io'' ''networkings'') = set all_verbs"
  "set (granted_verbs ''calypso.lmoet.io'' ''observabilities'') = set all_verbs"
  "set (granted_verbs ''calypso.lmoet.io'' ''securities'') = set all_verbs"
  "set (granted_verbs ''calypso.lmoet.io'' ''workloads/finalizers'') = {''update''}"
  "set (granted_verbs ''calypso.lmoet.io'' ''computes/finalizers'') = {''update''}"
  "set (granted_verbs ''calypso.lmoet.io'' ''storages/finalizers'') = {''update''}"
  "set (granted_verbs ''calypso.lmoet.io'' ''networkings/finalizers'') = {''update''}"
  "set (granted_verbs ''calypso.lmoet.io'' ''observabilities/finalizers'') = {''update''}"
  "set (granted_verbs ''calypso.lmoet.io'' ''securities/finalizers'') = {''update''}"
  by code_simp+

lemma granted_children:
  "set (granted_verbs ''autoscaling'' ''horizontalpodautoscalers'') = set all_verbs"
  "set (granted_verbs ''policy'' ''poddisruptionbudgets'') = set all_verbs"
  "set (granted_verbs '''' ''persistentvolumeclaims'') = set all_verbs"
  "set (granted_verbs '''' ''services'') = set all_verbs"
  "set (granted_verbs ''networking.k8s.io'' ''ingresses'') = set all_verbs"
  "set (granted_verbs ''rbac.authorization.k8s.io'' ''roles'') = set all_verbs"
  "set (granted_verbs ''rbac.authorization.k8s.io'' ''rolebindings'') = set all_verbs"
  "set (granted_verbs ''monitoring.coreos.com'' ''podmonitors'') = set all_verbs"
  "set (granted_verbs ''monitoring.coreos.com'' ''servicemonitors'') = set all_verbs"
  "set (granted_verbs ''apps'' ''deployments'') = {''get'', ''list'', ''watch'', ''update'', ''patch''}"
  by code_simp+

end
