(* ===== verification/Scheme_Registration.thy ===== *)
theory Scheme_Registration
  imports Manager_Setup
begin

text \<open>
  \<^verbatim>\<open>api/v1alpha1/groupversion_info.go\<close>, the \<^verbatim>\<open>init\<close> functions of the \<^verbatim>\<open>*_types.go\<close> files and the
  one of \<^verbatim>\<open>cmd/main.go\<close>: which Go types the scheme of the manager knows.  The builder and the
  two \<^verbatim>\<open>AddToScheme\<close> functions belong to the libraries and are parameters.
\<close>

section \<open>Types and schemes\<close>














section \<open>What the libraries promise\<close>







end
