(* ===== verification/Cluster_Run.thy ===== *)
theory Cluster_Run
  imports Manager_Setup Sample_Cluster
begin

text \<open>
  The sixteen controllers of one manager running against one cluster: \<^verbatim>\<open>cmd/main.go\<close> gives
  every reconciler the client and the scheme of the manager.  \<open>handler\<close> is the reconciler of
  each controller on a common client, \<open>operator_step\<close> one run of any of them, for any
  request, with any faults, and \<open>cluster_step\<close> adds what users and the garbage collector do.
  What holds of every reachable cluster is proved here by rule induction: no controller writes
  a kind that is not its own, Workloads, Deployments and claims are never lost, and every
  object the capability controllers store is controlled by the resource it was made for.
\<close>

section \<open>The wiring\<close>

datatype controller =
    WorkloadCompute
  | WorkloadStorage
  | WorkloadNetworking
  | WorkloadObservability
  | WorkloadSecurity
  | ComputeDeployment
  | ComputeHPA
  | ComputePDB
  | StoragePVC
  | StorageDeployment
  | NetworkingService
  | NetworkingIngress
  | ObservabilityServiceMonitor
  | ObservabilityPodMonitor
  | SecurityRole
  | SecurityRoleBinding

definition all_controllers :: "controller list" where
  "all_controllers =
     [WorkloadCompute, WorkloadStorage, WorkloadNetworking,
      WorkloadObservability, WorkloadSecurity, ComputeDeployment,
      ComputeHPA, ComputePDB, StoragePVC,
      StorageDeployment, NetworkingService, NetworkingIngress,
      ObservabilityServiceMonitor, ObservabilityPodMonitor, SecurityRole,
      SecurityRoleBinding]"

fun setup_of :: "controller \<Rightarrow> controller_setup" where
  "setup_of WorkloadCompute = WorkloadComputeReconciler_SetupWithManager"
| "setup_of WorkloadStorage = WorkloadStorageReconciler_SetupWithManager"
| "setup_of WorkloadNetworking = WorkloadNetworkingReconciler_SetupWithManager"
| "setup_of WorkloadObservability = WorkloadObservabilityReconciler_SetupWithManager"
| "setup_of WorkloadSecurity = WorkloadSecurityReconciler_SetupWithManager"
| "setup_of ComputeDeployment = ComputeDeploymentReconciler_SetupWithManager"
| "setup_of ComputeHPA = HPAReconciler_SetupWithManager"
| "setup_of ComputePDB = PDBReconciler_SetupWithManager"
| "setup_of StoragePVC = PVCReconciler_SetupWithManager"
| "setup_of StorageDeployment = StorageDeploymentReconciler_SetupWithManager"
| "setup_of NetworkingService = ServiceReconciler_SetupWithManager"
| "setup_of NetworkingIngress = IngressReconciler_SetupWithManager"
| "setup_of ObservabilityServiceMonitor = ServiceMonitorReconciler_SetupWithManager"
| "setup_of ObservabilityPodMonitor = PodMonitorReconciler_SetupWithManager"
| "setup_of SecurityRole = RoleReconciler_SetupWithManager"
| "setup_of SecurityRoleBinding = RoleBindingReconciler_SetupWithManager"

lemma registered_controllers: "map snd registrations = map setup_of all_controllers"
  by (simp add: registrations_defs all_controllers_def)

lemmas setup_defs =
  WorkloadComputeReconciler_SetupWithManager_def
  WorkloadStorageReconciler_SetupWithManager_def
  WorkloadNetworkingReconciler_SetupWithManager_def
  WorkloadObservabilityReconciler_SetupWithManager_def
  WorkloadSecurityReconciler_SetupWithManager_def
  ComputeDeploymentReconciler_SetupWithManager_def
  HPAReconciler_SetupWithManager_def
  PDBReconciler_SetupWithManager_def
  PVCReconciler_SetupWithManager_def
  StorageDeploymentReconciler_SetupWithManager_def
  ServiceReconciler_SetupWithManager_def
  IngressReconciler_SetupWithManager_def
  ServiceMonitorReconciler_SetupWithManager_def
  PodMonitorReconciler_SetupWithManager_def
  RoleReconciler_SetupWithManager_def
  RoleBindingReconciler_SetupWithManager_def

text \<open>
  The kind each controller writes.  It is the kind whose changes requeue the owner, where the
  set-up declares one; the monitors declare none, so nothing notices when one is edited or
  deleted by hand.
\<close>

fun written_kind :: "controller \<Rightarrow> string" where
  "written_kind WorkloadCompute = ''Compute''"
| "written_kind WorkloadStorage = ''Storage''"
| "written_kind WorkloadNetworking = ''Networking''"
| "written_kind WorkloadObservability = ''Observability''"
| "written_kind WorkloadSecurity = ''Security''"
| "written_kind ComputeDeployment = ''Deployment''"
| "written_kind ComputeHPA = ''HorizontalPodAutoscaler''"
| "written_kind ComputePDB = ''PodDisruptionBudget''"
| "written_kind StoragePVC = ''PersistentVolumeClaim''"
| "written_kind StorageDeployment = ''Deployment''"
| "written_kind NetworkingService = ''Service''"
| "written_kind NetworkingIngress = ''Ingress''"
| "written_kind ObservabilityServiceMonitor = ''ServiceMonitor''"
| "written_kind ObservabilityPodMonitor = ''PodMonitor''"
| "written_kind SecurityRole = ''Role''"
| "written_kind SecurityRoleBinding = ''RoleBinding''"

lemma owned_kind_written: "set (setup_Owns (setup_of ctl)) \<subseteq> {written_kind ctl}"
  by (cases ctl) (simp_all add: setup_defs)

text \<open>The client of the manager, kind by kind, and the JSON forms of the patched kinds.\<close>

record 's client =
  cli_workloads :: "('s, Workload) api"
  cli_computes :: "('s, Compute) api"
  cli_storages :: "('s, Storage) api"
  cli_networkings :: "('s, Networking) api"
  cli_observabilities :: "('s, Observability) api"
  cli_securities :: "('s, Security) api"
  cli_deployments :: "('s, Deployment) api"
  cli_hpas :: "('s, HorizontalPodAutoscaler) api"
  cli_pdbs :: "('s, PodDisruptionBudget) api"
  cli_pvcs :: "('s, PersistentVolumeClaim) api"
  cli_services :: "('s, Service) api"
  cli_ingresses :: "('s, Ingress) api"
  cli_podmonitors :: "('s, Unstructured) api"
  cli_servicemonitors :: "('s, Unstructured) api"
  cli_roles :: "('s, Role) api"
  cli_rolebindings :: "('s, RoleBinding) api"

record codecs =
  cod_HPA :: "HorizontalPodAutoscaler codec"
  cod_PDB :: "PodDisruptionBudget codec"
  cod_Deployment :: "Deployment codec"
  cod_PVC :: "PersistentVolumeClaim codec"
  cod_Service :: "Service codec"
  cod_Ingress :: "Ingress codec"
  cod_Role :: "Role codec"
  cod_RoleBinding :: "RoleBinding codec"

fun handler ::
    "lib \<Rightarrow> codecs \<Rightarrow> 's client \<Rightarrow> controller \<Rightarrow> key \<Rightarrow> ('s, go_error option) state" where
  "handler L K A WorkloadCompute req =
     WorkloadComputeReconciler_Reconcile L (cli_workloads A) (cli_computes A) req"
| "handler L K A WorkloadStorage req =
     WorkloadStorageReconciler_Reconcile L (cli_workloads A) (cli_storages A) req"
| "handler L K A WorkloadNetworking req =
     WorkloadNetworkingReconciler_Reconcile L (cli_workloads A) (cli_networkings A) req"
| "handler L K A WorkloadObservability req =
     WorkloadObservabilityReconciler_Reconcile L (cli_workloads A) (cli_observabilities A) req"
| "handler L K A WorkloadSecurity req =
     WorkloadSecurityReconciler_Reconcile L (cli_workloads A) (cli_securities A) req"
| "handler L K A ComputeDeployment req =
     ComputeDeploymentReconciler_Reconcile L (cod_Deployment K) (cli_computes A) (cli_deployments A) req"
| "handler L K A ComputeHPA req =
     HPAReconciler_Reconcile L (cod_HPA K) (cli_computes A) (cli_hpas A) req"
| "handler L K A ComputePDB req =
     PDBReconciler_Reconcile L (cod_PDB K) (cli_deployments A) (cli_computes A) (cli_pdbs A) req"
| "handler L K A StoragePVC req =
     PVCReconciler_Reconcile L (cod_PVC K) (cli_storages A) (cli_pvcs A) req"
| "handler L K A StorageDeployment req =
     StorageDeploymentReconciler_Reconcile L (cod_Deployment K) (cli_storages A) (cli_deployments A) req"
| "handler L K A NetworkingService req =
     ServiceReconciler_Reconcile L (cod_Service K) (cli_networkings A) (cli_services A) req"
| "handler L K A NetworkingIngress req =
     IngressReconciler_Reconcile L (cod_Ingress K) (cli_networkings A) (cli_ingresses A) req"
| "handler L K A ObservabilityServiceMonitor req =
     ServiceMonitorReconciler_Reconcile L (cli_observabilities A) (cli_servicemonitors A) req"
| "handler L K A ObservabilityPodMonitor req =
     PodMonitorReconciler_Reconcile L (cli_observabilities A) (cli_podmonitors A) req"
| "handler L K A SecurityRole req =
     RoleReconciler_Reconcile L (cod_Role K) (cli_securities A) (cli_roles A) req"
| "handler L K A SecurityRoleBinding req =
     RoleBindingReconciler_Reconcile L (cod_RoleBinding K) (cli_securities A) (cli_rolebindings A) req"

definition mem_client :: "cluster client" where
  "mem_client =
     \<lparr>cli_workloads = workloads_api,
      cli_computes = computes_api,
      cli_storages = storages_api,
      cli_networkings = networkings_api,
      cli_observabilities = observabilities_api,
      cli_securities = securities_api,
      cli_deployments = deployments_api,
      cli_hpas = hpas_api,
      cli_pdbs = pdbs_api,
      cli_pvcs = pvcs_api,
      cli_services = services_api,
      cli_ingresses = ingresses_api,
      cli_podmonitors = podmonitors_api,
      cli_servicemonitors = servicemonitors_api,
      cli_roles = roles_api,
      cli_rolebindings = rolebindings_api\<rparr>"

lemma mem_client_simps [simp]:
  "cli_workloads mem_client = workloads_api"
  "cli_computes mem_client = computes_api"
  "cli_storages mem_client = storages_api"
  "cli_networkings mem_client = networkings_api"
  "cli_observabilities mem_client = observabilities_api"
  "cli_securities mem_client = securities_api"
  "cli_deployments mem_client = deployments_api"
  "cli_hpas mem_client = hpas_api"
  "cli_pdbs mem_client = pdbs_api"
  "cli_pvcs mem_client = pvcs_api"
  "cli_services mem_client = services_api"
  "cli_ingresses mem_client = ingresses_api"
  "cli_podmonitors mem_client = podmonitors_api"
  "cli_servicemonitors mem_client = servicemonitors_api"
  "cli_roles mem_client = roles_api"
  "cli_rolebindings mem_client = rolebindings_api"
  by (simp_all add: mem_client_def)

section \<open>Isolation\<close>

text \<open>
  The cluster without the script of faults and without the one kind the controller may write.
\<close>

fun apart_from :: "controller \<Rightarrow> cluster \<Rightarrow> cluster" where
  "apart_from WorkloadCompute c = c\<lparr>cl_faults := [], cl_computes := []\<rparr>"
| "apart_from WorkloadStorage c = c\<lparr>cl_faults := [], cl_storages := []\<rparr>"
| "apart_from WorkloadNetworking c = c\<lparr>cl_faults := [], cl_networkings := []\<rparr>"
| "apart_from WorkloadObservability c = c\<lparr>cl_faults := [], cl_observabilities := []\<rparr>"
| "apart_from WorkloadSecurity c = c\<lparr>cl_faults := [], cl_securities := []\<rparr>"
| "apart_from ComputeDeployment c = c\<lparr>cl_faults := [], cl_deployments := []\<rparr>"
| "apart_from ComputeHPA c = c\<lparr>cl_faults := [], cl_hpas := []\<rparr>"
| "apart_from ComputePDB c = c\<lparr>cl_faults := [], cl_pdbs := []\<rparr>"
| "apart_from StoragePVC c = c\<lparr>cl_faults := [], cl_pvcs := []\<rparr>"
| "apart_from StorageDeployment c = c\<lparr>cl_faults := [], cl_deployments := []\<rparr>"
| "apart_from NetworkingService c = c\<lparr>cl_faults := [], cl_services := []\<rparr>"
| "apart_from NetworkingIngress c = c\<lparr>cl_faults := [], cl_ingresses := []\<rparr>"
| "apart_from ObservabilityServiceMonitor c = c\<lparr>cl_faults := [], cl_servicemonitors := []\<rparr>"
| "apart_from ObservabilityPodMonitor c = c\<lparr>cl_faults := [], cl_podmonitors := []\<rparr>"
| "apart_from SecurityRole c = c\<lparr>cl_faults := [], cl_roles := []\<rparr>"
| "apart_from SecurityRoleBinding c = c\<lparr>cl_faults := [], cl_rolebindings := []\<rparr>"

lemma apart_from_faults: "apart_from ctl (c\<lparr>cl_faults := fs\<rparr>) = apart_from ctl c"
  by (cases ctl) simp_all

lemma pvc_reconcile_preserves:
  assumes "\<And>k. preserves v (api_get oapi k)" and "foreign_to capi v"
  shows "preserves v (PVCReconciler_Reconcile L cod oapi capi req)"
proof -
  have "preserves v (pvc_loop L cod capi w vs)" for w vs
    by (induction vs)
      (auto intro!: preserves_bind preserves_case_option foreign_toD(5) [OF assms(2)])
  then show ?thesis
    unfolding PVCReconciler_Reconcile_def
    by (intro preserves_bind preserves_case_sum preserves_if preserves_return assms(1))
qed

lemma pdb_prepare_preserves:
  assumes "\<And>k. preserves v (api_get dapi k)"
  shows "preserves v (pdb_prepare dapi w)"
  unfolding pdb_prepare_def
  by (intro preserves_if preserves_bind preserves_case_sum preserves_return assms)

lemma patch_preserves:
  "foreign_to capi v \<Longrightarrow> preserves v (api_patch capi new old)"
  by (rule foreign_toD(4))

lemmas mem_reads_preserve =
  mem_workloads.get_preserves [OF apart_from_faults]
  mem_computes.get_preserves [OF apart_from_faults]
  mem_storages.get_preserves [OF apart_from_faults]
  mem_networkings.get_preserves [OF apart_from_faults]
  mem_observabilities.get_preserves [OF apart_from_faults]
  mem_securities.get_preserves [OF apart_from_faults]
  mem_deployments.get_preserves [OF apart_from_faults]

lemma mem_writes_foreign:
  "foreign_to computes_api (apart_from WorkloadCompute)"
  "foreign_to storages_api (apart_from WorkloadStorage)"
  "foreign_to networkings_api (apart_from WorkloadNetworking)"
  "foreign_to observabilities_api (apart_from WorkloadObservability)"
  "foreign_to securities_api (apart_from WorkloadSecurity)"
  "foreign_to deployments_api (apart_from ComputeDeployment)"
  "foreign_to hpas_api (apart_from ComputeHPA)"
  "foreign_to pdbs_api (apart_from ComputePDB)"
  "foreign_to pvcs_api (apart_from StoragePVC)"
  "foreign_to deployments_api (apart_from StorageDeployment)"
  "foreign_to services_api (apart_from NetworkingService)"
  "foreign_to ingresses_api (apart_from NetworkingIngress)"
  "foreign_to servicemonitors_api (apart_from ObservabilityServiceMonitor)"
  "foreign_to podmonitors_api (apart_from ObservabilityPodMonitor)"
  "foreign_to roles_api (apart_from SecurityRole)"
  "foreign_to rolebindings_api (apart_from SecurityRoleBinding)"
  subgoal by (rule mem_computes.mem_foreign [OF apart_from_faults]) simp
  subgoal by (rule mem_storages.mem_foreign [OF apart_from_faults]) simp
  subgoal by (rule mem_networkings.mem_foreign [OF apart_from_faults]) simp
  subgoal by (rule mem_observabilities.mem_foreign [OF apart_from_faults]) simp
  subgoal by (rule mem_securities.mem_foreign [OF apart_from_faults]) simp
  subgoal by (rule mem_deployments.mem_foreign [OF apart_from_faults]) simp
  subgoal by (rule mem_hpas.mem_foreign [OF apart_from_faults]) simp
  subgoal by (rule mem_pdbs.mem_foreign [OF apart_from_faults]) simp
  subgoal by (rule mem_pvcs.mem_foreign [OF apart_from_faults]) simp
  subgoal by (rule mem_deployments.mem_foreign [OF apart_from_faults]) simp
  subgoal by (rule mem_services.mem_foreign [OF apart_from_faults]) simp
  subgoal by (rule mem_ingresses.mem_foreign [OF apart_from_faults]) simp
  subgoal by (rule mem_servicemonitors.mem_foreign [OF apart_from_faults]) simp
  subgoal by (rule mem_podmonitors.mem_foreign [OF apart_from_faults]) simp
  subgoal by (rule mem_roles.mem_foreign [OF apart_from_faults]) simp
  subgoal by (rule mem_rolebindings.mem_foreign [OF apart_from_faults]) simp
  done

lemma handler_isolated: "preserves (apart_from ctl) (handler L K mem_client ctl req)"
proof (cases ctl)
  case WorkloadCompute
  show ?thesis
    unfolding WorkloadCompute handler.simps mem_client_simps workload_compute.pure_shape
    by (intro child_reconcile_preserves preserves_return mem_reads_preserve mem_writes_foreign(1))
next
  case WorkloadStorage
  show ?thesis
    unfolding WorkloadStorage handler.simps mem_client_simps workload_storage.pure_shape
    by (intro child_reconcile_preserves preserves_return mem_reads_preserve mem_writes_foreign(2))
next
  case WorkloadNetworking
  show ?thesis
    unfolding WorkloadNetworking handler.simps mem_client_simps workload_networking.pure_shape
    by (intro child_reconcile_preserves preserves_return mem_reads_preserve mem_writes_foreign(3))
next
  case WorkloadObservability
  show ?thesis
    unfolding WorkloadObservability handler.simps mem_client_simps workload_observability.pure_shape
    by (intro child_reconcile_preserves preserves_return mem_reads_preserve mem_writes_foreign(4))
next
  case WorkloadSecurity
  show ?thesis
    unfolding WorkloadSecurity handler.simps mem_client_simps workload_security.pure_shape
    by (intro child_reconcile_preserves preserves_return mem_reads_preserve mem_writes_foreign(5))
next
  case ComputeDeployment
  show ?thesis
    unfolding ComputeDeployment handler.simps mem_client_simps compute_deployment.patcher_shape
    by (intro target_reconcile_preserves mem_reads_preserve
        patch_preserves [OF mem_writes_foreign(6)])
next
  case ComputeHPA
  show ?thesis
    unfolding ComputeHPA handler.simps mem_client_simps hpa.pure_shape
    by (intro child_reconcile_preserves preserves_return mem_reads_preserve mem_writes_foreign(7))
next
  case ComputePDB
  show ?thesis
    unfolding ComputePDB handler.simps mem_client_simps pdb.shape
    by (intro child_reconcile_preserves pdb_prepare_preserves mem_reads_preserve
        mem_writes_foreign(8))
next
  case StoragePVC
  show ?thesis
    unfolding StoragePVC handler.simps mem_client_simps
    by (intro pvc_reconcile_preserves mem_reads_preserve mem_writes_foreign(9))
next
  case StorageDeployment
  show ?thesis
    unfolding StorageDeployment handler.simps mem_client_simps storage_deployment.patcher_shape
    by (intro target_reconcile_preserves mem_reads_preserve
        patch_preserves [OF mem_writes_foreign(10)])
next
  case NetworkingService
  show ?thesis
    unfolding NetworkingService handler.simps mem_client_simps svc.pure_shape
    by (intro child_reconcile_preserves preserves_return mem_reads_preserve mem_writes_foreign(11))
next
  case NetworkingIngress
  show ?thesis
    unfolding NetworkingIngress handler.simps mem_client_simps ing.pure_shape
    by (intro child_reconcile_preserves preserves_return mem_reads_preserve mem_writes_foreign(12))
next
  case ObservabilityServiceMonitor
  show ?thesis
    unfolding ObservabilityServiceMonitor handler.simps mem_client_simps servicemonitor.pure_shape
    by (intro child_reconcile_preserves preserves_return mem_reads_preserve mem_writes_foreign(13))
next
  case ObservabilityPodMonitor
  show ?thesis
    unfolding ObservabilityPodMonitor handler.simps mem_client_simps podmonitor.pure_shape
    by (intro child_reconcile_preserves preserves_return mem_reads_preserve mem_writes_foreign(14))
next
  case SecurityRole
  show ?thesis
    unfolding SecurityRole handler.simps mem_client_simps role.pure_shape
    by (intro child_reconcile_preserves preserves_return mem_reads_preserve mem_writes_foreign(15))
next
  case SecurityRoleBinding
  show ?thesis
    unfolding SecurityRoleBinding handler.simps mem_client_simps rolebinding.pure_shape
    by (intro child_reconcile_preserves preserves_return mem_reads_preserve mem_writes_foreign(16))
qed

text \<open>So every other kind is as before.\<close>

lemma kept:
  assumes "apart_from ctl c' = apart_from ctl c"
  shows "cl_workloads c' = cl_workloads c"
    and "ctl \<noteq> WorkloadCompute \<Longrightarrow> cl_computes c' = cl_computes c"
    and "ctl \<noteq> WorkloadStorage \<Longrightarrow> cl_storages c' = cl_storages c"
    and "ctl \<noteq> WorkloadNetworking \<Longrightarrow> cl_networkings c' = cl_networkings c"
    and "ctl \<noteq> WorkloadObservability \<Longrightarrow> cl_observabilities c' = cl_observabilities c"
    and "ctl \<noteq> WorkloadSecurity \<Longrightarrow> cl_securities c' = cl_securities c"
    and "ctl \<notin> {ComputeDeployment, StorageDeployment} \<Longrightarrow> cl_deployments c' = cl_deployments c"
    and "ctl \<noteq> ComputeHPA \<Longrightarrow> cl_hpas c' = cl_hpas c"
    and "ctl \<noteq> ComputePDB \<Longrightarrow> cl_pdbs c' = cl_pdbs c"
    and "ctl \<noteq> StoragePVC \<Longrightarrow> cl_pvcs c' = cl_pvcs c"
    and "ctl \<noteq> NetworkingService \<Longrightarrow> cl_services c' = cl_services c"
    and "ctl \<noteq> NetworkingIngress \<Longrightarrow> cl_ingresses c' = cl_ingresses c"
    and "ctl \<noteq> ObservabilityPodMonitor \<Longrightarrow> cl_podmonitors c' = cl_podmonitors c"
    and "ctl \<noteq> ObservabilityServiceMonitor \<Longrightarrow> cl_servicemonitors c' = cl_servicemonitors c"
    and "ctl \<noteq> SecurityRole \<Longrightarrow> cl_roles c' = cl_roles c"
    and "ctl \<noteq> SecurityRoleBinding \<Longrightarrow> cl_rolebindings c' = cl_rolebindings c"
  subgoal using arg_cong [OF assms, of cl_workloads] by (cases ctl) simp_all
  subgoal using arg_cong [OF assms, of cl_computes] by (cases ctl) simp_all
  subgoal using arg_cong [OF assms, of cl_storages] by (cases ctl) simp_all
  subgoal using arg_cong [OF assms, of cl_networkings] by (cases ctl) simp_all
  subgoal using arg_cong [OF assms, of cl_observabilities] by (cases ctl) simp_all
  subgoal using arg_cong [OF assms, of cl_securities] by (cases ctl) simp_all
  subgoal using arg_cong [OF assms, of cl_deployments] by (cases ctl) simp_all
  subgoal using arg_cong [OF assms, of cl_hpas] by (cases ctl) simp_all
  subgoal using arg_cong [OF assms, of cl_pdbs] by (cases ctl) simp_all
  subgoal using arg_cong [OF assms, of cl_pvcs] by (cases ctl) simp_all
  subgoal using arg_cong [OF assms, of cl_services] by (cases ctl) simp_all
  subgoal using arg_cong [OF assms, of cl_ingresses] by (cases ctl) simp_all
  subgoal using arg_cong [OF assms, of cl_podmonitors] by (cases ctl) simp_all
  subgoal using arg_cong [OF assms, of cl_servicemonitors] by (cases ctl) simp_all
  subgoal using arg_cong [OF assms, of cl_roles] by (cases ctl) simp_all
  subgoal using arg_cong [OF assms, of cl_rolebindings] by (cases ctl) simp_all
  done

text \<open>
  C6: Whatever a run of a controller meets and returns, for any request, library and escape
  hatches, it changes objects of one kind only: the one it manages, which is the one its
  \<^verbatim>\<open>SetupWithManager\<close> declares as owned if it declares any.  Every object of every other kind is
  left exactly as it was.
\<close>

theorem controllers_isolated:
  "apart_from ctl (snd (run_state (handler L K mem_client ctl req) c)) = apart_from ctl c \<and>
   set (setup_Owns (setup_of ctl)) \<subseteq> {written_kind ctl}"
  using handler_isolated owned_kind_written by (simp add: preserves_def)

section \<open>Runs of the operator\<close>

inductive operator_step :: "lib \<Rightarrow> codecs \<Rightarrow> cluster \<Rightarrow> cluster \<Rightarrow> bool"
  for L K where
  reconcile: "run_state (handler L K mem_client ctl req) c = (r, c') \<Longrightarrow> operator_step L K c c'"
| disturb: "operator_step L K c (c\<lparr>cl_faults := fs\<rparr>)"

text \<open>A property of single reconciles that faults do not touch is a property of every run.\<close>

lemma operator_invariant:
  assumes "(operator_step L K)\<^sup>*\<^sup>* c c'" and "P c c"
    and "\<And>d e ctl req r. P c d \<Longrightarrow> run_state (handler L K mem_client ctl req) d = (r, e) \<Longrightarrow>
           apart_from ctl e = apart_from ctl d \<Longrightarrow> P c e"
    and "\<And>d fs. P c d \<Longrightarrow> P c (d\<lparr>cl_faults := fs\<rparr>)"
  shows "P c c'"
  using assms(1)
proof (induction rule: rtranclp_induct)
  case base
  show ?case by (rule assms(2))
next
  case (step d e)
  from step.hyps(2) show ?case
  proof (cases rule: operator_step.cases)
    case (reconcile ctl req r)
    from preservesD [OF handler_isolated reconcile] show ?thesis by (rule assms(3) [OF step.IH reconcile])
  next
    case (disturb fs)
    with assms(4) [OF step.IH] show ?thesis by simp
  qed
qed

lemma deployments_kept:
  assumes "run_state (handler L K mem_client ctl req) c = (r, c')"
  shows "dom (deployments_view c') = dom (deployments_view c)"
proof (cases "ctl \<in> {ComputeDeployment, StorageDeployment}")
  case False
  with kept(7) [OF preservesD [OF handler_isolated assms]] show ?thesis by (simp add: mem_view_def)
next
  case True
  let ?v = "\<lambda>c. dom (deployments_view c)"
  have faults: "?v (c\<lparr>cl_faults := fs\<rparr>) = ?v c" for c fs by (simp add: mem_view_def)
  note reads = mem_deployments.get_preserves [of ?v, OF faults]
    mem_computes.get_preserves [of ?v, OF faults] mem_storages.get_preserves [of ?v, OF faults]
  have patch: "preserves ?v (api_patch deployments_api new old)" for new old
    using mem_deployments.patch_domain by (intro preservesI) (simp add: mem_view_def)
  have "preserves ?v (handler L K mem_client ctl req)"
    using True
    by (auto simp: compute_deployment.patcher_shape storage_deployment.patcher_shape
        intro!: target_reconcile_preserves reads patch)
  then show ?thesis using assms by (rule preservesD)
qed

lemma claims_kept:
  assumes "run_state (handler L K mem_client ctl req) c = (r, c')"
  shows "dom (pvcs_view c) \<subseteq> dom (pvcs_view c')"
proof (cases "ctl = StoragePVC")
  case False
  with kept(10) [OF preservesD [OF handler_isolated assms]] show ?thesis by (simp add: mem_view_def)
next
  case True
  note get = storages_pvcs.owner_get_cview
  from assms True
  have "run_state (PVCReconciler_Reconcile L (cod_PVC K) storages_api pvcs_api req) c = (r, c')"
    by simp
  then show ?thesis
  proof (cases rule: pvc_run_cases)
    case (owner_error e)
    then show ?thesis using get by fastforce
  next
    case (skipped x)
    then show ?thesis using get by fastforce
  next
    case (looped x t)
    from get [OF looped(1)] mem_claims.loop_keeps_claims [OF looped(3)] show ?thesis by force
  qed
qed

text \<open>
  C5: Whatever the controllers do, in whatever order and with whatever faults and escape
  hatches, they never change a Workload, never create or remove a Deployment and never remove
  a volume claim.
\<close>

theorem operator_never_loses:
  assumes "(operator_step L K)\<^sup>*\<^sup>* c c'"
  shows "cl_workloads c' = cl_workloads c \<and>
    dom (deployments_view c') = dom (deployments_view c) \<and>
    dom (pvcs_view c) \<subseteq> dom (pvcs_view c')"
  using assms
proof (rule operator_invariant [where P = "\<lambda>c c'. cl_workloads c' = cl_workloads c \<and>
    dom (deployments_view c') = dom (deployments_view c) \<and>
    dom (pvcs_view c) \<subseteq> dom (pvcs_view c')"], goal_cases)
  case (2 d e ctl req r)
  from 2 kept(1) [OF 2(3)] deployments_kept [OF 2(2)] claims_kept [OF 2(2)] show ?case
    by (metis subset_trans)
qed (simp_all add: mem_view_def)


section \<open>Users, the garbage collector, and ownership\<close>

text \<open>
  \<open>owned kind names y\<close>: a resource of that kind controls \<open>y\<close>, and \<open>y\<close> has a name made for it.
\<close>

definition owned :: "string \<Rightarrow> (string \<Rightarrow> string set) \<Rightarrow> ('a, 'b) object \<Rightarrow> bool" where
  "owned kind names y \<longleftrightarrow>
     (\<exists>n. (kind, n) \<in> set (controllers_of (obj_Meta y)) \<and> om_Name (obj_Meta y) \<in> names n)"

definition leaves_owned :: "cluster \<Rightarrow> bool" where
  "leaves_owned c \<longleftrightarrow>
     all_stored (hpas_view c) (owned ''Compute'' (\<lambda>n. {dashed n ''hpa''})) \<and>
     all_stored (pdbs_view c) (owned ''Compute'' (\<lambda>n. {dashed n ''pdb''})) \<and>
     all_stored (pvcs_view c) (owned ''Storage'' (\<lambda>n. range (dashed n))) \<and>
     all_stored (services_view c) (owned ''Networking'' (\<lambda>n. UNIV)) \<and>
     all_stored (ingresses_view c) (owned ''Networking'' (\<lambda>n. {dashed n ''ingress''})) \<and>
     all_stored (servicemonitors_view c) (owned ''Observability'' (\<lambda>n. {dashed n ''servicemonitor''})) \<and>
     all_stored (podmonitors_view c) (owned ''Observability'' (\<lambda>n. {dashed n ''podmonitor''})) \<and>
     all_stored (roles_view c) (owned ''Security'' (\<lambda>n. {dashed n ''role''})) \<and>
     all_stored (rolebindings_view c) (owned ''Security'' (\<lambda>n. {dashed n ''rb''}))"

definition hatch_free_workload :: "WorkloadSpec \<Rightarrow> bool" where
  "hatch_free_workload ws \<longleftrightarrow>
     cs_EscapeHatches (ws_Compute ws) = [] \<and> ss_EscapeHatches (ws_Storage ws) = [] \<and>
     ns_EscapeHatches (ws_Networking ws) = [] \<and> sec_EscapeHatches (ws_Security ws) = []"

definition hatch_free :: "cluster \<Rightarrow> bool" where
  "hatch_free c \<longleftrightarrow>
     all_stored (workloads_view c) (\<lambda>w. hatch_free_workload (obj_Spec w)) \<and>
     all_stored (computes_view c) (\<lambda>w. cs_EscapeHatches (obj_Spec w) = []) \<and>
     all_stored (storages_view c) (\<lambda>w. ss_EscapeHatches (obj_Spec w) = []) \<and>
     all_stored (networkings_view c) (\<lambda>w. ns_EscapeHatches (obj_Spec w) = []) \<and>
     all_stored (securities_view c) (\<lambda>w. sec_EscapeHatches (obj_Spec w) = [])"

text \<open>
  Users edit Workloads, capability resources and Deployments as they like, short of escape
  hatches; the garbage collector removes any of the objects the operator made.
\<close>

inductive cluster_step :: "lib \<Rightarrow> codecs \<Rightarrow> cluster \<Rightarrow> cluster \<Rightarrow> bool"
  for L K where
  operator: "operator_step L K c c' \<Longrightarrow> cluster_step L K c c'"
| edit: "hatch_free c' \<Longrightarrow>
     c' = c\<lparr>cl_workloads := ws, cl_computes := cs, cl_storages := ss, cl_networkings := ns,
            cl_observabilities := os, cl_securities := ses, cl_deployments := ds\<rparr> \<Longrightarrow>
     cluster_step L K c c'"
| collect: "c' = c\<lparr>cl_hpas := remove k1 (cl_hpas c), cl_pdbs := remove k2 (cl_pdbs c),
            cl_pvcs := remove k3 (cl_pvcs c), cl_services := remove k4 (cl_services c),
            cl_ingresses := remove k5 (cl_ingresses c),
            cl_servicemonitors := remove k6 (cl_servicemonitors c),
            cl_podmonitors := remove k7 (cl_podmonitors c), cl_roles := remove k8 (cl_roles c),
            cl_rolebindings := remove k9 (cl_rolebindings c)\<rparr> \<Longrightarrow>
     cluster_step L K c c'"

text \<open>Every callback gives its object the owner as controller, and a name made for it.\<close>

lemma owned_by_owner:
  assumes "runtime_lib L" and "set_owner L kind w x = Inr y"
    and "om_Name (obj_Meta y) \<in> names (om_Name (obj_Meta w))"
  shows "owned kind names y"
  using runtime_lib.set_owner_InrD(5) [OF assms(1,2)] assms(3) by (auto simp: owned_def)

lemma key_of_name: "key_of y = (a, b) \<Longrightarrow> om_Name (obj_Meta y) = b"
  by (simp add: key_of_def)

lemma mutate_owned:
  assumes "runtime_lib L"
  shows
    "cs_EscapeHatches (obj_Spec w1) = [] \<Longrightarrow> hpa_mutate L cod1 w1 x1 = Inr y1 \<Longrightarrow>
       key_of y1 = key_of (target_HPA w1) \<Longrightarrow> owned ''Compute'' (\<lambda>n. {dashed n ''hpa''}) y1"
  and "cs_EscapeHatches (obj_Spec w2) = [] \<Longrightarrow> pdb_mutate L cod2 w2 d x2 = Inr y2 \<Longrightarrow>
       key_of y2 = key_of (target_PDB w2) \<Longrightarrow> owned ''Compute'' (\<lambda>n. {dashed n ''pdb''}) y2"
  and "ss_EscapeHatches (obj_Spec w3) = [] \<Longrightarrow> pvc_mutate L cod3 w3 v x3 = Inr y3 \<Longrightarrow>
       key_of y3 = key_of (target_PVC w3 v) \<Longrightarrow> owned ''Storage'' (\<lambda>n. range (dashed n)) y3"
  and "ns_EscapeHatches (obj_Spec w4) = [] \<Longrightarrow> svc_mutate L cod4 w4 x4 = Inr y4 \<Longrightarrow>
       key_of y4 = key_of (target_Svc w4) \<Longrightarrow> owned ''Networking'' (\<lambda>n. UNIV) y4"
  and "ns_EscapeHatches (obj_Spec w5) = [] \<Longrightarrow> ing_mutate L cod5 w5 x5 = Inr y5 \<Longrightarrow>
       key_of y5 = key_of (target_Ing w5) \<Longrightarrow> owned ''Networking'' (\<lambda>n. {dashed n ''ingress''}) y5"
  and "service_monitor_mutate L w6 x6 = Inr y6 \<Longrightarrow>
       key_of y6 = key_of (target_SM w6) \<Longrightarrow> owned ''Observability'' (\<lambda>n. {dashed n ''servicemonitor''}) y6"
  and "pod_monitor_mutate L w7 x7 = Inr y7 \<Longrightarrow>
       key_of y7 = key_of (target_PM w7) \<Longrightarrow> owned ''Observability'' (\<lambda>n. {dashed n ''podmonitor''}) y7"
  and "sec_EscapeHatches (obj_Spec w8) = [] \<Longrightarrow> role_mutate L cod8 w8 x8 = Inr y8 \<Longrightarrow>
       key_of y8 = key_of (target_Role w8) \<Longrightarrow> owned ''Security'' (\<lambda>n. {dashed n ''role''}) y8"
  and "sec_EscapeHatches (obj_Spec w9) = [] \<Longrightarrow> rb_mutate L cod9 w9 x9 = Inr y9 \<Longrightarrow>
       key_of y9 = key_of (target_RB w9) \<Longrightarrow> owned ''Security'' (\<lambda>n. {dashed n ''rb''}) y9"
  subgoal by (auto simp: hpa_mutate_plain hpa_name_def
    split: sum.splits dest: key_of_name
    intro: owned_by_owner [OF assms])
  subgoal by (auto simp: pdb_mutate_plain pdb_name_def
    split: sum.splits dest: key_of_name
    intro: owned_by_owner [OF assms])
  subgoal by (auto simp: pvc_mutate_plain claim_key_def claim_name_def
    split: sum.splits dest: key_of_name
    intro: owned_by_owner [OF assms])
  subgoal by (auto simp: svc_mutate_plain svc_name_def
    split: sum.splits dest: key_of_name
    intro: owned_by_owner [OF assms])
  subgoal by (auto simp: ing_mutate_plain ing_name_def
    split: sum.splits dest: key_of_name
    intro: owned_by_owner [OF assms])
  subgoal by (auto simp: service_monitor_mutate_def target_SM_def
    split: sum.splits dest: key_of_name
    intro: owned_by_owner [OF assms])
  subgoal by (auto simp: pod_monitor_mutate_def target_PM_def
    split: sum.splits dest: key_of_name
    intro: owned_by_owner [OF assms])
  subgoal by (auto simp: role_mutate_plain role_name_def
    split: sum.splits dest: key_of_name
    intro: owned_by_owner [OF assms])
  subgoal by (auto simp: rb_mutate_plain rb_name_def
    split: sum.splits dest: key_of_name
    intro: owned_by_owner [OF assms])
  done

text \<open>A run of a controller leaves the objects it is responsible for owned.\<close>

lemma stores_nf:
  assumes "lib_IsNotFound L = mem_nf"
  shows
    "owner_child_stores computes_api computes_view hpas_api hpas_view (lib_IsNotFound L)"
    and "owner_child_stores computes_api computes_view pdbs_api pdbs_view (lib_IsNotFound L)"
    and "owner_child_stores storages_api storages_view pvcs_api pvcs_view (lib_IsNotFound L)"
    and "owner_child_stores networkings_api networkings_view services_api services_view (lib_IsNotFound L)"
    and "owner_child_stores networkings_api networkings_view ingresses_api ingresses_view (lib_IsNotFound L)"
    and "owner_child_stores observabilities_api observabilities_view servicemonitors_api servicemonitors_view (lib_IsNotFound L)"
    and "owner_child_stores observabilities_api observabilities_view podmonitors_api podmonitors_view (lib_IsNotFound L)"
    and "owner_child_stores securities_api securities_view roles_api roles_view (lib_IsNotFound L)"
    and "owner_child_stores securities_api securities_view rolebindings_api rolebindings_view (lib_IsNotFound L)"
    and "owner_child_stores workloads_api workloads_view computes_api computes_view (lib_IsNotFound L)"
    and "owner_child_stores workloads_api workloads_view storages_api storages_view (lib_IsNotFound L)"
    and "owner_child_stores workloads_api workloads_view networkings_api networkings_view (lib_IsNotFound L)"
    and "owner_child_stores workloads_api workloads_view securities_api securities_view (lib_IsNotFound L)"
  unfolding assms
  by (fact computes_hpas.owner_child_stores_axioms
      computes_pdbs.owner_child_stores_axioms
      storages_pvcs.owner_child_stores_axioms
      networkings_services.owner_child_stores_axioms
      networkings_ingresses.owner_child_stores_axioms
      observabilities_servicemonitors.owner_child_stores_axioms
      observabilities_podmonitors.owner_child_stores_axioms
      securities_roles.owner_child_stores_axioms
      securities_rolebindings.owner_child_stores_axioms
      workloads_computes.owner_child_stores_axioms
      workloads_storages.owner_child_stores_axioms
      workloads_networkings.owner_child_stores_axioms
      workloads_securities.owner_child_stores_axioms)+

lemma handler_owned:
  assumes rt: "runtime_lib L" and nf: "lib_IsNotFound L = mem_nf"
    and hf: "hatch_free c" and lo: "leaves_owned c"
    and run: "run_state (handler L K mem_client ctl req) c = (r, c')"
  shows "leaves_owned c'"
proof -
  note same = kept [OF preservesD [OF handler_isolated run]]
  note h = hf [unfolded hatch_free_def, THEN conjunct2]
  note l = lo [unfolded leaves_owned_def]
  have hpas: "all_stored (hpas_view c') (owned ''Compute'' (\<lambda>n. {dashed n ''hpa''}))"
  proof (cases "ctl = ComputeHPA")
    case True
    with run have "run_state (HPAReconciler_Reconcile L (cod_HPA K) computes_api hpas_api req) c = (r, c')"
      by simp
    then show ?thesis
      by (rule hpa.pure_invariant [OF stores_nf(1) [OF nf] rt])
        (use l h in \<open>blast intro: mutate_owned(1) [OF rt] dest: all_storedD\<close>)+
  next
    case False
    with same l show ?thesis by (simp add: mem_view_def)
  qed
  have pdbs: "all_stored (pdbs_view c') (owned ''Compute'' (\<lambda>n. {dashed n ''pdb''}))"
  proof (cases "ctl = ComputePDB")
    case True
    from run True have run': "run_state
        (PDBReconciler_Reconcile L (cod_PDB K) deployments_api computes_api pdbs_api req) c = (r, c')"
      by simp
    show ?thesis
      by (rule child_controller_run.child_invariant [OF mem_pdb_env.pdb_run [OF rt nf [symmetric]] run'])
        (use l h in \<open>blast intro: mutate_owned(2) [OF rt] dest: all_storedD\<close>)+
  next
    case False
    with same l show ?thesis by (simp add: mem_view_def)
  qed
  have pvcs: "all_stored (pvcs_view c') (owned ''Storage'' (\<lambda>n. range (dashed n)))"
  proof (cases "ctl = StoragePVC")
    case True
    from run True
    have "run_state (PVCReconciler_Reconcile L (cod_PVC K) storages_api pvcs_api req) c = (r, c')"
      by simp
    then show ?thesis
    proof (cases rule: pvc_run_cases)
      case (looped w t)
      note st = stores_nf(3) [OF nf]
      from looped(1) have w: "storages_view c req = Some w" and t: "pvcs_view t = pvcs_view c"
        using mem_storages.get_found owner_child_stores.owner_get_cview [OF st] by blast+
      have "all_stored (storages_view c) (\<lambda>w. ss_EscapeHatches (obj_Spec w) = [])"
        using h by blast
      note own = mutate_owned(3) [OF rt all_storedD [OF this w]]
      have "all_stored (pvcs_view t) (owned ''Storage'' (\<lambda>n. range (dashed n)))" using l t by simp
      with looped(3) show ?thesis by (rule mem_claims.loop_invariant) (rule own)
    qed (use l owner_child_stores.owner_get_cview [OF stores_nf(3) [OF nf]] in \<open>auto\<close>)
  next
    case False
    with same l show ?thesis by (simp add: mem_view_def)
  qed
  have services: "all_stored (services_view c') (owned ''Networking'' (\<lambda>n. UNIV))"
  proof (cases "ctl = NetworkingService")
    case True
    with run have "run_state (ServiceReconciler_Reconcile L (cod_Service K) networkings_api services_api req) c = (r, c')"
      by simp
    then show ?thesis
      by (rule svc.pure_invariant [OF stores_nf(4) [OF nf] rt])
        (use l h in \<open>blast intro: mutate_owned(4) [OF rt] dest: all_storedD\<close>)+
  next
    case False
    with same l show ?thesis by (simp add: mem_view_def)
  qed
  have ingresses: "all_stored (ingresses_view c') (owned ''Networking'' (\<lambda>n. {dashed n ''ingress''}))"
  proof (cases "ctl = NetworkingIngress")
    case True
    with run have "run_state (IngressReconciler_Reconcile L (cod_Ingress K) networkings_api ingresses_api req) c = (r, c')"
      by simp
    then show ?thesis
      by (rule ing.pure_invariant [OF stores_nf(5) [OF nf] rt])
        (use l h in \<open>blast intro: mutate_owned(5) [OF rt] dest: all_storedD\<close>)+
  next
    case False
    with same l show ?thesis by (simp add: mem_view_def)
  qed
  have servicemonitors: "all_stored (servicemonitors_view c') (owned ''Observability'' (\<lambda>n. {dashed n ''servicemonitor''}))"
  proof (cases "ctl = ObservabilityServiceMonitor")
    case True
    with run have "run_state (ServiceMonitorReconciler_Reconcile L observabilities_api servicemonitors_api req) c = (r, c')"
      by simp
    then show ?thesis
      by (rule servicemonitor.pure_invariant [OF stores_nf(6) [OF nf] rt])
        (use l h in \<open>blast intro: mutate_owned(6) [OF rt] dest: all_storedD\<close>)+
  next
    case False
    with same l show ?thesis by (simp add: mem_view_def)
  qed
  have podmonitors: "all_stored (podmonitors_view c') (owned ''Observability'' (\<lambda>n. {dashed n ''podmonitor''}))"
  proof (cases "ctl = ObservabilityPodMonitor")
    case True
    with run have "run_state (PodMonitorReconciler_Reconcile L observabilities_api podmonitors_api req) c = (r, c')"
      by simp
    then show ?thesis
      by (rule podmonitor.pure_invariant [OF stores_nf(7) [OF nf] rt])
        (use l h in \<open>blast intro: mutate_owned(7) [OF rt] dest: all_storedD\<close>)+
  next
    case False
    with same l show ?thesis by (simp add: mem_view_def)
  qed
  have roles: "all_stored (roles_view c') (owned ''Security'' (\<lambda>n. {dashed n ''role''}))"
  proof (cases "ctl = SecurityRole")
    case True
    with run have "run_state (RoleReconciler_Reconcile L (cod_Role K) securities_api roles_api req) c = (r, c')"
      by simp
    then show ?thesis
      by (rule role.pure_invariant [OF stores_nf(8) [OF nf] rt])
        (use l h in \<open>blast intro: mutate_owned(8) [OF rt] dest: all_storedD\<close>)+
  next
    case False
    with same l show ?thesis by (simp add: mem_view_def)
  qed
  have rolebindings: "all_stored (rolebindings_view c') (owned ''Security'' (\<lambda>n. {dashed n ''rb''}))"
  proof (cases "ctl = SecurityRoleBinding")
    case True
    with run have "run_state (RoleBindingReconciler_Reconcile L (cod_RoleBinding K) securities_api rolebindings_api req) c = (r, c')"
      by simp
    then show ?thesis
      by (rule rolebinding.pure_invariant [OF stores_nf(9) [OF nf] rt])
        (use l h in \<open>blast intro: mutate_owned(9) [OF rt] dest: all_storedD\<close>)+
  next
    case False
    with same l show ?thesis by (simp add: mem_view_def)
  qed
  show ?thesis unfolding leaves_owned_def
    by (intro conjI hpas pdbs pvcs services ingresses servicemonitors podmonitors roles rolebindings)
qed

text \<open>The Workload controllers hand on no hatch that a Workload does not have.\<close>

lemma handler_hatch_free:
  assumes rt: "runtime_lib L" and nf: "lib_IsNotFound L = mem_nf" and hf: "hatch_free c"
    and run: "run_state (handler L K mem_client ctl req) c = (r, c')"
  shows "hatch_free c'"
proof -
  note same = kept [OF preservesD [OF handler_isolated run]]
  note h = hf [unfolded hatch_free_def]
  have computes: "all_stored (computes_view c') (\<lambda>y. cs_EscapeHatches (obj_Spec y) = [])"
  proof (cases "ctl = WorkloadCompute")
    case True
    with run have "run_state (WorkloadComputeReconciler_Reconcile L workloads_api computes_api req) c = (r, c')" by simp
    then show ?thesis
      by (rule workload_compute.part_invariant [OF stores_nf(10) [OF nf] rt])
        (use h in \<open>auto simp: all_stored_def hatch_free_workload_def workload_compute_spec_def\<close>)
  next
    case False
    with same h show ?thesis by (simp add: mem_view_def)
  qed
  have storages: "all_stored (storages_view c') (\<lambda>y. ss_EscapeHatches (obj_Spec y) = [])"
  proof (cases "ctl = WorkloadStorage")
    case True
    with run have "run_state (WorkloadStorageReconciler_Reconcile L workloads_api storages_api req) c = (r, c')" by simp
    then show ?thesis
      by (rule workload_storage.part_invariant [OF stores_nf(11) [OF nf] rt])
        (use h in \<open>auto simp: all_stored_def hatch_free_workload_def workload_storage_spec_def\<close>)
  next
    case False
    with same h show ?thesis by (simp add: mem_view_def)
  qed
  have networkings: "all_stored (networkings_view c') (\<lambda>y. ns_EscapeHatches (obj_Spec y) = [])"
  proof (cases "ctl = WorkloadNetworking")
    case True
    with run have "run_state (WorkloadNetworkingReconciler_Reconcile L workloads_api networkings_api req) c = (r, c')" by simp
    then show ?thesis
      by (rule workload_networking.part_invariant [OF stores_nf(12) [OF nf] rt])
        (use h in \<open>auto simp: all_stored_def hatch_free_workload_def workload_networking_spec_def\<close>)
  next
    case False
    with same h show ?thesis by (simp add: mem_view_def)
  qed
  have securities: "all_stored (securities_view c') (\<lambda>y. sec_EscapeHatches (obj_Spec y) = [])"
  proof (cases "ctl = WorkloadSecurity")
    case True
    with run have "run_state (WorkloadSecurityReconciler_Reconcile L workloads_api securities_api req) c = (r, c')" by simp
    then show ?thesis
      by (rule workload_security.part_invariant [OF stores_nf(13) [OF nf] rt])
        (use h in \<open>auto simp: all_stored_def hatch_free_workload_def workload_security_spec_def\<close>)
  next
    case False
    with same h show ?thesis by (simp add: mem_view_def)
  qed
  have "all_stored (workloads_view c') (\<lambda>w. hatch_free_workload (obj_Spec w))"
    using h same(1) by (simp add: mem_view_def)
  then show ?thesis unfolding hatch_free_def
    by (intro conjI computes storages networkings securities)
qed

text \<open>
  C25: Start from a cluster in which every object of the nine kinds the capability controllers
  manage is controlled by a resource of the right kind and named after it, and let users edit
  Workloads, capability resources and Deployments as they like (short of escape hatches), the
  garbage collector remove what it likes, and the sixteen controllers run in any order, for any
  request and with any faults.  Then this holds at every moment: nothing the operator stored
  can be an orphan from birth, and no object of a stranger is adopted without a controller
  reference.
\<close>

theorem leaves_stay_owned:
  assumes "runtime_lib L" and "lib_IsNotFound L = mem_nf"
    and "(cluster_step L K)\<^sup>*\<^sup>* c c'" and "hatch_free c" and "leaves_owned c"
  shows "leaves_owned c' \<and> hatch_free c'"
  using assms(3)
proof (induction rule: rtranclp_induct)
  case base
  from assms(4,5) show ?case by blast
next
  case (step d e)
  from step.hyps(2) show ?case
  proof (cases rule: cluster_step.cases)
    case operator
    then show ?thesis
    proof (cases rule: operator_step.cases)
      case (reconcile ctl req r)
      from step.IH handler_owned [OF assms(1,2) _ _ reconcile] handler_hatch_free [OF assms(1,2) _ reconcile]
      show ?thesis by blast
    next
      case (disturb fs)
      with step.IH show ?thesis by (simp add: leaves_owned_def hatch_free_def mem_view_def)
    qed
  next
    case (edit ws cs ss ns os ses ds)
    with step.IH show ?thesis by (simp add: leaves_owned_def mem_view_def)
  next
    case (collect k1 k2 k3 k4 k5 k6 k7 k8 k9)
    with step.IH show ?thesis
      by (simp add: leaves_owned_def hatch_free_def mem_view_def lookup_remove all_stored_del)
  qed
qed

section \<open>At a concrete cluster\<close>

lemma all_stored_lookup: "list_all P xs \<Longrightarrow> all_stored (lookup xs) P"
  by (auto simp: list_all_iff intro: all_storedI dest: lookup_mem)

definition trivial_codecs :: codecs where
  "trivial_codecs =
     \<lparr>cod_HPA = trivial_codec, cod_PDB = trivial_codec, cod_Deployment = trivial_codec, cod_PVC = trivial_codec,
      cod_Service = trivial_codec, cod_Ingress = trivial_codec, cod_Role = trivial_codec, cod_RoleBinding = trivial_codec\<rparr>"

text \<open>The sample cluster before the first run of any capability controller.\<close>

definition fresh_cluster :: cluster where
  "fresh_cluster = sample_cluster\<lparr>cl_hpas := []\<rparr>"

lemma fresh_cluster_good: "hatch_free fresh_cluster" "leaves_owned fresh_cluster"
  unfolding hatch_free_def leaves_owned_def mem_view_def
  by (intro conjI all_stored_lookup; code_simp)
    (intro conjI all_stored_lookup; simp add: fresh_cluster_def sample_cluster_def empty_cluster_def)

abbreviation "sample_handler ctl req c \<equiv>
  run_state (handler mem_lib trivial_codecs mem_client ctl req) c"

lemma sample_step: "operator_step mem_lib trivial_codecs c (snd (sample_handler ctl req c))"
  by (rule operator_step.reconcile [OF prod.collapse [symmetric]])

theorem operator_never_loses_witness:
  "deployments_view (snd (sample_handler StorageDeployment (''shop'', ''front'') fresh_cluster))
     (''shop'', ''web'') \<noteq> None"
proof -
  have "deployments_view fresh_cluster (''shop'', ''web'') = Some sample_deployment" by code_simp
  with operator_never_loses [OF r_into_rtranclp [of "operator_step mem_lib trivial_codecs", OF
        sample_step [of fresh_cluster StorageDeployment "(''shop'', ''front'')"]]]
  show ?thesis by blast
qed

theorem leaves_stay_owned_witness:
  "\<exists>h. hpas_view (snd (sample_handler ComputeHPA (''shop'', ''front'') fresh_cluster))
       (''shop'', ''front-hpa'') = Some h \<and> owned ''Compute'' (\<lambda>n. {dashed n ''hpa''}) h"
proof -
  have "hpas_view (snd (sample_handler ComputeHPA (''shop'', ''front'') fresh_cluster))
      (''shop'', ''front-hpa'') \<noteq> None"
    by code_simp
  moreover have "leaves_owned (snd (sample_handler ComputeHPA (''shop'', ''front'') fresh_cluster))"
    using leaves_stay_owned [OF mem_lib.runtime_lib_axioms, OF mem_lib_simps(2),
        OF r_into_rtranclp [of "cluster_step mem_lib trivial_codecs", OF cluster_step.operator, OF sample_step],
        OF fresh_cluster_good]
    by blast
  ultimately show ?thesis unfolding leaves_owned_def by (blast dest: all_storedD)
qed

end
