(* ===== verification/Permissions.thy ===== *)
theory Permissions
  imports Cluster_Run
begin

text \<open>
  The operator under the permissions of \<^verbatim>\<open>internal/markers.go\<close>.  A client that refuses the calls
  its role does not allow is put between the controllers and the server; the question is
  whether a controller ever meets a refusal, and which of the granted verbs nobody needs.
\<close>

section \<open>A client with limited permissions\<close>






section \<open>What the controllers need\<close>











section \<open>The markers suffice\<close>


end
