(* ===== verification/Settling.thy ===== *)
theory Settling
  imports Cluster_Run
begin

text \<open>
  What an undisturbed run of each of the sixteen controllers does to a calm cluster, as one
  relation: \<open>own_step\<close> says what becomes of the kind the controller writes.  A controller is
  \<open>settled\<close> for a request when its step leaves that kind as it is.  From the sixteen steps
  follow, for all controllers at once, that a run settles its controller, that a settled
  controller changes nothing, which keys a run may change (\<open>touches\<close>), and what being settled
  depends on; so also when a run of one controller leaves another one settled.
\<close>

section \<open>The abstract step of each controller\<close>

fun own_step :: "lib \<Rightarrow> codecs \<Rightarrow> controller \<Rightarrow> key \<Rightarrow> cluster \<Rightarrow> cluster \<Rightarrow> bool" where
  "own_step L K WorkloadCompute req c d \<longleftrightarrow> computes_view d =
     snd (child_spec workload_unplaced workload_wants_compute target_Compute (workload_compute_mutate L)
       (workloads_view c req) (computes_view c))"
| "own_step L K WorkloadStorage req c d \<longleftrightarrow> storages_view d =
     snd (child_spec workload_unplaced workload_wants_storage target_Storage (workload_storage_mutate L)
       (workloads_view c req) (storages_view c))"
| "own_step L K WorkloadNetworking req c d \<longleftrightarrow> networkings_view d =
     snd (child_spec workload_unplaced workload_wants_networking target_Networking (workload_networking_mutate L)
       (workloads_view c req) (networkings_view c))"
| "own_step L K WorkloadObservability req c d \<longleftrightarrow> observabilities_view d =
     snd (child_spec workload_unplaced workload_wants_observability target_Observability (workload_observability_mutate L)
       (workloads_view c req) (observabilities_view c))"
| "own_step L K WorkloadSecurity req c d \<longleftrightarrow> securities_view d =
     snd (child_spec workload_unplaced workload_wants_security target_Security (workload_security_mutate L)
       (workloads_view c req) (securities_view c))"
| "own_step L K ComputeDeployment req c d \<longleftrightarrow> deployments_view d =
     snd (target_spec compute_unnamed compute_targets_deployment has_scheduling compute_target_key
       (scheduling_transform L (cod_Deployment K))
       (computes_view c req) (deployments_view c))"
| "own_step L K ComputeHPA req c d \<longleftrightarrow> hpas_view d =
     snd (child_spec compute_unnamed hpa_enabled target_HPA (hpa_mutate L (cod_HPA K))
       (computes_view c req) (hpas_view c))"
| "own_step L K ComputePDB req c d \<longleftrightarrow> pdbs_view d =
     snd (child_spec compute_unnamed has_PDB target_PDB
       (\<lambda>w. pdb_mutate L (cod_PDB K) w (deployed (deployments_view c) w))
       (computes_view c req) (pdbs_view c))"
| "own_step L K StoragePVC req c d \<longleftrightarrow> pvcs_view d =
     snd (pvc_spec L (cod_PVC K) (storages_view c req) (pvcs_view c))"
| "own_step L K StorageDeployment req c d \<longleftrightarrow> deployments_view d =
     snd (target_spec storage_unnamed storage_targets_deployment (\<lambda>_. True) storage_target_key
       (volumes_transform L (cod_Deployment K))
       (storages_view c req) (deployments_view c))"
| "own_step L K NetworkingService req c d \<longleftrightarrow> services_view d =
     snd (child_spec networking_unnamed svc_enabled target_Svc (svc_mutate L (cod_Service K))
       (networkings_view c req) (services_view c))"
| "own_step L K NetworkingIngress req c d \<longleftrightarrow> ingresses_view d =
     snd (child_spec networking_unnamed has_ingress target_Ing (ing_mutate L (cod_Ingress K))
       (networkings_view c req) (ingresses_view c))"
| "own_step L K ObservabilityServiceMonitor req c d \<longleftrightarrow> servicemonitors_view d =
     snd (child_spec observability_unnamed sm_wanted target_SM (service_monitor_mutate L)
       (observabilities_view c req) (servicemonitors_view c))"
| "own_step L K ObservabilityPodMonitor req c d \<longleftrightarrow> podmonitors_view d =
     snd (child_spec observability_unnamed pm_wanted target_PM (pod_monitor_mutate L)
       (observabilities_view c req) (podmonitors_view c))"
| "own_step L K SecurityRole req c d \<longleftrightarrow> roles_view d =
     snd (child_spec security_unnamed rbac_wanted target_Role (role_mutate L (cod_Role K))
       (securities_view c req) (roles_view c))"
| "own_step L K SecurityRoleBinding req c d \<longleftrightarrow> rolebindings_view d =
     snd (child_spec security_unnamed rbac_wanted target_RB (rb_mutate L (cod_RoleBinding K))
       (securities_view c req) (rolebindings_view c))"

definition settled :: "lib \<Rightarrow> codecs \<Rightarrow> controller \<Rightarrow> key \<Rightarrow> cluster \<Rightarrow> bool" where
  "settled L K ctl req c \<longleftrightarrow> own_step L K ctl req c c"

text \<open>The same objects in every store, whatever the order of the lists behind them.\<close>

definition same_objects :: "cluster \<Rightarrow> cluster \<Rightarrow> bool" where
  "same_objects c d \<longleftrightarrow>
     workloads_view c = workloads_view d \<and>
     computes_view c = computes_view d \<and>
     storages_view c = storages_view d \<and>
     networkings_view c = networkings_view d \<and>
     observabilities_view c = observabilities_view d \<and>
     securities_view c = securities_view d \<and>
     deployments_view c = deployments_view d \<and>
     hpas_view c = hpas_view d \<and>
     pdbs_view c = pdbs_view d \<and>
     pvcs_view c = pvcs_view d \<and>
     services_view c = services_view d \<and>
     ingresses_view c = ingresses_view d \<and>
     podmonitors_view c = podmonitors_view d \<and>
     servicemonitors_view c = servicemonitors_view d \<and>
     roles_view c = roles_view d \<and>
     rolebindings_view c = rolebindings_view d"

text \<open>No faults, no escape hatches, and no Storage that names a volume twice.\<close>

definition distinct_volumes :: "StorageSpec \<Rightarrow> bool" where
  "distinct_volumes ss \<longleftrightarrow> distinct (map vsp_Name (ss_Volumes ss))"

definition calm :: "cluster \<Rightarrow> bool" where
  "calm c \<longleftrightarrow> mem_healthy c \<and> hatch_free c \<and>
     all_stored (workloads_view c) (\<lambda>w. distinct_volumes (ws_Storage (obj_Spec w))) \<and>
     all_stored (storages_view c) (\<lambda>w. distinct_volumes (obj_Spec w))"

text \<open>Calm but for faults still to come.\<close>

definition sane :: "cluster \<Rightarrow> bool" where
  "sane c \<longleftrightarrow> calm (c\<lparr>cl_faults := []\<rparr>)"

lemma sane_iff:
  "sane c \<longleftrightarrow> hatch_free c \<and>
     all_stored (workloads_view c) (\<lambda>w. distinct_volumes (ws_Storage (obj_Spec w))) \<and>
     all_stored (storages_view c) (\<lambda>w. distinct_volumes (obj_Spec w))"
  by (simp add: sane_def calm_def mem_healthy_def hatch_free_def mem_view_def)

lemma calm_sane: "calm c \<longleftrightarrow> sane c \<and> cl_faults c = []"
  by (auto simp: sane_iff calm_def mem_healthy_def)

lemma healthy_nf:
  assumes "lib_IsNotFound L = mem_nf"
  shows
    "healthy_stores workloads_api workloads_view computes_api computes_view (lib_IsNotFound L) mem_healthy"
    and "healthy_stores workloads_api workloads_view storages_api storages_view (lib_IsNotFound L) mem_healthy"
    and "healthy_stores workloads_api workloads_view networkings_api networkings_view (lib_IsNotFound L) mem_healthy"
    and "healthy_stores workloads_api workloads_view observabilities_api observabilities_view (lib_IsNotFound L) mem_healthy"
    and "healthy_stores workloads_api workloads_view securities_api securities_view (lib_IsNotFound L) mem_healthy"
    and "healthy_stores computes_api computes_view deployments_api deployments_view (lib_IsNotFound L) mem_healthy"
    and "healthy_stores computes_api computes_view hpas_api hpas_view (lib_IsNotFound L) mem_healthy"
    and "healthy_stores computes_api computes_view pdbs_api pdbs_view (lib_IsNotFound L) mem_healthy"
    and "healthy_stores storages_api storages_view pvcs_api pvcs_view (lib_IsNotFound L) mem_healthy"
    and "healthy_stores storages_api storages_view deployments_api deployments_view (lib_IsNotFound L) mem_healthy"
    and "healthy_stores networkings_api networkings_view services_api services_view (lib_IsNotFound L) mem_healthy"
    and "healthy_stores networkings_api networkings_view ingresses_api ingresses_view (lib_IsNotFound L) mem_healthy"
    and "healthy_stores observabilities_api observabilities_view servicemonitors_api servicemonitors_view (lib_IsNotFound L) mem_healthy"
    and "healthy_stores observabilities_api observabilities_view podmonitors_api podmonitors_view (lib_IsNotFound L) mem_healthy"
    and "healthy_stores securities_api securities_view roles_api roles_view (lib_IsNotFound L) mem_healthy"
    and "healthy_stores securities_api securities_view rolebindings_api rolebindings_view (lib_IsNotFound L) mem_healthy"
  unfolding assms
  by (fact workloads_computes.healthy_stores_axioms
      workloads_storages.healthy_stores_axioms
      workloads_networkings.healthy_stores_axioms
      workloads_observabilities.healthy_stores_axioms
      workloads_securities.healthy_stores_axioms
      computes_deployments.healthy_stores_axioms
      computes_hpas.healthy_stores_axioms
      computes_pdbs.healthy_stores_axioms
      storages_pvcs.healthy_stores_axioms
      storages_deployments.healthy_stores_axioms
      networkings_services.healthy_stores_axioms
      networkings_ingresses.healthy_stores_axioms
      observabilities_servicemonitors.healthy_stores_axioms
      observabilities_podmonitors.healthy_stores_axioms
      securities_roles.healthy_stores_axioms
      securities_rolebindings.healthy_stores_axioms)+

section \<open>Every run is a step\<close>

text \<open>The callbacks and transforms are idempotent for owners without escape hatches.\<close>

lemma mutate_settles:
  assumes "runtime_lib L"
  shows
    "cs_EscapeHatches (obj_Spec w1) = [] \<Longrightarrow> hpa_mutate L cod1 w1 x1 = Inr y1 \<Longrightarrow>
       hpa_mutate L cod1 w1 y1 = Inr y1"
    and "cs_EscapeHatches (obj_Spec w2) = [] \<Longrightarrow> pdb_mutate L cod2 w2 d x2 = Inr y2 \<Longrightarrow>
       pdb_mutate L cod2 w2 d y2 = Inr y2"
    and "ns_EscapeHatches (obj_Spec w3) = [] \<Longrightarrow> svc_mutate L cod3 w3 x3 = Inr y3 \<Longrightarrow>
       svc_mutate L cod3 w3 y3 = Inr y3"
    and "ns_EscapeHatches (obj_Spec w4) = [] \<Longrightarrow> ing_mutate L cod4 w4 x4 = Inr y4 \<Longrightarrow>
       ing_mutate L cod4 w4 y4 = Inr y4"
    and "service_monitor_mutate L w5 x5 = Inr y5 \<Longrightarrow>
       service_monitor_mutate L w5 y5 = Inr y5"
    and "pod_monitor_mutate L w6 x6 = Inr y6 \<Longrightarrow>
       pod_monitor_mutate L w6 y6 = Inr y6"
    and "sec_EscapeHatches (obj_Spec w7) = [] \<Longrightarrow> role_mutate L cod7 w7 x7 = Inr y7 \<Longrightarrow>
       role_mutate L cod7 w7 y7 = Inr y7"
    and "sec_EscapeHatches (obj_Spec w8) = [] \<Longrightarrow> rb_mutate L cod8 w8 x8 = Inr y8 \<Longrightarrow>
       rb_mutate L cod8 w8 y8 = Inr y8"
  subgoal by (auto simp: hpa_mutate_plain hpa_fill_idem
    split: sum.splits elim!: runtime_lib.set_owner_fill_idem [OF assms])
  subgoal by (auto simp: pdb_mutate_plain pdb_fill_idem
    split: sum.splits elim!: runtime_lib.set_owner_fill_idem [OF assms])
  subgoal by (auto simp: svc_mutate_plain svc_fill_idem
    split: sum.splits elim!: runtime_lib.set_owner_fill_idem [OF assms])
  subgoal by (auto simp: ing_mutate_plain ing_fill_idem
    split: sum.splits elim!: runtime_lib.set_owner_fill_idem [OF assms])
  subgoal using runtime_lib.set_owner_fill_idem [OF assms,
      where f = "\<lambda>_. Some (service_monitor_spec (obj_Spec w5))" and x = x5 and y = y5
      and kind = "''Observability''" and owner = w5] by (auto simp: service_monitor_mutate_def split: sum.splits)
  subgoal using runtime_lib.set_owner_fill_idem [OF assms,
      where f = "\<lambda>_. Some (pod_monitor_spec (obj_Spec w6))" and x = x6 and y = y6
      and kind = "''Observability''" and owner = w6] by (auto simp: pod_monitor_mutate_def split: sum.splits)
  subgoal by (auto simp: role_mutate_plain role_fill_def
    split: sum.splits elim!: runtime_lib.set_owner_fill_idem [OF assms])
  subgoal by (auto simp: rb_mutate_plain rb_fill_def
    split: sum.splits elim!: runtime_lib.set_owner_fill_idem [OF assms])
  done

lemma handler_sane:
  assumes rt: "runtime_lib L" and nf: "lib_IsNotFound L = mem_nf" and "sane c"
    and run: "run_state (handler L K mem_client ctl req) c = (r, c')"
  shows "sane c'"
proof -
  note same = kept [OF preservesD [OF handler_isolated run]]
  note h = assms(3) [unfolded sane_iff]
  have "all_stored (storages_view c') (\<lambda>y. distinct_volumes (obj_Spec y))"
  proof (cases "ctl = WorkloadStorage")
    case True
    with run have "run_state (WorkloadStorageReconciler_Reconcile L workloads_api storages_api req) c = (r, c')"
      by simp
    then show ?thesis
      by (rule workload_storage.part_invariant [OF stores_nf(11) [OF nf] rt])
        (use h in \<open>auto simp: all_stored_def distinct_volumes_def workload_storage_spec_def\<close>)
  next
    case False
    with same h show ?thesis by (simp add: mem_view_def)
  qed
  with h same(1) handler_hatch_free [OF rt nf _ run] show ?thesis by (simp add: sane_iff mem_view_def)
qed

lemma handler_calm:
  assumes "runtime_lib L" and "lib_IsNotFound L = mem_nf" and "calm c"
    and "run_state (handler L K mem_client ctl req) c = (r, c')" and "mem_healthy c'"
  shows "calm c'"
  using handler_sane [OF assms(1,2) _ assms(4)] assms(3,5) by (simp add: calm_sane mem_healthy_def)

text \<open>What the owners of a calm cluster look like.\<close>

lemma calm_owner:
  assumes "calm c"
  shows "computes_view c req = Some cw \<Longrightarrow> cs_EscapeHatches (obj_Spec cw) = []"
    and "storages_view c req = Some sw \<Longrightarrow> ss_EscapeHatches (obj_Spec sw) = []"
    and "storages_view c req = Some sw \<Longrightarrow> distinct (map vsp_Name (ss_Volumes (obj_Spec sw)))"
    and "networkings_view c req = Some nw \<Longrightarrow> ns_EscapeHatches (obj_Spec nw) = []"
    and "securities_view c req = Some ew \<Longrightarrow> sec_EscapeHatches (obj_Spec ew) = []"
  using assms unfolding calm_def hatch_free_def all_stored_def distinct_volumes_def by blast+

text \<open>The undisturbed steps of the two patchers.\<close>

lemma scheduling_step:
  assumes "runtime_lib L" and "lib_IsNotFound L = mem_nf" and "calm c"
    and "run_state (ComputeDeploymentReconciler_Reconcile L cod computes_api deployments_api req) c = (r, c')"
  shows "mem_healthy c' \<and> computes_view c' = computes_view c \<and>
    (r = None, deployments_view c') = target_spec compute_unnamed compute_targets_deployment
      has_scheduling compute_target_key (scheduling_transform L cod) (computes_view c req) (deployments_view c)"
  using scheduling_healthy [OF healthy_nf(6) [OF assms(2)] assms(1)] _ assms(4)
  by (rule target_patcher_healthy.patcher_refines)
    (use assms(3) calm_owner(1) [OF assms(3)] in \<open>auto simp: calm_def scheduling_transform_plain\<close>)

lemma volumes_step:
  assumes "runtime_lib L" and "lib_IsNotFound L = mem_nf" and "calm c"
    and "run_state (StorageDeploymentReconciler_Reconcile L cod storages_api deployments_api req) c = (r, c')"
  shows "mem_healthy c' \<and> storages_view c' = storages_view c \<and>
    (r = None, deployments_view c') = target_spec storage_unnamed storage_targets_deployment
      (\<lambda>_. True) storage_target_key (volumes_transform L cod) (storages_view c req) (deployments_view c)"
  using volumes_healthy [OF healthy_nf(10) [OF assms(2)] assms(1)] _ assms(4)
  by (rule target_patcher_healthy.patcher_refines)
    (use assms(3) calm_owner(2) [OF assms(3)] in \<open>auto simp: calm_def volumes_transform_plain\<close>)

lemma snd_of: "(a, b) = p \<Longrightarrow> b = snd p"
  by (metis snd_conv)

lemma handler_step:
  assumes rt: "runtime_lib L" and nf: "lib_IsNotFound L = mem_nf" and calm: "calm c"
    and run: "run_state (handler L K mem_client ctl req) c = (r, c')"
  shows "mem_healthy c' \<and> own_step L K ctl req c c'"
proof -
  from calm have h: "mem_healthy c" by (simp add: calm_def)
  show ?thesis
  proof (cases ctl)
    case WorkloadCompute
    from workload_compute.pure_refines [OF healthy_nf(1) [OF nf] rt h] run show ?thesis
      unfolding WorkloadCompute handler.simps mem_client_simps own_step.simps by (blast intro: snd_of)
  next
    case WorkloadStorage
    from workload_storage.pure_refines [OF healthy_nf(2) [OF nf] rt h] run show ?thesis
      unfolding WorkloadStorage handler.simps mem_client_simps own_step.simps by (blast intro: snd_of)
  next
    case WorkloadNetworking
    from workload_networking.pure_refines [OF healthy_nf(3) [OF nf] rt h] run show ?thesis
      unfolding WorkloadNetworking handler.simps mem_client_simps own_step.simps by (blast intro: snd_of)
  next
    case WorkloadObservability
    from workload_observability.pure_refines [OF healthy_nf(4) [OF nf] rt h] run show ?thesis
      unfolding WorkloadObservability handler.simps mem_client_simps own_step.simps by (blast intro: snd_of)
  next
    case WorkloadSecurity
    from workload_security.pure_refines [OF healthy_nf(5) [OF nf] rt h] run show ?thesis
      unfolding WorkloadSecurity handler.simps mem_client_simps own_step.simps by (blast intro: snd_of)
  next
    case ComputeDeployment
    from scheduling_step [OF rt nf calm] run show ?thesis
      unfolding ComputeDeployment handler.simps mem_client_simps own_step.simps by (blast intro: snd_of)
  next
    case ComputeHPA
    from hpa.pure_refines [OF healthy_nf(7) [OF nf] rt h] run show ?thesis
      unfolding ComputeHPA handler.simps mem_client_simps own_step.simps by (blast intro: snd_of)
  next
    case ComputePDB
    from mem_pdb_env.pdb_refines_spec [OF rt nf [symmetric] h] run show ?thesis
      unfolding ComputePDB handler.simps mem_client_simps own_step.simps by (blast intro: snd_of)
  next
    case StoragePVC
    from pvc_refines_spec [OF healthy_nf(9) [OF nf] rt h] run show ?thesis
      unfolding StoragePVC handler.simps mem_client_simps own_step.simps by (blast intro: snd_of)
  next
    case StorageDeployment
    from volumes_step [OF rt nf calm] run show ?thesis
      unfolding StorageDeployment handler.simps mem_client_simps own_step.simps by (blast intro: snd_of)
  next
    case NetworkingService
    from svc.pure_refines [OF healthy_nf(11) [OF nf] rt h] run show ?thesis
      unfolding NetworkingService handler.simps mem_client_simps own_step.simps by (blast intro: snd_of)
  next
    case NetworkingIngress
    from ing.pure_refines [OF healthy_nf(12) [OF nf] rt h] run show ?thesis
      unfolding NetworkingIngress handler.simps mem_client_simps own_step.simps by (blast intro: snd_of)
  next
    case ObservabilityServiceMonitor
    from servicemonitor.pure_refines [OF healthy_nf(13) [OF nf] rt h] run show ?thesis
      unfolding ObservabilityServiceMonitor handler.simps mem_client_simps own_step.simps by (blast intro: snd_of)
  next
    case ObservabilityPodMonitor
    from podmonitor.pure_refines [OF healthy_nf(14) [OF nf] rt h] run show ?thesis
      unfolding ObservabilityPodMonitor handler.simps mem_client_simps own_step.simps by (blast intro: snd_of)
  next
    case SecurityRole
    from role.pure_refines [OF healthy_nf(15) [OF nf] rt h] run show ?thesis
      unfolding SecurityRole handler.simps mem_client_simps own_step.simps by (blast intro: snd_of)
  next
    case SecurityRoleBinding
    from rolebinding.pure_refines [OF healthy_nf(16) [OF nf] rt h] run show ?thesis
      unfolding SecurityRoleBinding handler.simps mem_client_simps own_step.simps by (blast intro: snd_of)
  qed
qed

text \<open>The steps are idempotent, so a run settles its controller.\<close>

lemma child_spec_again:
  assumes "v' = snd (child_spec skip enabled fresh mutate owner v)"
    and "\<And>w x y. owner = Some w \<Longrightarrow> mutate w x = Inr y \<Longrightarrow> mutate w y = Inr y"
  shows "v' = snd (child_spec skip enabled fresh mutate owner v')"
  unfolding assms(1) by (subst child_spec_idem; use assms(2) in blast)

lemma target_spec_again:
  assumes "v' = snd (target_spec unnamed applies wanted target transform owner v)"
    and "\<And>w d d'. owner = Some w \<Longrightarrow> transform w d = Inr d' \<Longrightarrow> transform w d' = Inr d'"
  shows "v' = snd (target_spec unnamed applies wanted target transform owner v')"
  unfolding assms(1) by (subst target_spec_idem; use assms(2) in blast)

lemma handler_settles:
  assumes rt: "runtime_lib L" and nf: "lib_IsNotFound L = mem_nf" and calm: "calm c"
    and run: "run_state (handler L K mem_client ctl req) c = (r, c')"
  shows "mem_healthy c' \<and> settled L K ctl req c'"
proof -
  note step = handler_step [OF assms]
  note same = kept [OF preservesD [OF handler_isolated run]]
  have "own_step L K ctl req c' c'"
  proof (cases ctl)
    case WorkloadCompute
    have o: "workloads_view c' = workloads_view c" using same unfolding WorkloadCompute by (simp add: mem_view_def)
    from step show ?thesis unfolding WorkloadCompute own_step.simps o
      by (rule child_spec_again [OF conjunct2]) (blast intro: workload_compute.mutate_idem [OF rt])
  next
    case WorkloadStorage
    have o: "workloads_view c' = workloads_view c" using same unfolding WorkloadStorage by (simp add: mem_view_def)
    from step show ?thesis unfolding WorkloadStorage own_step.simps o
      by (rule child_spec_again [OF conjunct2]) (blast intro: workload_storage.mutate_idem [OF rt])
  next
    case WorkloadNetworking
    have o: "workloads_view c' = workloads_view c" using same unfolding WorkloadNetworking by (simp add: mem_view_def)
    from step show ?thesis unfolding WorkloadNetworking own_step.simps o
      by (rule child_spec_again [OF conjunct2]) (blast intro: workload_networking.mutate_idem [OF rt])
  next
    case WorkloadObservability
    have o: "workloads_view c' = workloads_view c" using same unfolding WorkloadObservability by (simp add: mem_view_def)
    from step show ?thesis unfolding WorkloadObservability own_step.simps o
      by (rule child_spec_again [OF conjunct2]) (blast intro: workload_observability.mutate_idem [OF rt])
  next
    case WorkloadSecurity
    have o: "workloads_view c' = workloads_view c" using same unfolding WorkloadSecurity by (simp add: mem_view_def)
    from step show ?thesis unfolding WorkloadSecurity own_step.simps o
      by (rule child_spec_again [OF conjunct2]) (blast intro: workload_security.mutate_idem [OF rt])
  next
    case ComputeDeployment
    have o: "computes_view c' = computes_view c" using same unfolding ComputeDeployment by (simp add: mem_view_def)
    from step show ?thesis unfolding ComputeDeployment own_step.simps o
      by (rule target_spec_again [OF conjunct2])
        (auto simp: calm_owner(1) [OF calm] scheduling_transform_plain apply_scheduling_def)
  next
    case ComputeHPA
    have o: "computes_view c' = computes_view c" using same unfolding ComputeHPA by (simp add: mem_view_def)
    from step show ?thesis unfolding ComputeHPA own_step.simps o
      by (rule child_spec_again [OF conjunct2]) (blast intro: mutate_settles(1) [OF rt, OF calm_owner(1) [OF calm]])
  next
    case ComputePDB
    have o: "computes_view c' = computes_view c" using same unfolding ComputePDB by (simp add: mem_view_def)
    have d: "deployments_view c' = deployments_view c" using same unfolding ComputePDB by (simp add: mem_view_def)
    from step show ?thesis unfolding ComputePDB own_step.simps o d
      by (rule child_spec_again [OF conjunct2]) (blast intro: mutate_settles(2) [OF rt, OF calm_owner(1) [OF calm]])
  next
    case StoragePVC
    have o: "storages_view c' = storages_view c" using same unfolding StoragePVC by (simp add: mem_view_def)
    from step show ?thesis unfolding StoragePVC own_step.simps o
      using claims_spec_idem [OF rt] calm_owner(2,3) [OF calm] by (simp add: pvc_spec_def split: option.splits)
  next
    case StorageDeployment
    have o: "storages_view c' = storages_view c" using same unfolding StorageDeployment by (simp add: mem_view_def)
    from step show ?thesis unfolding StorageDeployment own_step.simps o
      by (rule target_spec_again [OF conjunct2])
        (auto simp: calm_owner(2,3) [OF calm] volumes_transform_plain mount_volumes_idem)
  next
    case NetworkingService
    have o: "networkings_view c' = networkings_view c" using same unfolding NetworkingService by (simp add: mem_view_def)
    from step show ?thesis unfolding NetworkingService own_step.simps o
      by (rule child_spec_again [OF conjunct2]) (blast intro: mutate_settles(3) [OF rt, OF calm_owner(4) [OF calm]])
  next
    case NetworkingIngress
    have o: "networkings_view c' = networkings_view c" using same unfolding NetworkingIngress by (simp add: mem_view_def)
    from step show ?thesis unfolding NetworkingIngress own_step.simps o
      by (rule child_spec_again [OF conjunct2]) (blast intro: mutate_settles(4) [OF rt, OF calm_owner(4) [OF calm]])
  next
    case ObservabilityServiceMonitor
    have o: "observabilities_view c' = observabilities_view c" using same unfolding ObservabilityServiceMonitor by (simp add: mem_view_def)
    from step show ?thesis unfolding ObservabilityServiceMonitor own_step.simps o
      by (rule child_spec_again [OF conjunct2]) (blast intro: mutate_settles(5) [OF rt])
  next
    case ObservabilityPodMonitor
    have o: "observabilities_view c' = observabilities_view c" using same unfolding ObservabilityPodMonitor by (simp add: mem_view_def)
    from step show ?thesis unfolding ObservabilityPodMonitor own_step.simps o
      by (rule child_spec_again [OF conjunct2]) (blast intro: mutate_settles(6) [OF rt])
  next
    case SecurityRole
    have o: "securities_view c' = securities_view c" using same unfolding SecurityRole by (simp add: mem_view_def)
    from step show ?thesis unfolding SecurityRole own_step.simps o
      by (rule child_spec_again [OF conjunct2]) (blast intro: mutate_settles(7) [OF rt, OF calm_owner(5) [OF calm]])
  next
    case SecurityRoleBinding
    have o: "securities_view c' = securities_view c" using same unfolding SecurityRoleBinding by (simp add: mem_view_def)
    from step show ?thesis unfolding SecurityRoleBinding own_step.simps o
      by (rule child_spec_again [OF conjunct2]) (blast intro: mutate_settles(8) [OF rt, OF calm_owner(5) [OF calm]])
  qed
  with step show ?thesis by (simp add: settled_def)
qed

section \<open>A settled controller is left alone\<close>

text \<open>The objects of the kind a controller writes are those of the given cluster.\<close>

fun own_kind_same :: "controller \<Rightarrow> cluster \<Rightarrow> cluster \<Rightarrow> bool" where
  "own_kind_same WorkloadCompute c d \<longleftrightarrow> computes_view c = computes_view d"
| "own_kind_same WorkloadStorage c d \<longleftrightarrow> storages_view c = storages_view d"
| "own_kind_same WorkloadNetworking c d \<longleftrightarrow> networkings_view c = networkings_view d"
| "own_kind_same WorkloadObservability c d \<longleftrightarrow> observabilities_view c = observabilities_view d"
| "own_kind_same WorkloadSecurity c d \<longleftrightarrow> securities_view c = securities_view d"
| "own_kind_same ComputeDeployment c d \<longleftrightarrow> deployments_view c = deployments_view d"
| "own_kind_same ComputeHPA c d \<longleftrightarrow> hpas_view c = hpas_view d"
| "own_kind_same ComputePDB c d \<longleftrightarrow> pdbs_view c = pdbs_view d"
| "own_kind_same StoragePVC c d \<longleftrightarrow> pvcs_view c = pvcs_view d"
| "own_kind_same StorageDeployment c d \<longleftrightarrow> deployments_view c = deployments_view d"
| "own_kind_same NetworkingService c d \<longleftrightarrow> services_view c = services_view d"
| "own_kind_same NetworkingIngress c d \<longleftrightarrow> ingresses_view c = ingresses_view d"
| "own_kind_same ObservabilityServiceMonitor c d \<longleftrightarrow> servicemonitors_view c = servicemonitors_view d"
| "own_kind_same ObservabilityPodMonitor c d \<longleftrightarrow> podmonitors_view c = podmonitors_view d"
| "own_kind_same SecurityRole c d \<longleftrightarrow> roles_view c = roles_view d"
| "own_kind_same SecurityRoleBinding c d \<longleftrightarrow> rolebindings_view c = rolebindings_view d"

lemma same_objectsI:
  assumes "apart_from ctl c' = apart_from ctl c" and "own_kind_same ctl c' c"
  shows "same_objects c' c"
  using assms(2) kept [OF assms(1)] unfolding same_objects_def
  by (cases ctl) (simp_all add: mem_view_def)

lemma own_step_settled:
  assumes "own_step L K ctl req c d" and "settled L K ctl req c"
  shows "own_kind_same ctl d c"
  using assms unfolding settled_def by (cases ctl) simp_all

lemma settled_stable:
  assumes "runtime_lib L" and "lib_IsNotFound L = mem_nf" and "calm c"
    and run: "run_state (handler L K mem_client ctl req) c = (r, c')" and "settled L K ctl req c"
  shows "same_objects c' c"
  using same_objectsI [OF preservesD [OF handler_isolated run]]
    own_step_settled [OF _ assms(5)] handler_step [OF assms(1-4)] by blast

section \<open>What a run touches and what a settled controller depends on\<close>

text \<open>
  The keys of the objects that a run may write, and the two parts of the cluster that decide
  whether a controller is settled: its owner and the objects at those keys (for a disruption
  budget also the selector of the Deployment).
\<close>

definition keys_of :: "('o \<Rightarrow> key set) \<Rightarrow> 'o option \<Rightarrow> key set" where
  "keys_of f owner = (case owner of None \<Rightarrow> {} | Some w \<Rightarrow> f w)"

lemma keys_of_simps [simp]: "keys_of f None = {}" "keys_of f (Some w) = f w"
  by (simp_all add: keys_of_def)

fun touches :: "controller \<Rightarrow> key \<Rightarrow> cluster \<Rightarrow> key set" where
  "touches WorkloadCompute req c = keys_of (\<lambda>w. {key_of (target_Compute w)}) (workloads_view c req)"
| "touches WorkloadStorage req c = keys_of (\<lambda>w. {key_of (target_Storage w)}) (workloads_view c req)"
| "touches WorkloadNetworking req c = keys_of (\<lambda>w. {key_of (target_Networking w)}) (workloads_view c req)"
| "touches WorkloadObservability req c = keys_of (\<lambda>w. {key_of (target_Observability w)}) (workloads_view c req)"
| "touches WorkloadSecurity req c = keys_of (\<lambda>w. {key_of (target_Security w)}) (workloads_view c req)"
| "touches ComputeDeployment req c = keys_of (\<lambda>w. {compute_target_key w}) (computes_view c req)"
| "touches ComputeHPA req c = keys_of (\<lambda>w. {key_of (target_HPA w)}) (computes_view c req)"
| "touches ComputePDB req c = keys_of (\<lambda>w. {key_of (target_PDB w)}) (computes_view c req)"
| "touches StoragePVC req c = keys_of (\<lambda>w. claim_key w ` set (ss_Volumes (obj_Spec w))) (storages_view c req)"
| "touches StorageDeployment req c = keys_of (\<lambda>w. {storage_target_key w}) (storages_view c req)"
| "touches NetworkingService req c = keys_of (\<lambda>w. {key_of (target_Svc w)}) (networkings_view c req)"
| "touches NetworkingIngress req c = keys_of (\<lambda>w. {key_of (target_Ing w)}) (networkings_view c req)"
| "touches ObservabilityServiceMonitor req c = keys_of (\<lambda>w. {key_of (target_SM w)}) (observabilities_view c req)"
| "touches ObservabilityPodMonitor req c = keys_of (\<lambda>w. {key_of (target_PM w)}) (observabilities_view c req)"
| "touches SecurityRole req c = keys_of (\<lambda>w. {key_of (target_Role w)}) (securities_view c req)"
| "touches SecurityRoleBinding req c = keys_of (\<lambda>w. {key_of (target_RB w)}) (securities_view c req)"

fun owner_same :: "controller \<Rightarrow> key \<Rightarrow> cluster \<Rightarrow> cluster \<Rightarrow> bool" where
  "owner_same WorkloadCompute k c d \<longleftrightarrow> workloads_view c k = workloads_view d k"
| "owner_same WorkloadStorage k c d \<longleftrightarrow> workloads_view c k = workloads_view d k"
| "owner_same WorkloadNetworking k c d \<longleftrightarrow> workloads_view c k = workloads_view d k"
| "owner_same WorkloadObservability k c d \<longleftrightarrow> workloads_view c k = workloads_view d k"
| "owner_same WorkloadSecurity k c d \<longleftrightarrow> workloads_view c k = workloads_view d k"
| "owner_same ComputeDeployment k c d \<longleftrightarrow> computes_view c k = computes_view d k"
| "owner_same ComputeHPA k c d \<longleftrightarrow> computes_view c k = computes_view d k"
| "owner_same ComputePDB k c d \<longleftrightarrow> computes_view c k = computes_view d k"
| "owner_same StoragePVC k c d \<longleftrightarrow> storages_view c k = storages_view d k"
| "owner_same StorageDeployment k c d \<longleftrightarrow> storages_view c k = storages_view d k"
| "owner_same NetworkingService k c d \<longleftrightarrow> networkings_view c k = networkings_view d k"
| "owner_same NetworkingIngress k c d \<longleftrightarrow> networkings_view c k = networkings_view d k"
| "owner_same ObservabilityServiceMonitor k c d \<longleftrightarrow> observabilities_view c k = observabilities_view d k"
| "owner_same ObservabilityPodMonitor k c d \<longleftrightarrow> observabilities_view c k = observabilities_view d k"
| "owner_same SecurityRole k c d \<longleftrightarrow> securities_view c k = securities_view d k"
| "owner_same SecurityRoleBinding k c d \<longleftrightarrow> securities_view c k = securities_view d k"

fun child_same :: "controller \<Rightarrow> key \<Rightarrow> cluster \<Rightarrow> cluster \<Rightarrow> bool" where
  "child_same WorkloadCompute k c d \<longleftrightarrow> computes_view c k = computes_view d k"
| "child_same WorkloadStorage k c d \<longleftrightarrow> storages_view c k = storages_view d k"
| "child_same WorkloadNetworking k c d \<longleftrightarrow> networkings_view c k = networkings_view d k"
| "child_same WorkloadObservability k c d \<longleftrightarrow> observabilities_view c k = observabilities_view d k"
| "child_same WorkloadSecurity k c d \<longleftrightarrow> securities_view c k = securities_view d k"
| "child_same ComputeDeployment k c d \<longleftrightarrow> deployments_view c k = deployments_view d k"
| "child_same ComputeHPA k c d \<longleftrightarrow> hpas_view c k = hpas_view d k"
| "child_same ComputePDB k c d \<longleftrightarrow> pdbs_view c k = pdbs_view d k"
| "child_same StoragePVC k c d \<longleftrightarrow> pvcs_view c k = pvcs_view d k"
| "child_same StorageDeployment k c d \<longleftrightarrow> deployments_view c k = deployments_view d k"
| "child_same NetworkingService k c d \<longleftrightarrow> services_view c k = services_view d k"
| "child_same NetworkingIngress k c d \<longleftrightarrow> ingresses_view c k = ingresses_view d k"
| "child_same ObservabilityServiceMonitor k c d \<longleftrightarrow> servicemonitors_view c k = servicemonitors_view d k"
| "child_same ObservabilityPodMonitor k c d \<longleftrightarrow> podmonitors_view c k = podmonitors_view d k"
| "child_same SecurityRole k c d \<longleftrightarrow> roles_view c k = roles_view d k"
| "child_same SecurityRoleBinding k c d \<longleftrightarrow> rolebindings_view c k = rolebindings_view d k"

abbreviation selector_at :: "cluster \<Rightarrow> key \<Rightarrow> LabelSelector option option" where
  "selector_at c k \<equiv> map_option (\<lambda>x. dep_Selector (obj_Spec x)) (deployments_view c k)"

abbreviation selector_read :: "cluster \<Rightarrow> Compute \<Rightarrow> LabelSelector option option" where
  "selector_read c w \<equiv> map_option (\<lambda>x. dep_Selector (obj_Spec x)) (deployed (deployments_view c) w)"

lemma child_spec_frame:
  assumes "k \<notin> keys_of (\<lambda>w. {key_of (fresh w)}) owner"
  shows "snd (child_spec skip enabled fresh mutate owner v) k = v k"
  using assms by (auto simp: child_spec_def split: option.splits sum.splits)

lemma child_spec_local:
  assumes "snd (child_spec skip enabled fresh mutate owner v) = v"
    and "\<forall>k \<in> keys_of (\<lambda>w. {key_of (fresh w)}) owner. v' k = v k"
    and "\<And>w. owner = Some w \<Longrightarrow> mutate' w = mutate w"
  shows "snd (child_spec skip enabled fresh mutate' owner v') = v'"
proof (cases owner)
  case (Some w)
  with assms(2,3) have "v' (key_of (fresh w)) = v (key_of (fresh w))" "mutate' w = mutate w" by simp_all
  with assms(1) Some show ?thesis
    by (auto simp: child_spec_def current_def fun_upd_idem_iff split: sum.splits if_splits)
qed (simp add: child_spec_def)

lemma target_spec_frame:
  assumes "k \<notin> keys_of (\<lambda>w. {target w}) owner"
  shows "snd (target_spec unnamed applies wanted target transform owner v) k = v k"
  using assms by (auto simp: target_spec_def split: option.splits sum.splits)

lemma target_spec_local:
  assumes "snd (target_spec unnamed applies wanted target transform owner v) = v"
    and "\<forall>k \<in> keys_of (\<lambda>w. {target w}) owner. v' k = v k"
  shows "snd (target_spec unnamed applies wanted target transform owner v') = v'"
proof (cases owner)
  case (Some w)
  with assms(2) have "v' (target w) = v (target w)" by simp
  with assms(1) Some show ?thesis
    by (auto simp: target_spec_def fun_upd_idem_iff split: option.splits sum.splits)
qed (simp add: target_spec_def)

lemma claims_spec_agree:
  "\<forall>x \<in> S. v' x = v x \<Longrightarrow> claim_key w ` set vs \<subseteq> S \<Longrightarrow> x \<in> S \<Longrightarrow>
     snd (claims_spec L cod w vs v') x = snd (claims_spec L cod w vs v) x"
proof (induction vs arbitrary: v v')
  case (Cons vol vs)
  from Cons.prems(1,2) have k: "v' (claim_key w vol) = v (claim_key w vol)" by simp
  have "\<forall>x \<in> S. (v'(claim_key w vol \<mapsto> y)) x = (v(claim_key w vol \<mapsto> y)) x" for y
    using Cons.prems(1) by simp
  from Cons.IH [OF this] Cons.prems(2,3)
  have "snd (claims_spec L cod w vs (v'(claim_key w vol \<mapsto> y))) x =
      snd (claims_spec L cod w vs (v(claim_key w vol \<mapsto> y))) x" for y
    by (simp del: fun_upd_apply)
  with Cons.prems(1,3) k show ?case
    by (simp add: current_def del: fun_upd_apply split: sum.splits)
qed simp

lemma pvc_spec_frame:
  assumes "k \<notin> keys_of (\<lambda>w. claim_key w ` set (ss_Volumes (obj_Spec w))) owner"
  shows "snd (pvc_spec L cod owner v) k = v k"
  using assms by (cases owner) (simp_all add: pvc_spec_def claims_spec_frame)

lemma pvc_spec_local:
  assumes "snd (pvc_spec L cod owner v) = v"
    and "\<forall>k \<in> keys_of (\<lambda>w. claim_key w ` set (ss_Volumes (obj_Spec w))) owner. v' k = v k"
  shows "snd (pvc_spec L cod owner v') = v'"
proof (cases owner)
  case (Some w)
  let ?S = "claim_key w ` set (ss_Volumes (obj_Spec w))"
  from assms(2) Some have v: "\<forall>x \<in> ?S. v' x = v x" by simp
  have "snd (claims_spec L cod w (ss_Volumes (obj_Spec w)) v') x = v' x" if "\<not> storage_unnamed w" for x
  proof (cases "x \<in> ?S")
    case True
    have "snd (claims_spec L cod w (ss_Volumes (obj_Spec w)) v) = v"
      using assms(1) Some that by (simp add: pvc_spec_def)
    with claims_spec_agree [OF v subset_refl True] bspec [OF v True] show ?thesis by simp
  next
    case False
    then show ?thesis by (rule claims_spec_frame)
  qed
  with Some show ?thesis by (auto simp: pvc_spec_def)
qed (simp add: pvc_spec_def)

lemma step_touches:
  assumes "own_step L K ctl req c d" and "k \<notin> touches ctl req c"
  shows "child_same ctl k d c"
proof (cases ctl)
  case WorkloadCompute
  from assms show ?thesis unfolding WorkloadCompute own_step.simps child_same.simps touches.simps
    by (simp add: child_spec_frame)
next
  case WorkloadStorage
  from assms show ?thesis unfolding WorkloadStorage own_step.simps child_same.simps touches.simps
    by (simp add: child_spec_frame)
next
  case WorkloadNetworking
  from assms show ?thesis unfolding WorkloadNetworking own_step.simps child_same.simps touches.simps
    by (simp add: child_spec_frame)
next
  case WorkloadObservability
  from assms show ?thesis unfolding WorkloadObservability own_step.simps child_same.simps touches.simps
    by (simp add: child_spec_frame)
next
  case WorkloadSecurity
  from assms show ?thesis unfolding WorkloadSecurity own_step.simps child_same.simps touches.simps
    by (simp add: child_spec_frame)
next
  case ComputeDeployment
  from assms show ?thesis unfolding ComputeDeployment own_step.simps child_same.simps touches.simps
    by (simp add: target_spec_frame)
next
  case ComputeHPA
  from assms show ?thesis unfolding ComputeHPA own_step.simps child_same.simps touches.simps
    by (simp add: child_spec_frame)
next
  case ComputePDB
  from assms show ?thesis unfolding ComputePDB own_step.simps child_same.simps touches.simps
    by (simp add: child_spec_frame)
next
  case StoragePVC
  from assms show ?thesis unfolding StoragePVC own_step.simps child_same.simps touches.simps
    by (simp add: pvc_spec_frame)
next
  case StorageDeployment
  from assms show ?thesis unfolding StorageDeployment own_step.simps child_same.simps touches.simps
    by (simp add: target_spec_frame)
next
  case NetworkingService
  from assms show ?thesis unfolding NetworkingService own_step.simps child_same.simps touches.simps
    by (simp add: child_spec_frame)
next
  case NetworkingIngress
  from assms show ?thesis unfolding NetworkingIngress own_step.simps child_same.simps touches.simps
    by (simp add: child_spec_frame)
next
  case ObservabilityServiceMonitor
  from assms show ?thesis unfolding ObservabilityServiceMonitor own_step.simps child_same.simps touches.simps
    by (simp add: child_spec_frame)
next
  case ObservabilityPodMonitor
  from assms show ?thesis unfolding ObservabilityPodMonitor own_step.simps child_same.simps touches.simps
    by (simp add: child_spec_frame)
next
  case SecurityRole
  from assms show ?thesis unfolding SecurityRole own_step.simps child_same.simps touches.simps
    by (simp add: child_spec_frame)
next
  case SecurityRoleBinding
  from assms show ?thesis unfolding SecurityRoleBinding own_step.simps child_same.simps touches.simps
    by (simp add: child_spec_frame)
qed

lemma pdb_mutate_cong:
  assumes "map_option (\<lambda>x. dep_Selector (obj_Spec x)) d = map_option (\<lambda>x. dep_Selector (obj_Spec x)) d'"
  shows "pdb_mutate L cod w d = pdb_mutate L cod w d'"
proof -
  have "pdb_selector spec d = pdb_selector spec d'" for spec
    using assms by (cases d; cases d') (auto simp: pdb_selector_def)
  then show ?thesis by (simp add: pdb_mutate_def pdb_fill_def fun_eq_iff)
qed

lemma settled_local:
  assumes s: "settled L K ctl req c" and o: "owner_same ctl req d c"
    and k: "\<forall>k \<in> touches ctl req c. child_same ctl k d c"
    and sel: "\<And>w. ctl = ComputePDB \<Longrightarrow> computes_view c req = Some w \<Longrightarrow>
      selector_read d w = selector_read c w"
  shows "settled L K ctl req d"
  unfolding settled_def
proof (cases ctl)
  case WorkloadCompute
  have v: "workloads_view d req = workloads_view c req" using o unfolding WorkloadCompute by simp
  from s have "snd (child_spec workload_unplaced workload_wants_compute target_Compute (workload_compute_mutate L)
      (workloads_view c req) (computes_view c)) = computes_view c"
    unfolding WorkloadCompute settled_def own_step.simps by simp
  then have "snd (child_spec workload_unplaced workload_wants_compute target_Compute (workload_compute_mutate L)
      (workloads_view c req) (computes_view d)) = computes_view d"
    by (rule child_spec_local) (use k in \<open>simp_all add: WorkloadCompute\<close>)
  then show "own_step L K ctl req d d" unfolding WorkloadCompute own_step.simps v by simp
next
  case WorkloadStorage
  have v: "workloads_view d req = workloads_view c req" using o unfolding WorkloadStorage by simp
  from s have "snd (child_spec workload_unplaced workload_wants_storage target_Storage (workload_storage_mutate L)
      (workloads_view c req) (storages_view c)) = storages_view c"
    unfolding WorkloadStorage settled_def own_step.simps by simp
  then have "snd (child_spec workload_unplaced workload_wants_storage target_Storage (workload_storage_mutate L)
      (workloads_view c req) (storages_view d)) = storages_view d"
    by (rule child_spec_local) (use k in \<open>simp_all add: WorkloadStorage\<close>)
  then show "own_step L K ctl req d d" unfolding WorkloadStorage own_step.simps v by simp
next
  case WorkloadNetworking
  have v: "workloads_view d req = workloads_view c req" using o unfolding WorkloadNetworking by simp
  from s have "snd (child_spec workload_unplaced workload_wants_networking target_Networking (workload_networking_mutate L)
      (workloads_view c req) (networkings_view c)) = networkings_view c"
    unfolding WorkloadNetworking settled_def own_step.simps by simp
  then have "snd (child_spec workload_unplaced workload_wants_networking target_Networking (workload_networking_mutate L)
      (workloads_view c req) (networkings_view d)) = networkings_view d"
    by (rule child_spec_local) (use k in \<open>simp_all add: WorkloadNetworking\<close>)
  then show "own_step L K ctl req d d" unfolding WorkloadNetworking own_step.simps v by simp
next
  case WorkloadObservability
  have v: "workloads_view d req = workloads_view c req" using o unfolding WorkloadObservability by simp
  from s have "snd (child_spec workload_unplaced workload_wants_observability target_Observability (workload_observability_mutate L)
      (workloads_view c req) (observabilities_view c)) = observabilities_view c"
    unfolding WorkloadObservability settled_def own_step.simps by simp
  then have "snd (child_spec workload_unplaced workload_wants_observability target_Observability (workload_observability_mutate L)
      (workloads_view c req) (observabilities_view d)) = observabilities_view d"
    by (rule child_spec_local) (use k in \<open>simp_all add: WorkloadObservability\<close>)
  then show "own_step L K ctl req d d" unfolding WorkloadObservability own_step.simps v by simp
next
  case WorkloadSecurity
  have v: "workloads_view d req = workloads_view c req" using o unfolding WorkloadSecurity by simp
  from s have "snd (child_spec workload_unplaced workload_wants_security target_Security (workload_security_mutate L)
      (workloads_view c req) (securities_view c)) = securities_view c"
    unfolding WorkloadSecurity settled_def own_step.simps by simp
  then have "snd (child_spec workload_unplaced workload_wants_security target_Security (workload_security_mutate L)
      (workloads_view c req) (securities_view d)) = securities_view d"
    by (rule child_spec_local) (use k in \<open>simp_all add: WorkloadSecurity\<close>)
  then show "own_step L K ctl req d d" unfolding WorkloadSecurity own_step.simps v by simp
next
  case ComputeDeployment
  have v: "computes_view d req = computes_view c req" using o unfolding ComputeDeployment by simp
  from s have "snd (target_spec compute_unnamed compute_targets_deployment has_scheduling compute_target_key
       (scheduling_transform L (cod_Deployment K))
      (computes_view c req) (deployments_view c)) = deployments_view c"
    unfolding ComputeDeployment settled_def own_step.simps by simp
  then have "snd (target_spec compute_unnamed compute_targets_deployment has_scheduling compute_target_key
       (scheduling_transform L (cod_Deployment K))
      (computes_view c req) (deployments_view d)) = deployments_view d"
    by (rule target_spec_local) (use k in \<open>simp_all add: ComputeDeployment\<close>)
  then show "own_step L K ctl req d d" unfolding ComputeDeployment own_step.simps v by simp
next
  case ComputeHPA
  have v: "computes_view d req = computes_view c req" using o unfolding ComputeHPA by simp
  from s have "snd (child_spec compute_unnamed hpa_enabled target_HPA (hpa_mutate L (cod_HPA K))
      (computes_view c req) (hpas_view c)) = hpas_view c"
    unfolding ComputeHPA settled_def own_step.simps by simp
  then have "snd (child_spec compute_unnamed hpa_enabled target_HPA (hpa_mutate L (cod_HPA K))
      (computes_view c req) (hpas_view d)) = hpas_view d"
    by (rule child_spec_local) (use k in \<open>simp_all add: ComputeHPA\<close>)
  then show "own_step L K ctl req d d" unfolding ComputeHPA own_step.simps v by simp
next
  case ComputePDB
  have v: "computes_view d req = computes_view c req" using o unfolding ComputePDB by simp
  from s have "snd (child_spec compute_unnamed has_PDB target_PDB
       (\<lambda>w. pdb_mutate L (cod_PDB K) w (deployed (deployments_view c) w))
      (computes_view c req) (pdbs_view c)) = pdbs_view c"
    unfolding ComputePDB settled_def own_step.simps by simp
  then have "snd (child_spec compute_unnamed has_PDB target_PDB
      (\<lambda>w. pdb_mutate L (cod_PDB K) w (deployed (deployments_view d) w)) (computes_view c req) (pdbs_view d)) =
    pdbs_view d"
  proof (rule child_spec_local, goal_cases)
    case 1
    show ?case using k unfolding ComputePDB by simp
  next
    case (2 w)
    show ?case by (rule pdb_mutate_cong) (use sel [OF ComputePDB 2] in simp)
  qed
  then show "own_step L K ctl req d d" unfolding ComputePDB own_step.simps v by simp
next
  case StoragePVC
  have v: "storages_view d req = storages_view c req" using o unfolding StoragePVC by simp
  from s have "snd (pvc_spec L (cod_PVC K) (storages_view c req) (pvcs_view c)) = pvcs_view c"
    unfolding StoragePVC settled_def own_step.simps by simp
  then have "snd (pvc_spec L (cod_PVC K) (storages_view c req) (pvcs_view d)) = pvcs_view d"
    by (rule pvc_spec_local) (use k in \<open>simp add: StoragePVC\<close>)
  then show "own_step L K ctl req d d" unfolding StoragePVC own_step.simps v by simp
next
  case StorageDeployment
  have v: "storages_view d req = storages_view c req" using o unfolding StorageDeployment by simp
  from s have "snd (target_spec storage_unnamed storage_targets_deployment (\<lambda>_. True) storage_target_key
       (volumes_transform L (cod_Deployment K))
      (storages_view c req) (deployments_view c)) = deployments_view c"
    unfolding StorageDeployment settled_def own_step.simps by simp
  then have "snd (target_spec storage_unnamed storage_targets_deployment (\<lambda>_. True) storage_target_key
       (volumes_transform L (cod_Deployment K))
      (storages_view c req) (deployments_view d)) = deployments_view d"
    by (rule target_spec_local) (use k in \<open>simp_all add: StorageDeployment\<close>)
  then show "own_step L K ctl req d d" unfolding StorageDeployment own_step.simps v by simp
next
  case NetworkingService
  have v: "networkings_view d req = networkings_view c req" using o unfolding NetworkingService by simp
  from s have "snd (child_spec networking_unnamed svc_enabled target_Svc (svc_mutate L (cod_Service K))
      (networkings_view c req) (services_view c)) = services_view c"
    unfolding NetworkingService settled_def own_step.simps by simp
  then have "snd (child_spec networking_unnamed svc_enabled target_Svc (svc_mutate L (cod_Service K))
      (networkings_view c req) (services_view d)) = services_view d"
    by (rule child_spec_local) (use k in \<open>simp_all add: NetworkingService\<close>)
  then show "own_step L K ctl req d d" unfolding NetworkingService own_step.simps v by simp
next
  case NetworkingIngress
  have v: "networkings_view d req = networkings_view c req" using o unfolding NetworkingIngress by simp
  from s have "snd (child_spec networking_unnamed has_ingress target_Ing (ing_mutate L (cod_Ingress K))
      (networkings_view c req) (ingresses_view c)) = ingresses_view c"
    unfolding NetworkingIngress settled_def own_step.simps by simp
  then have "snd (child_spec networking_unnamed has_ingress target_Ing (ing_mutate L (cod_Ingress K))
      (networkings_view c req) (ingresses_view d)) = ingresses_view d"
    by (rule child_spec_local) (use k in \<open>simp_all add: NetworkingIngress\<close>)
  then show "own_step L K ctl req d d" unfolding NetworkingIngress own_step.simps v by simp
next
  case ObservabilityServiceMonitor
  have v: "observabilities_view d req = observabilities_view c req" using o unfolding ObservabilityServiceMonitor by simp
  from s have "snd (child_spec observability_unnamed sm_wanted target_SM (service_monitor_mutate L)
      (observabilities_view c req) (servicemonitors_view c)) = servicemonitors_view c"
    unfolding ObservabilityServiceMonitor settled_def own_step.simps by simp
  then have "snd (child_spec observability_unnamed sm_wanted target_SM (service_monitor_mutate L)
      (observabilities_view c req) (servicemonitors_view d)) = servicemonitors_view d"
    by (rule child_spec_local) (use k in \<open>simp_all add: ObservabilityServiceMonitor\<close>)
  then show "own_step L K ctl req d d" unfolding ObservabilityServiceMonitor own_step.simps v by simp
next
  case ObservabilityPodMonitor
  have v: "observabilities_view d req = observabilities_view c req" using o unfolding ObservabilityPodMonitor by simp
  from s have "snd (child_spec observability_unnamed pm_wanted target_PM (pod_monitor_mutate L)
      (observabilities_view c req) (podmonitors_view c)) = podmonitors_view c"
    unfolding ObservabilityPodMonitor settled_def own_step.simps by simp
  then have "snd (child_spec observability_unnamed pm_wanted target_PM (pod_monitor_mutate L)
      (observabilities_view c req) (podmonitors_view d)) = podmonitors_view d"
    by (rule child_spec_local) (use k in \<open>simp_all add: ObservabilityPodMonitor\<close>)
  then show "own_step L K ctl req d d" unfolding ObservabilityPodMonitor own_step.simps v by simp
next
  case SecurityRole
  have v: "securities_view d req = securities_view c req" using o unfolding SecurityRole by simp
  from s have "snd (child_spec security_unnamed rbac_wanted target_Role (role_mutate L (cod_Role K))
      (securities_view c req) (roles_view c)) = roles_view c"
    unfolding SecurityRole settled_def own_step.simps by simp
  then have "snd (child_spec security_unnamed rbac_wanted target_Role (role_mutate L (cod_Role K))
      (securities_view c req) (roles_view d)) = roles_view d"
    by (rule child_spec_local) (use k in \<open>simp_all add: SecurityRole\<close>)
  then show "own_step L K ctl req d d" unfolding SecurityRole own_step.simps v by simp
next
  case SecurityRoleBinding
  have v: "securities_view d req = securities_view c req" using o unfolding SecurityRoleBinding by simp
  from s have "snd (child_spec security_unnamed rbac_wanted target_RB (rb_mutate L (cod_RoleBinding K))
      (securities_view c req) (rolebindings_view c)) = rolebindings_view c"
    unfolding SecurityRoleBinding settled_def own_step.simps by simp
  then have "snd (child_spec security_unnamed rbac_wanted target_RB (rb_mutate L (cod_RoleBinding K))
      (securities_view c req) (rolebindings_view d)) = rolebindings_view d"
    by (rule child_spec_local) (use k in \<open>simp_all add: SecurityRoleBinding\<close>)
  then show "own_step L K ctl req d d" unfolding SecurityRoleBinding own_step.simps v by simp
qed

section \<open>A run of one controller leaves another settled\<close>

text \<open>The patchers keep the selectors, and their transforms commute.\<close>

lemma target_spec_keeps:
  assumes "(b, v') = target_spec unnamed applies wanted target transform owner v"
    and "\<And>w d e. owner = Some w \<Longrightarrow> transform w d = Inr e \<Longrightarrow> f e = f d"
  shows "map_option f (v' k) = map_option f (v k)"
  using assms by (auto simp: target_spec_def split: option.splits sum.splits if_splits)

lemma selectors_kept:
  assumes rt: "runtime_lib L" and nf: "lib_IsNotFound L = mem_nf" and calm: "calm c"
    and run: "run_state (handler L K mem_client ctl req) c = (r, c')"
  shows "map_option (\<lambda>x. dep_Selector (obj_Spec x)) (deployments_view c' k) =
    map_option (\<lambda>x. dep_Selector (obj_Spec x)) (deployments_view c k)"
proof -
  consider "ctl = ComputeDeployment" | "ctl = StorageDeployment"
    | "ctl \<notin> {ComputeDeployment, StorageDeployment}" by blast
  then show ?thesis
  proof cases
    case 1
    with run have "run_state (ComputeDeploymentReconciler_Reconcile L (cod_Deployment K)
        computes_api deployments_api req) c = (r, c')" by simp
    from scheduling_step [OF rt nf calm this, THEN conjunct2, THEN conjunct2] show ?thesis
      by (rule target_spec_keeps)
        (auto simp: calm_owner(1) [OF calm] scheduling_transform_plain apply_scheduling_def)
  next
    case 2
    with run have "run_state (StorageDeploymentReconciler_Reconcile L (cod_Deployment K)
        storages_api deployments_api req) c = (r, c')" by simp
    from volumes_step [OF rt nf calm this, THEN conjunct2, THEN conjunct2] show ?thesis
      by (rule target_spec_keeps) (auto simp: calm_owner(2) [OF calm] volumes_transform_plain)
  next
    case 3
    with kept(7) [OF preservesD [OF handler_isolated run]] show ?thesis by (simp add: mem_view_def)
  qed
qed

lemma patchers_commute:
  "apply_scheduling sch (d\<lparr>dep_Template_Spec := mount_volumes s (dep_Template_Spec d)\<rparr>) =
     (apply_scheduling sch d)\<lparr>dep_Template_Spec := mount_volumes s (dep_Template_Spec (apply_scheduling sch d))\<rparr>"
  by (simp add: apply_scheduling_def mount_volumes_fields)

lemma patchers_kept:
  assumes rt: "runtime_lib L" and nf: "lib_IsNotFound L = mem_nf" and calm: "calm c"
    and run: "run_state (handler L K mem_client b req') c = (r, c')"
    and settled: "settled L K a req c"
    and pair: "a = ComputeDeployment \<and> b = StorageDeployment \<or> a = StorageDeployment \<and> b = ComputeDeployment"
  shows "settled L K a req c'"
proof -
  note same = kept [OF preservesD [OF handler_isolated run]]
  have s: "scheduling_transform L (cod_Deployment K) w x =
      Inr (x\<lparr>obj_Spec := apply_scheduling (cs_Scheduling (obj_Spec w)) (obj_Spec x)\<rparr>)"
    if "computes_view c k = Some w" for k w x
    using calm_owner(1) [OF calm that] by (simp add: scheduling_transform_plain)
  have v: "volumes_transform L (cod_Deployment K) u x = Inr (x\<lparr>obj_Spec := (obj_Spec x)
      \<lparr>dep_Template_Spec := mount_volumes u (dep_Template_Spec (obj_Spec x))\<rparr>\<rparr>)"
    if "storages_view c k = Some u" for k u x
    using calm_owner(2) [OF calm that] by (simp add: volumes_transform_plain)
  note step = handler_step [OF rt nf calm run, THEN conjunct2]
  from pair show ?thesis
  proof
    assume ab: "a = ComputeDeployment \<and> b = StorageDeployment"
    then have o: "computes_view c' = computes_view c" using same by (simp add: mem_view_def)
    let ?S = "target_spec storage_unnamed storage_targets_deployment (\<lambda>_. True)
      storage_target_key (volumes_transform L (cod_Deployment K)) (storages_view c req') (deployments_view c)"
    from step ab have st: "(fst ?S, deployments_view c') = ?S" by (simp add: prod_eq_iff)
    from settled ab have "target_settled compute_unnamed compute_targets_deployment has_scheduling
        compute_target_key (scheduling_transform L (cod_Deployment K)) (computes_view c req) (deployments_view c)"
      by (simp add: settled_def target_settled_def)
    then have "target_settled compute_unnamed compute_targets_deployment has_scheduling
        compute_target_key (scheduling_transform L (cod_Deployment K)) (computes_view c req) (deployments_view c')"
    proof (rule target_settled_commute [OF _ st], goal_cases)
      case (1 w u d e)
      from 1(3) have "obj_Spec (d\<lparr>obj_Spec := apply_scheduling (cs_Scheduling (obj_Spec w)) (obj_Spec d)\<rparr>) =
          obj_Spec d" unfolding s [OF 1(1)] by (metis sum.inject(2))
      with 1(4) show ?case by (auto simp: s [OF 1(1)] v [OF 1(2)] patchers_commute)
    next
      case (2 w d)
      then show ?case by (simp add: s)
    qed
    with ab o show ?thesis by (simp add: settled_def target_settled_def)
  next
    assume ab: "a = StorageDeployment \<and> b = ComputeDeployment"
    then have o: "storages_view c' = storages_view c" using same by (simp add: mem_view_def)
    let ?S = "target_spec compute_unnamed compute_targets_deployment has_scheduling
      compute_target_key (scheduling_transform L (cod_Deployment K)) (computes_view c req') (deployments_view c)"
    from step ab have st: "(fst ?S, deployments_view c') = ?S" by (simp add: prod_eq_iff)
    from settled ab have "target_settled storage_unnamed storage_targets_deployment (\<lambda>_. True)
        storage_target_key (volumes_transform L (cod_Deployment K)) (storages_view c req) (deployments_view c)"
      by (simp add: settled_def target_settled_def)
    then have "target_settled storage_unnamed storage_targets_deployment (\<lambda>_. True)
        storage_target_key (volumes_transform L (cod_Deployment K)) (storages_view c req) (deployments_view c')"
    proof (rule target_settled_commute [OF _ st], goal_cases)
      case (1 u w d e)
      from 1(3) have "obj_Spec (d\<lparr>obj_Spec := (obj_Spec d)
          \<lparr>dep_Template_Spec := mount_volumes u (dep_Template_Spec (obj_Spec d))\<rparr>\<rparr>) = obj_Spec d"
        unfolding v [OF 1(1)] by (metis sum.inject(2))
      with 1(4) show ?case by (auto simp: s [OF 1(2)] v [OF 1(1)] simp flip: patchers_commute)
    next
      case (2 u d)
      then show ?case by (simp add: v)
    qed
    with ab o show ?thesis by (simp add: settled_def target_settled_def)
  qed
qed

lemma other_kind_same:
  assumes "apart_from b c' = apart_from b c" and "written_kind a \<noteq> written_kind b"
  shows "child_same a k c' c"
proof -
  from assms(2) have "b \<noteq> a" "a \<in> {ComputeDeployment, StorageDeployment} \<longrightarrow> b \<notin> {ComputeDeployment, StorageDeployment}"
    by auto
  with kept [OF assms(1)] show ?thesis by (cases a) (simp_all add: mem_view_def)
qed

lemma owner_kept:
  assumes "apart_from b c' = apart_from b c" and "setup_For (setup_of a) \<noteq> written_kind b"
  shows "owner_same a k c' c"
  using kept [OF assms(1)] assms(2)
  by (cases a; cases b) (simp_all add: mem_view_def setup_defs)

text \<open>
  Two requests compete when their controllers write the same kind and a key in common.  The
  scheduling and the volumes of a Deployment do not compete: they are different fields.
\<close>

definition competes :: "controller \<times> key \<Rightarrow> controller \<times> key \<Rightarrow> cluster \<Rightarrow> bool" where
  "competes p q c \<longleftrightarrow> written_kind (fst p) = written_kind (fst q) \<and>
     {fst p, fst q} \<noteq> {ComputeDeployment, StorageDeployment} \<and>
     touches (fst p) (snd p) c \<inter> touches (fst q) (snd q) c \<noteq> {}"

lemma written_kind_eq:
  "written_kind a = written_kind b \<Longrightarrow> {a, b} \<noteq> {ComputeDeployment, StorageDeployment} \<Longrightarrow> a = b"
  by (cases a; cases b) auto

lemma settled_kept:
  assumes rt: "runtime_lib L" and nf: "lib_IsNotFound L = mem_nf" and calm: "calm c"
    and run: "run_state (handler L K mem_client b req') c = (r, c')"
    and settled: "settled L K a req c" and owner: "owner_same a req c' c"
    and "\<not> competes (a, req) (b, req') c"
  shows "settled L K a req c'"
proof -
  note same = preservesD [OF handler_isolated run]
  have sel: "selector_read c' w = selector_read c w" for w
    using selectors_kept [OF rt nf calm run] by (simp add: deployed_def)
  consider "written_kind a \<noteq> written_kind b"
    | "a = ComputeDeployment \<and> b = StorageDeployment \<or> a = StorageDeployment \<and> b = ComputeDeployment"
    | "a = b" "touches a req c \<inter> touches b req' c = {}"
    using assms(7) written_kind_eq [of a b] unfolding competes_def by (auto simp: doubleton_eq_iff)
  then show ?thesis
  proof cases
    case 1
    show ?thesis by (rule settled_local [OF settled owner])
      (use other_kind_same [OF same 1] sel in \<open>simp_all\<close>)
  next
    case 2
    show ?thesis by (rule patchers_kept [OF rt nf calm run settled 2])
  next
    case 3
    show ?thesis
    proof (rule settled_local [OF settled owner], intro ballI)
      fix k assume "k \<in> touches a req c"
      with 3(2) have "k \<notin> touches b req' c" by blast
      from step_touches [OF handler_step [OF rt nf calm run, THEN conjunct2] this] 3(1)
      show "child_same a k c' c" by simp
    qed (use sel in simp)
  qed
qed

end
