(* ===== verification/Convergence.thy ===== *)
theory Convergence
  imports Settling
begin

text \<open>
  Convergence: in a cluster without faults, one run of each of the sixteen controllers, in the
  order in which \<^verbatim>\<open>main\<close> registers them, leaves nothing to do: every run settles its own
  controller, and no later controller of the order unsettles an earlier one.  The last sections
  follow a Workload to its autoscaler, and show the limit of convergence: two Computes for one
  Deployment never settle.
\<close>

section \<open>The order of registration\<close>

text \<open>
  What \<open>b\<close> writes is neither read as an owner nor written by \<open>a\<close>, except for the two patchers.
\<close>

definition undisturbed :: "controller \<Rightarrow> controller \<Rightarrow> bool" where
  "undisturbed a b \<longleftrightarrow>
     written_kind b \<notin> {setup_For (setup_of a), written_kind a} \<or>
     a = ComputeDeployment \<and> b = StorageDeployment"

lemma registration_order: "sorted_wrt undisturbed all_controllers"
  by code_simp

lemma undisturbed_kept:
  assumes "runtime_lib L" and "lib_IsNotFound L = mem_nf" and "calm c"
    and run: "run_state (handler L K mem_client b req') c = (r, c')"
    and "settled L K a req c" and "undisturbed a b"
  shows "settled L K a req c'"
proof (rule settled_kept [OF assms(1-5)])
  have "written_kind b \<noteq> setup_For (setup_of a)"
    using assms(6) by (auto simp: undisturbed_def setup_defs)
  then show "owner_same a req c' c"
    using owner_kept [OF preservesD [OF handler_isolated run]] by metis
  show "\<not> competes (a, req) (b, req') c"
    using assms(6) by (auto simp: undisturbed_def competes_def)
qed

section \<open>One round\<close>

text \<open>One run of each controller of the list, each for its request.\<close>

fun run_all :: "lib \<Rightarrow> codecs \<Rightarrow> (controller \<Rightarrow> key) \<Rightarrow> controller list \<Rightarrow> cluster \<Rightarrow> cluster" where
  "run_all L K reqs [] c = c"
| "run_all L K reqs (ctl # ctls) c =
     run_all L K reqs ctls (snd (run_state (handler L K mem_client ctl (reqs ctl)) c))"

lemma run_all_settles:
  assumes rt: "runtime_lib L" and nf: "lib_IsNotFound L = mem_nf"
    and "calm c" and "sorted_wrt undisturbed (done @ ctls)"
    and "\<forall>ctl \<in> set done. settled L K ctl (reqs ctl) c"
  shows "calm (run_all L K reqs ctls c) \<and>
    (\<forall>ctl \<in> set (done @ ctls). settled L K ctl (reqs ctl) (run_all L K reqs ctls c))"
  using assms(3-5)
proof (induction ctls arbitrary: c "done")
  case Nil
  then show ?case by simp
next
  case (Cons ctl ctls)
  obtain r c' where run: "run_state (handler L K mem_client ctl (reqs ctl)) c = (r, c')"
    by (metis surj_pair)
  note now = handler_settles [OF rt nf Cons.prems(1) run]
  then have calm: "calm c'" using handler_calm [OF rt nf Cons.prems(1) run] by blast
  have "settled L K a (reqs a) c'" if "a \<in> set (done @ [ctl])" for a
  proof (cases "a = ctl")
    case True
    with now show ?thesis by simp
  next
    case False
    with that have a: "a \<in> set done" by simp
    with Cons.prems(2) have "undisturbed a ctl" by (simp add: sorted_wrt_append)
    with a Cons.prems(3) show ?thesis by (blast intro: undisturbed_kept [OF rt nf Cons.prems(1) run])
  qed
  then have "\<forall>a \<in> set (done @ [ctl]). settled L K a (reqs a) c'" by blast
  from Cons.IH [OF calm _ this] Cons.prems(2) show ?case by (simp add: run)
qed

text \<open>
  C4: In a cluster without faults and escape hatches, whose Storages name no volume twice, let
  each of the sixteen controllers run once, in the order in which the program registers them,
  each for a request of its own.  Then the operator has converged: no matter which of the
  sixteen runs next for its request, whether it reports an error or not, every object of every
  kind stays as it is.
\<close>

theorem one_round_converges:
  assumes "runtime_lib L" and "lib_IsNotFound L = mem_nf" and "calm c"
  shows "\<forall>ctl. same_objects
    (snd (run_state (handler L K mem_client ctl (reqs ctl)) (run_all L K reqs all_controllers c)))
    (run_all L K reqs all_controllers c)"
proof
  fix ctl
  let ?c = "run_all L K reqs all_controllers c"
  have "calm ?c \<and> (\<forall>ctl \<in> set ([] @ all_controllers). settled L K ctl (reqs ctl) ?c)"
    by (rule run_all_settles [OF assms]) (simp_all add: registration_order)
  moreover have "ctl \<in> set all_controllers" by (cases ctl) (simp_all add: all_controllers_def)
  ultimately show "same_objects (snd (run_state (handler L K mem_client ctl (reqs ctl)) ?c)) ?c"
    using settled_stable [OF assms(1,2) _ prod.collapse [symmetric]] by simp
qed

section \<open>From a Workload to its autoscaler\<close>

lemma run_all_append: "run_all L K reqs (xs @ ys) c = run_all L K reqs ys (run_all L K reqs xs c)"
  by (induction xs arbitrary: c) simp_all

lemma run_all_calm:
  assumes "runtime_lib L" and "lib_IsNotFound L = mem_nf" and "calm c"
  shows "calm (run_all L K reqs ctls c)"
  using assms(3)
proof (induction ctls arbitrary: c)
  case Nil
  then show ?case by simp
next
  case (Cons ctl ctls)
  note run = prod.collapse [symmetric, of "run_state (handler L K mem_client ctl (reqs ctl)) c"]
  from handler_settles [OF assms(1,2) Cons.prems run] handler_calm [OF assms(1,2) Cons.prems run]
  show ?case by (simp add: Cons.IH)
qed

lemma run_all_keeps:
  "\<forall>ctl \<in> set ctls. written_kind ctl \<noteq> ''Compute'' \<Longrightarrow>
     computes_view (run_all L K reqs ctls c) = computes_view c"
  "\<forall>ctl \<in> set ctls. written_kind ctl \<noteq> ''HorizontalPodAutoscaler'' \<Longrightarrow>
     hpas_view (run_all L K reqs ctls c) = hpas_view c"
proof -
  have step: "written_kind ctl \<noteq> ''Compute'' \<Longrightarrow>
      computes_view (snd (run_state (handler L K mem_client ctl req) c)) = computes_view c"
    "written_kind ctl \<noteq> ''HorizontalPodAutoscaler'' \<Longrightarrow>
      hpas_view (snd (run_state (handler L K mem_client ctl req) c)) = hpas_view c" for ctl req c
    using kept(2,8) [OF preservesD [OF handler_isolated prod.collapse [symmetric]], of ctl L K req c]
    by (cases ctl; simp add: mem_view_def)+
  show "\<forall>ctl \<in> set ctls. written_kind ctl \<noteq> ''Compute'' \<Longrightarrow>
      computes_view (run_all L K reqs ctls c) = computes_view c"
    by (induction ctls arbitrary: c) (simp_all add: step)
  show "\<forall>ctl \<in> set ctls. written_kind ctl \<noteq> ''HorizontalPodAutoscaler'' \<Longrightarrow>
      hpas_view (run_all L K reqs ctls c) = hpas_view c"
    by (induction ctls arbitrary: c) (simp_all add: step)
qed

text \<open>A child that is not there yet is made, with the owner as controller.\<close>

lemma fresh_child:
  assumes "child_spec skip enabled fresh mutate (Some w) v = (b, v')"
    and "\<not> skip w" and "enabled w" and "v (key_of (fresh w)) = None"
    and "mutate w (fresh w) = Inr y" and "key_of y = key_of (fresh w)"
  shows "b \<and> v' = v(key_of (fresh w) \<mapsto> y)"
  using assms by (auto simp: child_spec_def current_def)

lemma compute_made:
  assumes rt: "runtime_lib L" and nf: "lib_IsNotFound L = mem_nf" and calm: "calm c"
    and w: "workloads_view c req = Some w" "om_Namespace (obj_Meta w) = ''''"
    and ns: "\<not> workload_unplaced w" "workload_wants_compute w"
    and none: "computes_view c (key_of (target_Compute w)) = None"
  obtains y where
    "computes_view (snd (run_state (handler L K mem_client WorkloadCompute req) c)) =
       (computes_view c)(key_of (target_Compute w) \<mapsto> y)"
    "key_of y = key_of (target_Compute w)" "obj_Spec y = workload_compute_spec (obj_Spec w)"
    "(''Workload'', om_Name (obj_Meta w)) \<in> set (controllers_of (obj_Meta y))"
proof -
  note run = prod.collapse [symmetric, of
      "run_state (WorkloadComputeReconciler_Reconcile L workloads_api computes_api req) c"]
  have "controllers_of (obj_Meta (target_Compute w)) = []"
    by (simp add: target_Compute_def named_object_def named_meta_def controllers_of_def)
  then obtain y where y: "set_owner L ''Workload'' w
      ((target_Compute w)\<lparr>obj_Spec := workload_compute_spec (obj_Spec w)\<rparr>) = Inr y"
    using runtime_lib.set_owner_accepts [OF rt, of "(target_Compute w)\<lparr>obj_Spec :=
      workload_compute_spec (obj_Spec w)\<rparr>" w "''Workload''"] w(2) by auto
  note d = runtime_lib.set_owner_InrD [OF rt y]
  have "healthy_stores workloads_api workloads_view computes_api computes_view (lib_IsNotFound L) mem_healthy"
    by (rule healthy_nf(1) [OF nf])
  from workload_compute.pure_refines [OF this rt _ run] calm w(1)
  have "child_spec workload_unplaced workload_wants_compute target_Compute (workload_compute_mutate L)
      (Some w) (computes_view c) =
    (fst (run_state (WorkloadComputeReconciler_Reconcile L workloads_api computes_api req) c) = None,
     computes_view (snd (run_state (WorkloadComputeReconciler_Reconcile L workloads_api computes_api req) c)))"
    by (simp add: calm_def)
  from fresh_child [OF this ns none, of y] y d have
    "computes_view (snd (run_state (handler L K mem_client WorkloadCompute req) c)) =
       (computes_view c)(key_of (target_Compute w) \<mapsto> y)"
    by (simp add: workload_compute_mutate_def key_of_def)
  with d show thesis by (intro that) (simp_all add: key_of_def)
qed

lemma autoscaler_made:
  assumes rt: "runtime_lib L" and nf: "lib_IsNotFound L = mem_nf" and calm: "calm c"
    and w: "computes_view c req = Some w"
    and ns: "\<not> compute_unnamed w" "hpa_enabled w"
    and none: "hpas_view c (key_of (target_HPA w)) = None"
  obtains y where
    "hpas_view (snd (run_state (handler L K mem_client ComputeHPA req) c)) =
       (hpas_view c)(key_of (target_HPA w) \<mapsto> y)"
    "obj_Spec y = hpa_fill (obj_Spec w) zero_HPASpec"
    "(''Compute'', om_Name (obj_Meta w)) \<in> set (controllers_of (obj_Meta y))"
proof -
  let ?h = "HPAReconciler_Reconcile L (cod_HPA K) computes_api hpas_api req"
  note run = prod.collapse [symmetric, of "run_state ?h c"]
  have "controllers_of (obj_Meta (target_HPA w)) = []"
    "om_Namespace (obj_Meta (target_HPA w)) = om_Namespace (obj_Meta w)"
    "obj_Spec (target_HPA w) = zero_HPASpec"
    by (simp_all add: target_HPA_def named_object_def named_meta_def controllers_of_def)
  then obtain y where y: "set_owner L ''Compute'' w
      ((target_HPA w)\<lparr>obj_Spec := hpa_fill (obj_Spec w) (obj_Spec (target_HPA w))\<rparr>) = Inr y"
    using runtime_lib.set_owner_accepts [OF rt, of "(target_HPA w)\<lparr>obj_Spec :=
      hpa_fill (obj_Spec w) (obj_Spec (target_HPA w))\<rparr>" w "''Compute''"] by auto
  note d = runtime_lib.set_owner_InrD [OF rt y]
  have m: "hpa_mutate L (cod_HPA K) w (target_HPA w) = Inr y"
    using calm_owner(1) [OF calm w] y by (simp add: hpa_mutate_plain)
  have "healthy_stores computes_api computes_view hpas_api hpas_view (lib_IsNotFound L) mem_healthy"
    using healthy_nf [OF nf] by blast
  from hpa.pure_refines [OF this rt _ run] calm w(1)
  have "child_spec compute_unnamed hpa_enabled target_HPA (hpa_mutate L (cod_HPA K)) (Some w) (hpas_view c) =
    (fst (run_state ?h c) = None, hpas_view (snd (run_state ?h c)))"
    by (simp add: calm_def)
  from fresh_child [OF this ns none m] d have
    "hpas_view (snd (run_state (handler L K mem_client ComputeHPA req) c)) =
       (hpas_view c)(key_of (target_HPA w) \<mapsto> y)"
    by (simp add: key_of_def)
  with d \<open>obj_Spec (target_HPA w) = zero_HPASpec\<close> show thesis by (intro that) simp_all
qed

text \<open>
  C7: In a cluster without faults and escape hatches, let the sixteen controllers run once in the
  order of their registration, the Workload controller for a Workload that asks for
  autoscaling, the autoscaler controller for the Compute named after it.  If neither that
  Compute nor its autoscaler exists yet, the round ends with both: the autoscaler scales the
  Workload's target between the Workload's bounds, the Compute controls it, and the Workload
  controls the Compute.
\<close>

theorem workload_reaches_autoscaler:
  assumes "runtime_lib L" and "lib_IsNotFound L = mem_nf" and "calm c"
    and "workloads_view c (reqs WorkloadCompute) = Some w" and "om_Namespace (obj_Meta w) = ''''"
    and "ref_Namespace (ws_TargetRef (obj_Spec w)) = ns" and "ns \<noteq> ''''"
    and "ref_Resource (ws_TargetRef (obj_Spec w)) \<noteq> ''''"
    and "ref_Resource (cs_TargetRef (ws_Compute (obj_Spec w))) \<noteq> ''''"
    and "as_MaxReplicas (cs_Autoscaling (ws_Compute (obj_Spec w))) \<noteq> 0"
    and "n = dashed (om_Name (obj_Meta w)) ''compute''" and "reqs ComputeHPA = (ns, n)"
    and "computes_view c (ns, n) = None" and "hpas_view c (ns, dashed n ''hpa'') = None"
  shows "\<exists>y h. computes_view (run_all L K reqs all_controllers c) (ns, n) = Some y \<and>
    (''Workload'', om_Name (obj_Meta w)) \<in> set (controllers_of (obj_Meta y)) \<and>
    hpas_view (run_all L K reqs all_controllers c) (ns, dashed n ''hpa'') = Some h \<and>
    (''Compute'', n) \<in> set (controllers_of (obj_Meta h)) \<and>
    hpa_ScaleTargetRef (obj_Spec h) = hpa_scale_target (ws_TargetRef (obj_Spec w)) \<and>
    hpa_MaxReplicas (obj_Spec h) = as_MaxReplicas (cs_Autoscaling (ws_Compute (obj_Spec w))) \<and>
    hpa_MinReplicas (obj_Spec h) =
      (let m = as_MinReplicas (cs_Autoscaling (ws_Compute (obj_Spec w))) in if 0 <s m then Some m else None)"
proof -
  let ?pre = "[WorkloadStorage, WorkloadNetworking, WorkloadObservability, WorkloadSecurity, ComputeDeployment]"
  let ?post = "[ComputePDB, StoragePVC, StorageDeployment, NetworkingService, NetworkingIngress,
      ObservabilityServiceMonitor, ObservabilityPodMonitor, SecurityRole, SecurityRoleBinding]"
  have split: "all_controllers = [WorkloadCompute] @ ?pre @ [ComputeHPA] @ ?post"
    by (simp add: all_controllers_def)
  define c1 where "c1 = run_all L K reqs [WorkloadCompute] c"
  define c2 where "c2 = run_all L K reqs ?pre c1"
  define c3 where "c3 = run_all L K reqs [ComputeHPA] c2"
  have final: "run_all L K reqs all_controllers c = run_all L K reqs ?post c3"
    unfolding split run_all_append c1_def c2_def c3_def ..
  have key: "key_of (target_Compute w) = (ns, n)"
    using assms(6,11) by (simp add: workload_compute.fresh_key)
  have w: "\<not> workload_unplaced w" "workload_wants_compute w"
    using assms(6,7,9) by (simp_all add: workload_unplaced_def workload_wants_compute_def)
  obtain y where y: "computes_view c1 = (computes_view c)((ns, n) \<mapsto> y)" "key_of y = (ns, n)"
    "obj_Spec y = workload_compute_spec (obj_Spec w)"
    "(''Workload'', om_Name (obj_Meta w)) \<in> set (controllers_of (obj_Meta y))"
    by (rule compute_made [OF assms(1-5) w, of K]) (simp_all add: key assms(13) c1_def)
  have c2: "computes_view c2 = computes_view c1" "hpas_view c2 = hpas_view c" "calm c2"
    unfolding c2_def c1_def
    by (rule run_all_keeps(1), simp)
      (rule trans, rule run_all_keeps(2), simp, rule run_all_keeps(2), simp,
        intro run_all_calm assms(1-3))
  have name: "om_Name (obj_Meta y) = n" "om_Namespace (obj_Meta y) = ns"
    using y(2) by (simp_all add: key_of_def)
  have yn: "\<not> compute_unnamed y" "hpa_enabled y"
    using y(3) assms(8,10)
    by (simp_all add: compute_unnamed_def hpa_enabled_def workload_compute_spec_def)
  have hk: "key_of (target_HPA y) = (ns, dashed n ''hpa'')"
    using name by (simp add: hpa_name_def)
  obtain h where h: "hpas_view c3 = (hpas_view c2)((ns, dashed n ''hpa'') \<mapsto> h)"
    "obj_Spec h = hpa_fill (obj_Spec y) zero_HPASpec"
    "(''Compute'', n) \<in> set (controllers_of (obj_Meta h))"
    by (rule autoscaler_made [OF assms(1,2) c2(3), of "(ns, n)" y K])
      (use y c2 yn hk name assms(12,14) in \<open>simp_all add: c3_def\<close>)
  have "computes_view c3 = computes_view c2" unfolding c3_def by (rule run_all_keeps(1)) simp
  moreover have "computes_view (run_all L K reqs ?post c3) = computes_view c3"
    by (rule run_all_keeps(1)) simp
  moreover have "hpas_view (run_all L K reqs ?post c3) = hpas_view c3"
    by (rule run_all_keeps(2)) simp
  ultimately show ?thesis
    unfolding final using y c2 h
    by (intro exI [of _ y] exI [of _ h]) (simp add: hpa_fill_def workload_compute_spec_def Let_def)
qed

section \<open>The limit: two Computes for one Deployment\<close>

lemma scheduling_inject:
  "apply_scheduling sch d = apply_scheduling sch' d' \<Longrightarrow> sch = sch'"
  by (cases sch; cases sch')
    (auto simp: apply_scheduling_def dest!: arg_cong [of _ _ dep_Template_Spec]
      dest: arg_cong [of _ _ ps_NodeSelector] arg_cong [of _ _ ps_Affinity]
        arg_cong [of _ _ ps_TopologySpreadConstraints])

lemma scheduling_written:
  assumes "runtime_lib L" and "lib_IsNotFound L = mem_nf" and "calm c"
    and "computes_view c k = Some w" and "\<not> compute_unnamed w" and "compute_targets_deployment w"
    and "has_scheduling w" and "deployments_view c (compute_target_key w) = Some d"
    and "c' = snd (run_state (handler L K mem_client ComputeDeployment k) c)"
  shows "calm c' \<and> computes_view c' = computes_view c \<and>
    deployments_view c' (compute_target_key w) =
      Some (d\<lparr>obj_Spec := apply_scheduling (cs_Scheduling (obj_Spec w)) (obj_Spec d)\<rparr>)"
proof -
  note run = prod.collapse [symmetric, of "run_state (handler L K mem_client ComputeDeployment k) c"]
  from scheduling_step [OF assms(1-3) run [unfolded handler.simps mem_client_simps]]
  have "computes_view c' = computes_view c" "deployments_view c' (compute_target_key w) =
      Some (d\<lparr>obj_Spec := apply_scheduling (cs_Scheduling (obj_Spec w)) (obj_Spec d)\<rparr>)"
    using assms(4-9) calm_owner(1) [OF assms(3,4)]
    by (simp_all add: target_spec_def scheduling_transform_plain)
  moreover have "calm c'"
    using run_all_calm [OF assms(1-3), of K "\<lambda>_. k" "[ComputeDeployment]"] assms(9) by simp
  ultimately show ?thesis by blast
qed

text \<open>
  C26: One request per controller is essential.  When two Computes of a calm cluster target the
  same existing Deployment and ask for different scheduling, every run for the one undoes
  what the run for the other did, whatever happened before: the cluster never settles, and
  since each change of the Deployment requeues both Computes, the runs never stop.
\<close>

theorem rival_computes_never_settle:
  assumes "runtime_lib L" and "lib_IsNotFound L = mem_nf" and "calm c"
    and "computes_view c k = Some w" and "computes_view c k' = Some w'"
    and "\<not> compute_unnamed w" and "\<not> compute_unnamed w'"
    and "compute_targets_deployment w" and "compute_targets_deployment w'"
    and "has_scheduling w" and "has_scheduling w'"
    and "compute_target_key w' = compute_target_key w"
    and "cs_Scheduling (obj_Spec w') \<noteq> cs_Scheduling (obj_Spec w)"
    and "deployments_view c (compute_target_key w) = Some d"
    and "c1 = snd (run_state (handler L K mem_client ComputeDeployment k) c)"
    and "c2 = snd (run_state (handler L K mem_client ComputeDeployment k') c1)"
  shows "\<not> same_objects c2 c1 \<and> calm c2 \<and> computes_view c2 = computes_view c \<and>
    deployments_view c2 (compute_target_key w) \<noteq> None"
proof -
  let ?d1 = "d\<lparr>obj_Spec := apply_scheduling (cs_Scheduling (obj_Spec w)) (obj_Spec d)\<rparr>"
  let ?d2 = "?d1\<lparr>obj_Spec := apply_scheduling (cs_Scheduling (obj_Spec w')) (obj_Spec ?d1)\<rparr>"
  note one = scheduling_written [OF assms(1-4,6,8,10,14,15)]
  then have "calm c1" "computes_view c1 k' = Some w'"
    "deployments_view c1 (compute_target_key w') = Some ?d1" using assms(5,12) by simp_all
  note two = scheduling_written [OF assms(1,2) this(1,2) assms(7,9,11) this(3) assms(16)]
  have "?d2 \<noteq> ?d1"
  proof
    assume "?d2 = ?d1"
    then have "obj_Spec ?d2 = obj_Spec ?d1" by simp
    then show False using assms(13) scheduling_inject by auto
  qed
  then have "deployments_view c2 \<noteq> deployments_view c1" using one two assms(12) by auto
  with one two assms(12) show ?thesis by (simp add: same_objects_def)
qed

section \<open>At a concrete cluster\<close>

definition sample_reqs :: "controller \<Rightarrow> key" where
  "sample_reqs ctl =
     (case setup_For (setup_of ctl) of kind \<Rightarrow>
        if kind = ''Workload'' then ('''', ''front'')
        else (''shop'', dashed ''front'' (the (map_of
          [(''Compute'', ''compute''), (''Storage'', ''storage''), (''Networking'', ''networking''),
           (''Observability'', ''observability''), (''Security'', ''security'')] kind))))"

abbreviation "sample_round \<equiv> run_all mem_lib trivial_codecs sample_reqs all_controllers fresh_cluster"

lemma fresh_cluster_calm: "calm fresh_cluster"
proof -
  have "mem_healthy fresh_cluster" by code_simp
  moreover have "all_stored (workloads_view fresh_cluster) (\<lambda>w. distinct_volumes (ws_Storage (obj_Spec w)))"
    unfolding mem_view_def by (rule all_stored_lookup) code_simp
  moreover have "all_stored (storages_view fresh_cluster) (\<lambda>w. distinct_volumes (obj_Spec w))"
    unfolding mem_view_def by (rule all_stored_lookup) code_simp
  ultimately show ?thesis by (simp add: calm_def fresh_cluster_good)
qed

text \<open>The round makes objects of every kind, and leaves them when another run follows.\<close>

theorem one_round_converges_witness:
  "\<exists>h. hpas_view (snd (run_state (handler mem_lib trivial_codecs mem_client ComputeHPA
        (sample_reqs ComputeHPA)) sample_round)) (''shop'', ''front-compute-hpa'') = Some h \<and>
     hpas_view sample_round (''shop'', ''front-compute-hpa'') = Some h"
proof -
  have "same_objects (snd (run_state (handler mem_lib trivial_codecs mem_client ComputeHPA
      (sample_reqs ComputeHPA)) sample_round)) sample_round"
    using one_round_converges [OF mem_lib.runtime_lib_axioms, OF mem_lib_simps(2),
        OF fresh_cluster_calm] by blast
  moreover have "hpas_view sample_round (''shop'', ''front-compute-hpa'') \<noteq> None" by code_simp
  ultimately show ?thesis by (auto simp: same_objects_def)
qed

theorem workload_reaches_autoscaler_witness:
  "\<exists>h. hpas_view sample_round (''shop'', ''front-compute-hpa'') = Some h \<and>
     xref_Name (hpa_ScaleTargetRef (obj_Spec h)) = ''web'' \<and> hpa_MaxReplicas (obj_Spec h) = 5"
proof -
  have facts: "workloads_view fresh_cluster (sample_reqs WorkloadCompute) = Some sample_workload"
    "om_Namespace (obj_Meta sample_workload) = ''''"
    "ref_Namespace (ws_TargetRef (obj_Spec sample_workload)) = ''shop''"
    "''shop'' \<noteq> ''''"
    "ref_Resource (ws_TargetRef (obj_Spec sample_workload)) \<noteq> ''''"
    "ref_Resource (cs_TargetRef (ws_Compute (obj_Spec sample_workload))) \<noteq> ''''"
    "as_MaxReplicas (cs_Autoscaling (ws_Compute (obj_Spec sample_workload))) \<noteq> 0"
    "''front-compute'' = dashed (om_Name (obj_Meta sample_workload)) ''compute''"
    "sample_reqs ComputeHPA = (''shop'', ''front-compute'')"
    "computes_view fresh_cluster (''shop'', ''front-compute'') = None"
    "hpas_view fresh_cluster (''shop'', dashed ''front-compute'' ''hpa'') = None"
    by code_simp+
  from workload_reaches_autoscaler [where reqs = sample_reqs and K = trivial_codecs,
      OF mem_lib.runtime_lib_axioms, OF mem_lib_simps(2),
      OF fresh_cluster_calm, OF facts(1), OF facts(2), OF facts(3), OF facts(4), OF facts(5),
      OF facts(6), OF facts(7), OF facts(8), OF facts(9), OF facts(10), OF facts(11)]
  obtain h where "hpas_view sample_round (''shop'', dashed ''front-compute'' ''hpa'') = Some h"
    "hpa_ScaleTargetRef (obj_Spec h) = hpa_scale_target (ws_TargetRef (obj_Spec sample_workload))"
    "hpa_MaxReplicas (obj_Spec h) = as_MaxReplicas (cs_Autoscaling (ws_Compute (obj_Spec sample_workload)))"
    by blast
  then show ?thesis
    by (simp add: dashed_def hpa_scale_target_def sample_workload_def sample_ComputeSpec_def sample_ref_def)
qed

text \<open>A second Compute for the same Deployment, with another node selector.\<close>

definition rival_compute :: Compute where
  "rival_compute =
     named_object ''rival'' ''shop''
       (sample_ComputeSpec\<lparr>cs_Scheduling := (cs_Scheduling sample_ComputeSpec)
          \<lparr>sch_NodeSelector := [(''disk'', ''hdd'')]\<rparr>\<rparr>) \<lparr>compute_Conditions = []\<rparr>"

definition rival_cluster :: cluster where
  "rival_cluster = fresh_cluster\<lparr>cl_computes := [sample_compute, rival_compute]\<rparr>"

lemma rival_cluster_calm: "calm rival_cluster"
proof -
  have "all_stored (computes_view rival_cluster) (\<lambda>w. cs_EscapeHatches (obj_Spec w) = [])"
    unfolding mem_view_def by (rule all_stored_lookup) code_simp
  with fresh_cluster_calm show ?thesis
    by (simp add: calm_def hatch_free_def mem_healthy_def rival_cluster_def mem_view_def)
qed

theorem rival_computes_never_settle_witness:
  "\<exists>c1 c2. c1 = snd (sample_handler ComputeDeployment (''shop'', ''front'') rival_cluster) \<and>
     c2 = snd (sample_handler ComputeDeployment (''shop'', ''rival'') c1) \<and> \<not> same_objects c2 c1"
proof -
  have facts: "computes_view rival_cluster (''shop'', ''front'') = Some sample_compute"
    "computes_view rival_cluster (''shop'', ''rival'') = Some rival_compute"
    "\<not> compute_unnamed sample_compute" "\<not> compute_unnamed rival_compute"
    "compute_targets_deployment sample_compute" "compute_targets_deployment rival_compute"
    "has_scheduling sample_compute" "has_scheduling rival_compute"
    "compute_target_key rival_compute = compute_target_key sample_compute"
    "cs_Scheduling (obj_Spec rival_compute) \<noteq> cs_Scheduling (obj_Spec sample_compute)"
    "deployments_view rival_cluster (compute_target_key sample_compute) = Some sample_deployment"
    by code_simp+
  from rival_computes_never_settle [where K = trivial_codecs, OF mem_lib.runtime_lib_axioms, OF mem_lib_simps(2),
      OF rival_cluster_calm, OF facts(1), OF facts(2), OF facts(3), OF facts(4), OF facts(5),
      OF facts(6), OF facts(7), OF facts(8), OF facts(9), OF facts(10), OF facts(11), OF refl, OF refl]
  show ?thesis by blast
qed

end
