(* ===== verification/Fault_Budget.thy ===== *)
theory Fault_Budget
  imports Settling
begin

text \<open>
  Faults run out.  The script of faults of a cluster is finite, every call to the client uses
  up one of them, and every handler begins with a call, so a run of a controller on a disturbed
  cluster brings it closer to an undisturbed one, and keeps everything else that makes it calm.
\<close>

section \<open>Computations that use up faults\<close>

definition spends :: "nat \<Rightarrow> (cluster, 'r) state \<Rightarrow> bool" where
  "spends n m \<longleftrightarrow> (\<forall>c. length (cl_faults (snd (run_state m c))) \<le> length (cl_faults c) - n)"

lemma spendsD: "spends n m \<Longrightarrow> run_state m c = (r, c') \<Longrightarrow> length (cl_faults c') \<le> length (cl_faults c) - n"
  unfolding spends_def by (metis snd_conv)

lemma spendsI:
  "(\<And>c r c'. run_state m c = (r, c') \<Longrightarrow> length (cl_faults c') \<le> length (cl_faults c) - n) \<Longrightarrow> spends n m"
  unfolding spends_def by (metis prod.collapse)

lemma spends_return: "spends 0 (State_Monad.return x)"
  by (simp add: spends_def)

lemma spends_bind:
  assumes "spends n m" and "\<And>x. spends 0 (f x)"
  shows "spends n (State_Monad.bind m f)"
proof (rule spendsI)
  fix c r c'
  assume "run_state (State_Monad.bind m f) c = (r, c')"
  then obtain a t where "run_state m c = (a, t)" and "run_state (f a) t = (r, c')" by (rule run_bindE)
  with spendsD [OF assms(1)] spendsD [OF assms(2)]
  show "length (cl_faults c') \<le> length (cl_faults c) - n" by fastforce
qed

lemma spends_weaken: "spends n m \<Longrightarrow> spends 0 m"
  unfolding spends_def by (metis diff_le_self le_trans minus_nat.diff_0)

lemma spends_cases:
  "spends n m \<Longrightarrow> spends n m' \<Longrightarrow> spends n (if b then m else m')"
  "(\<And>e. spends n (f e)) \<Longrightarrow> (\<And>x. spends n (g x)) \<Longrightarrow>
     spends n (case r of Inl e \<Rightarrow> f e | Inr x \<Rightarrow> g x)"
  "spends n m \<Longrightarrow> (\<And>x. spends n (h x)) \<Longrightarrow> spends n (case p of None \<Rightarrow> m | Some x \<Rightarrow> h x)"
  "(\<And>a b. spends n (u a b)) \<Longrightarrow> spends n (case q of (a, b) \<Rightarrow> u a b)"
  by (simp_all split: sum.split option.split prod.split)

section \<open>The client\<close>

definition spending :: "(cluster, ('sp, 'st) object) api \<Rightarrow> bool" where
  "spending api \<longleftrightarrow>
     (\<forall>k. spends 1 (api_get api k)) \<and> (\<forall>x. spends 0 (api_delete api x)) \<and>
     (\<forall>x y. spends 0 (api_patch api x y)) \<and> (\<forall>x f. spends 0 (api_createOrUpdate api x f))"

lemma spendingD:
  assumes "spending api"
  shows "spends 1 (api_get api k)" "spends 0 (api_get api k)" "spends 0 (api_delete api x)"
    "spends 0 (api_patch api x y)" "spends 0 (api_createOrUpdate api x f)"
  using assms spends_weaken unfolding spending_def by blast+

lemma next_fault_spends: "spends 1 next_fault"
  by (auto simp: spends_def next_fault_def split: list.splits)

lemma reading_spends: "spends 1 (reading f)"
  unfolding reading_def
proof (rule spends_bind [OF next_fault_spends])
  show "spends 0 (case ft of Pass \<Rightarrow> State (\<lambda>c. (f c, c))
      | Drop msg \<Rightarrow> State_Monad.return (Inl (fault_error msg))
      | Lost msg \<Rightarrow> State_Monad.return (Inl (fault_error msg)))" for ft
    by (cases ft) (simp_all add: spends_def)
qed

context cluster_store begin

lemma writing_spends: "spends 1 (writing (upd g))"
  unfolding writing_def
proof (rule spends_bind [OF next_fault_spends])
  show "spends 0 (case ft of Pass \<Rightarrow> State (\<lambda>c. (None, upd g c))
      | Drop msg \<Rightarrow> State_Monad.return (Some (fault_error msg))
      | Lost msg \<Rightarrow> State (\<lambda>c. (Some (fault_error msg), upd g c)))" for ft
    by (cases ft) (simp_all add: spends_def faults_upd)
qed

lemma mem_spending: "spending (mem_api sel upd)"
  unfolding spending_def mem_api_def
  by (auto simp del: One_nat_def intro!: reading_spends spends_bind [OF spends_weaken [OF reading_spends]]
      spends_weaken [OF writing_spends] spends_return split: sum.split)

end

lemmas mem_spendings =
  mem_workloads.mem_spending mem_computes.mem_spending mem_storages.mem_spending
  mem_networkings.mem_spending mem_observabilities.mem_spending mem_securities.mem_spending
  mem_deployments.mem_spending mem_hpas.mem_spending mem_pdbs.mem_spending mem_pvcs.mem_spending
  mem_services.mem_spending mem_ingresses.mem_spending mem_podmonitors.mem_spending
  mem_servicemonitors.mem_spending mem_roles.mem_spending mem_rolebindings.mem_spending

section \<open>The handlers\<close>

lemma child_reconcile_spends:
  assumes "spending oapi" and "spending capi" and "\<And>w. spends 0 (prepare w)"
  shows "spends 1 (child_reconcile L oapi capi skip enabled fresh prepare mutate req)"
  unfolding child_reconcile_def
  by (intro spends_bind spends_cases spends_return assms(3) spendingD(1) [OF assms(1)]
      spendingD(2-) [OF assms(2)])

lemma target_reconcile_spends:
  assumes "spending oapi" and "spending dapi"
  shows "spends 1 (target_reconcile L oapi dapi unnamed applies wanted target transform failed req)"
  unfolding target_reconcile_def
  by (intro spends_bind spends_cases spends_return spendingD(1) [OF assms(1)]
      spendingD(2-) [OF assms(2)])

lemma pvc_reconcile_spends:
  assumes "spending oapi" and "spending capi"
  shows "spends 1 (PVCReconciler_Reconcile L cod oapi capi req)"
proof -
  have "spends 0 (pvc_loop L cod capi w vs)" for w vs
    by (induction vs) (auto intro!: spends_bind spends_cases spends_return spendingD(5) [OF assms(2)])
  then show ?thesis
    unfolding PVCReconciler_Reconcile_def
    by (intro spends_bind spends_cases spends_return spendingD(1) [OF assms(1)])
qed

lemma pdb_prepare_spends: "spending dapi \<Longrightarrow> spends 0 (pdb_prepare dapi w)"
  unfolding pdb_prepare_def
  by (intro spends_bind spends_cases spends_return spendingD(2))

lemma handler_spends: "spends 1 (handler L K mem_client ctl req)"
proof (cases ctl)
  case WorkloadCompute
  show ?thesis unfolding WorkloadCompute handler.simps mem_client_simps workload_compute.pure_shape
    by (intro child_reconcile_spends mem_spendings spends_return)
next
  case WorkloadStorage
  show ?thesis unfolding WorkloadStorage handler.simps mem_client_simps workload_storage.pure_shape
    by (intro child_reconcile_spends mem_spendings spends_return)
next
  case WorkloadNetworking
  show ?thesis unfolding WorkloadNetworking handler.simps mem_client_simps workload_networking.pure_shape
    by (intro child_reconcile_spends mem_spendings spends_return)
next
  case WorkloadObservability
  show ?thesis unfolding WorkloadObservability handler.simps mem_client_simps workload_observability.pure_shape
    by (intro child_reconcile_spends mem_spendings spends_return)
next
  case WorkloadSecurity
  show ?thesis unfolding WorkloadSecurity handler.simps mem_client_simps workload_security.pure_shape
    by (intro child_reconcile_spends mem_spendings spends_return)
next
  case ComputeHPA
  show ?thesis unfolding ComputeHPA handler.simps mem_client_simps hpa.pure_shape
    by (intro child_reconcile_spends mem_spendings spends_return)
next
  case NetworkingService
  show ?thesis unfolding NetworkingService handler.simps mem_client_simps svc.pure_shape
    by (intro child_reconcile_spends mem_spendings spends_return)
next
  case NetworkingIngress
  show ?thesis unfolding NetworkingIngress handler.simps mem_client_simps ing.pure_shape
    by (intro child_reconcile_spends mem_spendings spends_return)
next
  case ObservabilityServiceMonitor
  show ?thesis unfolding ObservabilityServiceMonitor handler.simps mem_client_simps servicemonitor.pure_shape
    by (intro child_reconcile_spends mem_spendings spends_return)
next
  case ObservabilityPodMonitor
  show ?thesis unfolding ObservabilityPodMonitor handler.simps mem_client_simps podmonitor.pure_shape
    by (intro child_reconcile_spends mem_spendings spends_return)
next
  case SecurityRole
  show ?thesis unfolding SecurityRole handler.simps mem_client_simps role.pure_shape
    by (intro child_reconcile_spends mem_spendings spends_return)
next
  case SecurityRoleBinding
  show ?thesis unfolding SecurityRoleBinding handler.simps mem_client_simps rolebinding.pure_shape
    by (intro child_reconcile_spends mem_spendings spends_return)
next
  case ComputePDB
  show ?thesis unfolding ComputePDB handler.simps mem_client_simps pdb.shape
    by (intro child_reconcile_spends mem_spendings pdb_prepare_spends)
next
  case ComputeDeployment
  show ?thesis unfolding ComputeDeployment handler.simps mem_client_simps compute_deployment.patcher_shape
    by (intro target_reconcile_spends mem_spendings)
next
  case StorageDeployment
  show ?thesis unfolding StorageDeployment handler.simps mem_client_simps storage_deployment.patcher_shape
    by (intro target_reconcile_spends mem_spendings)
next
  case StoragePVC
  show ?thesis unfolding StoragePVC handler.simps mem_client_simps
    by (intro pvc_reconcile_spends mem_spendings)
qed

end
