(* ===== verification/Desired_State.thy ===== *)
theory Desired_State
  imports Settling
begin

text \<open>
  What the sixteen controllers are for, without any reference to how they work: \<open>desired\<close> says of
  the stored objects that they are what the owner describes.  A child that is wanted exists and
  is a fixed point of the callback, one that is not wanted does not exist, the Deployment has
  what the transform gives it.  A settled controller whose run reports success has reached it.
\<close>

section \<open>The specification\<close>

definition child_desired ::
    "('o \<Rightarrow> bool) \<Rightarrow> ('o \<Rightarrow> bool) \<Rightarrow> ('o \<Rightarrow> ('p, 'q) object) \<Rightarrow>
     ('o \<Rightarrow> ('p, 'q) object \<Rightarrow> go_error + ('p, 'q) object) \<Rightarrow> 'o option \<Rightarrow>
     (key \<Rightarrow> ('p, 'q) object option) \<Rightarrow> bool" where
  "child_desired skip enabled fresh mutate owner v \<longleftrightarrow>
     (case owner of
        None \<Rightarrow> True
      | Some w \<Rightarrow> skip w \<or>
          (if enabled w then \<exists>y. v (key_of (fresh w)) = Some y \<and> mutate w y = Inr y
           else v (key_of (fresh w)) = None))"

definition target_desired ::
    "('o \<Rightarrow> bool) \<Rightarrow> ('o \<Rightarrow> bool) \<Rightarrow> ('o \<Rightarrow> bool) \<Rightarrow> ('o \<Rightarrow> key) \<Rightarrow> ('o \<Rightarrow> 'd \<Rightarrow> go_error + 'd) \<Rightarrow>
     'o option \<Rightarrow> (key \<Rightarrow> 'd option) \<Rightarrow> bool" where
  "target_desired unnamed applies wanted target transform owner v \<longleftrightarrow>
     (case owner of
        None \<Rightarrow> True
      | Some w \<Rightarrow> unnamed w \<or> \<not> applies w \<or> \<not> wanted w \<or>
          (\<forall>d. v (target w) = Some d \<longrightarrow> transform w d = Inr d))"

definition claims_desired ::
    "lib \<Rightarrow> PersistentVolumeClaim codec \<Rightarrow> Storage option \<Rightarrow> (key \<Rightarrow> PersistentVolumeClaim option) \<Rightarrow> bool" where
  "claims_desired L cod owner v \<longleftrightarrow>
     (case owner of
        None \<Rightarrow> True
      | Some w \<Rightarrow> storage_unnamed w \<or>
          (\<forall>vol \<in> set (ss_Volumes (obj_Spec w)).
             \<exists>y. v (claim_key w vol) = Some y \<and> pvc_mutate L cod w vol y = Inr y))"

fun desired :: "lib \<Rightarrow> codecs \<Rightarrow> controller \<Rightarrow> key \<Rightarrow> cluster \<Rightarrow> bool" where
  "desired L K WorkloadCompute req c \<longleftrightarrow>
     child_desired workload_unplaced workload_wants_compute target_Compute (workload_compute_mutate L)
       (workloads_view c req) (computes_view c)"
| "desired L K WorkloadStorage req c \<longleftrightarrow>
     child_desired workload_unplaced workload_wants_storage target_Storage (workload_storage_mutate L)
       (workloads_view c req) (storages_view c)"
| "desired L K WorkloadNetworking req c \<longleftrightarrow>
     child_desired workload_unplaced workload_wants_networking target_Networking (workload_networking_mutate L)
       (workloads_view c req) (networkings_view c)"
| "desired L K WorkloadObservability req c \<longleftrightarrow>
     child_desired workload_unplaced workload_wants_observability target_Observability (workload_observability_mutate L)
       (workloads_view c req) (observabilities_view c)"
| "desired L K WorkloadSecurity req c \<longleftrightarrow>
     child_desired workload_unplaced workload_wants_security target_Security (workload_security_mutate L)
       (workloads_view c req) (securities_view c)"
| "desired L K ComputeDeployment req c \<longleftrightarrow>
     target_desired compute_unnamed compute_targets_deployment has_scheduling compute_target_key
       (scheduling_transform L (cod_Deployment K)) (computes_view c req) (deployments_view c)"
| "desired L K ComputeHPA req c \<longleftrightarrow>
     child_desired compute_unnamed hpa_enabled target_HPA (hpa_mutate L (cod_HPA K))
       (computes_view c req) (hpas_view c)"
| "desired L K ComputePDB req c \<longleftrightarrow>
     child_desired compute_unnamed has_PDB target_PDB (\<lambda>w. pdb_mutate L (cod_PDB K) w (deployed (deployments_view c) w))
       (computes_view c req) (pdbs_view c)"
| "desired L K StoragePVC req c \<longleftrightarrow>
     claims_desired L (cod_PVC K) (storages_view c req) (pvcs_view c)"
| "desired L K StorageDeployment req c \<longleftrightarrow>
     target_desired storage_unnamed storage_targets_deployment (\<lambda>_. True) storage_target_key
       (volumes_transform L (cod_Deployment K)) (storages_view c req) (deployments_view c)"
| "desired L K NetworkingService req c \<longleftrightarrow>
     child_desired networking_unnamed svc_enabled target_Svc (svc_mutate L (cod_Service K))
       (networkings_view c req) (services_view c)"
| "desired L K NetworkingIngress req c \<longleftrightarrow>
     child_desired networking_unnamed has_ingress target_Ing (ing_mutate L (cod_Ingress K))
       (networkings_view c req) (ingresses_view c)"
| "desired L K ObservabilityServiceMonitor req c \<longleftrightarrow>
     child_desired observability_unnamed sm_wanted target_SM (service_monitor_mutate L)
       (observabilities_view c req) (servicemonitors_view c)"
| "desired L K ObservabilityPodMonitor req c \<longleftrightarrow>
     child_desired observability_unnamed pm_wanted target_PM (pod_monitor_mutate L)
       (observabilities_view c req) (podmonitors_view c)"
| "desired L K SecurityRole req c \<longleftrightarrow>
     child_desired security_unnamed rbac_wanted target_Role (role_mutate L (cod_Role K))
       (securities_view c req) (roles_view c)"
| "desired L K SecurityRoleBinding req c \<longleftrightarrow>
     child_desired security_unnamed rbac_wanted target_RB (rb_mutate L (cod_RoleBinding K))
       (securities_view c req) (rolebindings_view c)"

section \<open>Steps that succeed and change nothing\<close>

lemma child_spec_desired:
  assumes "child_spec skip enabled fresh mutate owner v = (True, v)"
  shows "child_desired skip enabled fresh mutate owner v"
proof (cases owner)
  case (Some w)
  let ?k = "key_of (fresh w)"
  show ?thesis
  proof (cases "skip w \<or> \<not> enabled w")
    case True
    with assms Some show ?thesis
      by (auto simp: child_spec_def child_desired_def dest: fun_cong [of _ _ ?k] split: if_splits)
  next
    case False
    with assms Some obtain y where y: "mutate w (current v ?k (fresh w)) = Inr y" "v(?k \<mapsto> y) = v"
      by (auto simp: child_spec_def split: sum.splits if_splits)
    from fun_cong [OF y(2), of ?k] have "v ?k = Some y" by simp
    with y(1) False Some show ?thesis by (simp add: child_desired_def current_def)
  qed
qed (simp add: child_desired_def)

lemma target_spec_desired:
  assumes "target_spec unnamed applies wanted target transform owner v = (True, v)"
  shows "target_desired unnamed applies wanted target transform owner v"
proof (cases owner)
  case (Some w)
  have "transform w d = Inr d"
    if "\<not> unnamed w" "applies w" "wanted w" and d: "v (target w) = Some d" for d
  proof -
    from assms Some that obtain d' where t: "transform w d = Inr d'" "v(target w \<mapsto> d') = v"
      by (auto simp: target_spec_def split: sum.splits)
    from fun_cong [OF t(2), of "target w"] d t(1) show ?thesis by simp
  qed
  with Some show ?thesis by (auto simp: target_desired_def)
qed (simp add: target_desired_def)

lemma claims_spec_step:
  assumes "claims_spec L cod w vs v = (True, v')" and "distinct (map (claim_key w) vs)" and "vol \<in> set vs"
  shows "\<exists>y. v' (claim_key w vol) = Some y \<and>
    pvc_mutate L cod w vol (current v (claim_key w vol) (target_PVC w vol)) = Inr y"
  using assms
proof (induction vs arbitrary: v)
  case (Cons u us)
  from Cons.prems(1) obtain y where y: "pvc_mutate L cod w u (current v (claim_key w u) (target_PVC w u)) = Inr y"
      "claims_spec L cod w us (v(claim_key w u \<mapsto> y)) = (True, v')"
    by (auto split: sum.splits if_splits)
  show ?case
  proof (cases "vol = u")
    case True
    from Cons.prems(2) have "claim_key w u \<notin> claim_key w ` set us" by simp
    from claims_spec_frame [OF this, of L cod "v(claim_key w u \<mapsto> y)"] y(2)
    have "v' (claim_key w u) = Some y" by simp
    with y(1) True show ?thesis by simp
  next
    case False
    with Cons.prems(3) have vol: "vol \<in> set us" by simp
    with Cons.prems(2) have "claim_key w vol \<noteq> claim_key w u" by (auto simp: image_iff)
    then have "current (v(claim_key w u \<mapsto> y)) (claim_key w vol) (target_PVC w vol) =
        current v (claim_key w vol) (target_PVC w vol)" by (simp add: current_def)
    with Cons.IH [OF y(2) _ vol] Cons.prems(2) show ?thesis by (simp del: fun_upd_apply)
  qed
qed simp

lemma pvc_spec_desired:
  assumes "pvc_spec L cod owner v = (True, v)"
    and "\<And>w. owner = Some w \<Longrightarrow> distinct (map vsp_Name (ss_Volumes (obj_Spec w)))"
  shows "claims_desired L cod owner v"
proof (cases owner)
  case (Some w)
  have "\<exists>y. v (claim_key w vol) = Some y \<and> pvc_mutate L cod w vol y = Inr y"
    if "\<not> storage_unnamed w" and vol: "vol \<in> set (ss_Volumes (obj_Spec w))" for vol
  proof -
    have "claims_spec L cod w (ss_Volumes (obj_Spec w)) v = (True, v)"
      using assms(1) Some that(1) by (simp add: pvc_spec_def)
    moreover have "distinct (map (claim_key w) (ss_Volumes (obj_Spec w)))"
      using assms(2) [OF Some] by (auto simp: distinct_map inj_on_def claim_key_def claim_name_def)
    ultimately show ?thesis using claims_spec_step [OF _ _ vol] by (fastforce simp: current_def)
  qed
  with Some show ?thesis by (auto simp: claims_desired_def)
qed (simp add: claims_desired_def)

text \<open>So the controllers that have nothing to do and no complaint have done their work.\<close>

lemma settled_desired:
  assumes rt: "runtime_lib L" and nf: "lib_IsNotFound L = mem_nf" and calm: "calm c"
    and settled: "settled L K ctl req c"
    and run: "run_state (handler L K mem_client ctl req) c = (None, c')"
  shows "desired L K ctl req c"
proof -
  from calm have h: "mem_healthy c" by (simp add: calm_def)
  show ?thesis
  proof (cases ctl)
    case WorkloadCompute
    from settled workload_compute.pure_refines [OF healthy_nf(1) [OF nf] rt h] run show ?thesis
      unfolding WorkloadCompute handler.simps mem_client_simps desired.simps settled_def own_step.simps
      by - (rule child_spec_desired, simp add: prod_eq_iff)
  next
    case WorkloadStorage
    from settled workload_storage.pure_refines [OF healthy_nf(2) [OF nf] rt h] run show ?thesis
      unfolding WorkloadStorage handler.simps mem_client_simps desired.simps settled_def own_step.simps
      by - (rule child_spec_desired, simp add: prod_eq_iff)
  next
    case WorkloadNetworking
    from settled workload_networking.pure_refines [OF healthy_nf(3) [OF nf] rt h] run show ?thesis
      unfolding WorkloadNetworking handler.simps mem_client_simps desired.simps settled_def own_step.simps
      by - (rule child_spec_desired, simp add: prod_eq_iff)
  next
    case WorkloadObservability
    from settled workload_observability.pure_refines [OF healthy_nf(4) [OF nf] rt h] run show ?thesis
      unfolding WorkloadObservability handler.simps mem_client_simps desired.simps settled_def own_step.simps
      by - (rule child_spec_desired, simp add: prod_eq_iff)
  next
    case WorkloadSecurity
    from settled workload_security.pure_refines [OF healthy_nf(5) [OF nf] rt h] run show ?thesis
      unfolding WorkloadSecurity handler.simps mem_client_simps desired.simps settled_def own_step.simps
      by - (rule child_spec_desired, simp add: prod_eq_iff)
  next
    case ComputeDeployment
    from settled scheduling_step [OF rt nf calm] run show ?thesis
      unfolding ComputeDeployment handler.simps mem_client_simps desired.simps settled_def own_step.simps
      by - (rule target_spec_desired, simp add: prod_eq_iff)
  next
    case ComputeHPA
    from settled hpa.pure_refines [OF healthy_nf(7) [OF nf] rt h] run show ?thesis
      unfolding ComputeHPA handler.simps mem_client_simps desired.simps settled_def own_step.simps
      by - (rule child_spec_desired, simp add: prod_eq_iff)
  next
    case ComputePDB
    from settled mem_pdb_env.pdb_refines_spec [OF rt nf [symmetric] h] run show ?thesis
      unfolding ComputePDB handler.simps mem_client_simps desired.simps settled_def own_step.simps
      by - (rule child_spec_desired, simp add: prod_eq_iff)
  next
    case StoragePVC
    from settled pvc_refines_spec [OF healthy_nf(9) [OF nf] rt h] run show ?thesis
      unfolding StoragePVC handler.simps mem_client_simps desired.simps settled_def own_step.simps
      by - (rule pvc_spec_desired, simp_all add: prod_eq_iff calm_owner(3) [OF calm])
  next
    case StorageDeployment
    from settled volumes_step [OF rt nf calm] run show ?thesis
      unfolding StorageDeployment handler.simps mem_client_simps desired.simps settled_def own_step.simps
      by - (rule target_spec_desired, simp add: prod_eq_iff)
  next
    case NetworkingService
    from settled svc.pure_refines [OF healthy_nf(11) [OF nf] rt h] run show ?thesis
      unfolding NetworkingService handler.simps mem_client_simps desired.simps settled_def own_step.simps
      by - (rule child_spec_desired, simp add: prod_eq_iff)
  next
    case NetworkingIngress
    from settled ing.pure_refines [OF healthy_nf(12) [OF nf] rt h] run show ?thesis
      unfolding NetworkingIngress handler.simps mem_client_simps desired.simps settled_def own_step.simps
      by - (rule child_spec_desired, simp add: prod_eq_iff)
  next
    case ObservabilityServiceMonitor
    from settled servicemonitor.pure_refines [OF healthy_nf(13) [OF nf] rt h] run show ?thesis
      unfolding ObservabilityServiceMonitor handler.simps mem_client_simps desired.simps settled_def own_step.simps
      by - (rule child_spec_desired, simp add: prod_eq_iff)
  next
    case ObservabilityPodMonitor
    from settled podmonitor.pure_refines [OF healthy_nf(14) [OF nf] rt h] run show ?thesis
      unfolding ObservabilityPodMonitor handler.simps mem_client_simps desired.simps settled_def own_step.simps
      by - (rule child_spec_desired, simp add: prod_eq_iff)
  next
    case SecurityRole
    from settled role.pure_refines [OF healthy_nf(15) [OF nf] rt h] run show ?thesis
      unfolding SecurityRole handler.simps mem_client_simps desired.simps settled_def own_step.simps
      by - (rule child_spec_desired, simp add: prod_eq_iff)
  next
    case SecurityRoleBinding
    from settled rolebinding.pure_refines [OF healthy_nf(16) [OF nf] rt h] run show ?thesis
      unfolding SecurityRoleBinding handler.simps mem_client_simps desired.simps settled_def own_step.simps
      by - (rule child_spec_desired, simp add: prod_eq_iff)
  qed
qed

section \<open>A successful run reaches the desired state\<close>

lemma child_made_desired:
  assumes "(True, v') = child_spec skip enabled fresh mutate owner v"
    and "\<And>w x y. owner = Some w \<Longrightarrow> mutate w x = Inr y \<Longrightarrow> mutate w y = Inr y"
  shows "child_desired skip enabled fresh mutate owner v'"
proof (rule child_spec_desired)
  have "v' = snd (child_spec skip enabled fresh mutate owner v)" using assms(1) by (rule snd_of)
  moreover have "child_spec skip enabled fresh mutate owner (snd (child_spec skip enabled fresh mutate owner v)) =
      child_spec skip enabled fresh mutate owner v"
    by (rule child_spec_idem) (use assms(2) in blast)
  ultimately show "child_spec skip enabled fresh mutate owner v' = (True, v')" using assms(1) by metis
qed

lemma target_made_desired:
  assumes "(True, v') = target_spec unnamed applies wanted target transform owner v"
    and "\<And>w d d'. owner = Some w \<Longrightarrow> transform w d = Inr d' \<Longrightarrow> transform w d' = Inr d'"
  shows "target_desired unnamed applies wanted target transform owner v'"
proof (rule target_spec_desired)
  let ?S = "target_spec unnamed applies wanted target transform owner"
  have "v' = snd (?S v)" using assms(1) by (rule snd_of)
  moreover have "?S (snd (?S v)) = ?S v" by (rule target_spec_idem) (use assms(2) in blast)
  ultimately show "?S v' = (True, v')" using assms(1) by metis
qed

lemma claims_made_desired:
  assumes "(True, v') = pvc_spec L cod owner v" and "runtime_lib L"
    and "\<And>w. owner = Some w \<Longrightarrow> ss_EscapeHatches (obj_Spec w) = []"
    and "\<And>w. owner = Some w \<Longrightarrow> distinct (map vsp_Name (ss_Volumes (obj_Spec w)))"
  shows "claims_desired L cod owner v'"
proof (rule pvc_spec_desired [OF _ assms(4)])
  have "v' = snd (pvc_spec L cod owner v)" using assms(1) by (rule snd_of)
  moreover have "pvc_spec L cod owner (snd (pvc_spec L cod owner v)) = pvc_spec L cod owner v"
    using claims_spec_idem [OF assms(2)] assms(3,4) by (simp add: pvc_spec_def split: option.splits)
  ultimately show "pvc_spec L cod owner v' = (True, v')" using assms(1) by metis
qed assumption

lemma handler_desired:
  assumes rt: "runtime_lib L" and nf: "lib_IsNotFound L = mem_nf" and calm: "calm c"
    and run: "run_state (handler L K mem_client ctl req) c = (None, c')"
  shows "desired L K ctl req c'"
proof -
  from calm have h: "mem_healthy c" by (simp add: calm_def)
  note same = kept [OF preservesD [OF handler_isolated run]]
  show ?thesis
  proof (cases ctl)
    case WorkloadCompute
    have o: "workloads_view c' = workloads_view c" using same WorkloadCompute by (simp add: mem_view_def)
    from workload_compute.pure_refines [OF healthy_nf(1) [OF nf] rt h] run
    have st: "(True, computes_view c') = child_spec workload_unplaced workload_wants_compute target_Compute
        (workload_compute_mutate L) (workloads_view c req) (computes_view c)"
      unfolding WorkloadCompute handler.simps mem_client_simps by fastforce
    show ?thesis unfolding WorkloadCompute desired.simps o
      by (rule child_made_desired [OF st]) (blast intro: workload_compute.mutate_idem [OF rt])
  next
    case WorkloadStorage
    have o: "workloads_view c' = workloads_view c" using same WorkloadStorage by (simp add: mem_view_def)
    from workload_storage.pure_refines [OF healthy_nf(2) [OF nf] rt h] run
    have st: "(True, storages_view c') = child_spec workload_unplaced workload_wants_storage target_Storage
        (workload_storage_mutate L) (workloads_view c req) (storages_view c)"
      unfolding WorkloadStorage handler.simps mem_client_simps by fastforce
    show ?thesis unfolding WorkloadStorage desired.simps o
      by (rule child_made_desired [OF st]) (blast intro: workload_storage.mutate_idem [OF rt])
  next
    case WorkloadNetworking
    have o: "workloads_view c' = workloads_view c" using same WorkloadNetworking by (simp add: mem_view_def)
    from workload_networking.pure_refines [OF healthy_nf(3) [OF nf] rt h] run
    have st: "(True, networkings_view c') = child_spec workload_unplaced workload_wants_networking target_Networking
        (workload_networking_mutate L) (workloads_view c req) (networkings_view c)"
      unfolding WorkloadNetworking handler.simps mem_client_simps by fastforce
    show ?thesis unfolding WorkloadNetworking desired.simps o
      by (rule child_made_desired [OF st]) (blast intro: workload_networking.mutate_idem [OF rt])
  next
    case WorkloadObservability
    have o: "workloads_view c' = workloads_view c" using same WorkloadObservability by (simp add: mem_view_def)
    from workload_observability.pure_refines [OF healthy_nf(4) [OF nf] rt h] run
    have st: "(True, observabilities_view c') = child_spec workload_unplaced workload_wants_observability target_Observability
        (workload_observability_mutate L) (workloads_view c req) (observabilities_view c)"
      unfolding WorkloadObservability handler.simps mem_client_simps by fastforce
    show ?thesis unfolding WorkloadObservability desired.simps o
      by (rule child_made_desired [OF st]) (blast intro: workload_observability.mutate_idem [OF rt])
  next
    case WorkloadSecurity
    have o: "workloads_view c' = workloads_view c" using same WorkloadSecurity by (simp add: mem_view_def)
    from workload_security.pure_refines [OF healthy_nf(5) [OF nf] rt h] run
    have st: "(True, securities_view c') = child_spec workload_unplaced workload_wants_security target_Security
        (workload_security_mutate L) (workloads_view c req) (securities_view c)"
      unfolding WorkloadSecurity handler.simps mem_client_simps by fastforce
    show ?thesis unfolding WorkloadSecurity desired.simps o
      by (rule child_made_desired [OF st]) (blast intro: workload_security.mutate_idem [OF rt])
  next
    case ComputeDeployment
    have o: "computes_view c' = computes_view c" using same ComputeDeployment by (simp add: mem_view_def)
    from scheduling_step [OF rt nf calm] run
    have st: "(True, deployments_view c') = target_spec compute_unnamed compute_targets_deployment has_scheduling compute_target_key
        (scheduling_transform L (cod_Deployment K)) (computes_view c req) (deployments_view c)"
      unfolding ComputeDeployment handler.simps mem_client_simps by fastforce
    show ?thesis unfolding ComputeDeployment desired.simps o
      by (rule target_made_desired [OF st]) (auto simp: calm_owner(1) [OF calm] scheduling_transform_plain apply_scheduling_def)
  next
    case ComputeHPA
    have o: "computes_view c' = computes_view c" using same ComputeHPA by (simp add: mem_view_def)
    from hpa.pure_refines [OF healthy_nf(7) [OF nf] rt h] run
    have st: "(True, hpas_view c') = child_spec compute_unnamed hpa_enabled target_HPA
        (hpa_mutate L (cod_HPA K)) (computes_view c req) (hpas_view c)"
      unfolding ComputeHPA handler.simps mem_client_simps by fastforce
    show ?thesis unfolding ComputeHPA desired.simps o
      by (rule child_made_desired [OF st]) (blast intro: mutate_settles(1) [OF rt, OF calm_owner(1) [OF calm]])
  next
    case ComputePDB
    have o: "computes_view c' = computes_view c" using same ComputePDB by (simp add: mem_view_def)
    have d: "deployments_view c' = deployments_view c" using same ComputePDB by (simp add: mem_view_def)
    from mem_pdb_env.pdb_refines_spec [OF rt nf [symmetric] h] run
    have st: "(True, pdbs_view c') = child_spec compute_unnamed has_PDB target_PDB
        (\<lambda>w. pdb_mutate L (cod_PDB K) w (deployed (deployments_view c) w)) (computes_view c req) (pdbs_view c)"
      unfolding ComputePDB handler.simps mem_client_simps by fastforce
    show ?thesis unfolding ComputePDB desired.simps o d
      by (rule child_made_desired [OF st]) (blast intro: mutate_settles(2) [OF rt, OF calm_owner(1) [OF calm]])
  next
    case StoragePVC
    have o: "storages_view c' = storages_view c" using same StoragePVC by (simp add: mem_view_def)
    from pvc_refines_spec [OF healthy_nf(9) [OF nf] rt h] run
    have st: "(True, pvcs_view c') = pvc_spec L (cod_PVC K) (storages_view c req) (pvcs_view c)"
      unfolding StoragePVC handler.simps mem_client_simps by fastforce
    show ?thesis unfolding StoragePVC desired.simps o
      by (rule claims_made_desired [OF st rt]) (simp_all add: calm_owner(2,3) [OF calm])
  next
    case StorageDeployment
    have o: "storages_view c' = storages_view c" using same StorageDeployment by (simp add: mem_view_def)
    from volumes_step [OF rt nf calm] run
    have st: "(True, deployments_view c') = target_spec storage_unnamed storage_targets_deployment (\<lambda>_. True) storage_target_key
        (volumes_transform L (cod_Deployment K)) (storages_view c req) (deployments_view c)"
      unfolding StorageDeployment handler.simps mem_client_simps by fastforce
    show ?thesis unfolding StorageDeployment desired.simps o
      by (rule target_made_desired [OF st]) (auto simp: calm_owner(2,3) [OF calm] volumes_transform_plain mount_volumes_idem)
  next
    case NetworkingService
    have o: "networkings_view c' = networkings_view c" using same NetworkingService by (simp add: mem_view_def)
    from svc.pure_refines [OF healthy_nf(11) [OF nf] rt h] run
    have st: "(True, services_view c') = child_spec networking_unnamed svc_enabled target_Svc
        (svc_mutate L (cod_Service K)) (networkings_view c req) (services_view c)"
      unfolding NetworkingService handler.simps mem_client_simps by fastforce
    show ?thesis unfolding NetworkingService desired.simps o
      by (rule child_made_desired [OF st]) (blast intro: mutate_settles(3) [OF rt, OF calm_owner(4) [OF calm]])
  next
    case NetworkingIngress
    have o: "networkings_view c' = networkings_view c" using same NetworkingIngress by (simp add: mem_view_def)
    from ing.pure_refines [OF healthy_nf(12) [OF nf] rt h] run
    have st: "(True, ingresses_view c') = child_spec networking_unnamed has_ingress target_Ing
        (ing_mutate L (cod_Ingress K)) (networkings_view c req) (ingresses_view c)"
      unfolding NetworkingIngress handler.simps mem_client_simps by fastforce
    show ?thesis unfolding NetworkingIngress desired.simps o
      by (rule child_made_desired [OF st]) (blast intro: mutate_settles(4) [OF rt, OF calm_owner(4) [OF calm]])
  next
    case ObservabilityServiceMonitor
    have o: "observabilities_view c' = observabilities_view c" using same ObservabilityServiceMonitor by (simp add: mem_view_def)
    from servicemonitor.pure_refines [OF healthy_nf(13) [OF nf] rt h] run
    have st: "(True, servicemonitors_view c') = child_spec observability_unnamed sm_wanted target_SM
        (service_monitor_mutate L) (observabilities_view c req) (servicemonitors_view c)"
      unfolding ObservabilityServiceMonitor handler.simps mem_client_simps by fastforce
    show ?thesis unfolding ObservabilityServiceMonitor desired.simps o
      by (rule child_made_desired [OF st]) (blast intro: mutate_settles(5) [OF rt])
  next
    case ObservabilityPodMonitor
    have o: "observabilities_view c' = observabilities_view c" using same ObservabilityPodMonitor by (simp add: mem_view_def)
    from podmonitor.pure_refines [OF healthy_nf(14) [OF nf] rt h] run
    have st: "(True, podmonitors_view c') = child_spec observability_unnamed pm_wanted target_PM
        (pod_monitor_mutate L) (observabilities_view c req) (podmonitors_view c)"
      unfolding ObservabilityPodMonitor handler.simps mem_client_simps by fastforce
    show ?thesis unfolding ObservabilityPodMonitor desired.simps o
      by (rule child_made_desired [OF st]) (blast intro: mutate_settles(6) [OF rt])
  next
    case SecurityRole
    have o: "securities_view c' = securities_view c" using same SecurityRole by (simp add: mem_view_def)
    from role.pure_refines [OF healthy_nf(15) [OF nf] rt h] run
    have st: "(True, roles_view c') = child_spec security_unnamed rbac_wanted target_Role
        (role_mutate L (cod_Role K)) (securities_view c req) (roles_view c)"
      unfolding SecurityRole handler.simps mem_client_simps by fastforce
    show ?thesis unfolding SecurityRole desired.simps o
      by (rule child_made_desired [OF st]) (blast intro: mutate_settles(7) [OF rt, OF calm_owner(5) [OF calm]])
  next
    case SecurityRoleBinding
    have o: "securities_view c' = securities_view c" using same SecurityRoleBinding by (simp add: mem_view_def)
    from rolebinding.pure_refines [OF healthy_nf(16) [OF nf] rt h] run
    have st: "(True, rolebindings_view c') = child_spec security_unnamed rbac_wanted target_RB
        (rb_mutate L (cod_RoleBinding K)) (securities_view c req) (rolebindings_view c)"
      unfolding SecurityRoleBinding handler.simps mem_client_simps by fastforce
    show ?thesis unfolding SecurityRoleBinding desired.simps o
      by (rule child_made_desired [OF st]) (blast intro: mutate_settles(8) [OF rt, OF calm_owner(5) [OF calm]])
  qed
qed

section \<open>What the desired state depends on\<close>

lemma child_desired_local:
  assumes "child_desired skip enabled fresh mutate owner v"
    and "\<forall>k \<in> keys_of (\<lambda>w. {key_of (fresh w)}) owner. v' k = v k"
    and "\<And>w. owner = Some w \<Longrightarrow> mutate' w = mutate w"
  shows "child_desired skip enabled fresh mutate' owner v'"
  using assms by (cases owner) (auto simp: child_desired_def)

lemma target_desired_local:
  assumes "target_desired unnamed applies wanted target transform owner v"
    and "\<forall>k \<in> keys_of (\<lambda>w. {target w}) owner. v' k = v k"
  shows "target_desired unnamed applies wanted target transform owner v'"
  using assms by (cases owner) (auto simp: target_desired_def)

lemma claims_desired_local:
  assumes "claims_desired L cod owner v"
    and "\<forall>k \<in> keys_of (\<lambda>w. claim_key w ` set (ss_Volumes (obj_Spec w))) owner. v' k = v k"
  shows "claims_desired L cod owner v'"
  using assms by (cases owner) (auto simp: claims_desired_def)

lemma desired_local:
  assumes s: "desired L K ctl req c" and o: "owner_same ctl req d c"
    and k: "\<forall>k \<in> touches ctl req c. child_same ctl k d c"
    and sel: "\<And>w. ctl = ComputePDB \<Longrightarrow> computes_view c req = Some w \<Longrightarrow> selector_read d w = selector_read c w"
  shows "desired L K ctl req d"
proof (cases ctl)
  case WorkloadCompute
  have v: "workloads_view d req = workloads_view c req" using o WorkloadCompute by simp
  from s show ?thesis unfolding WorkloadCompute desired.simps v
    by (rule child_desired_local) (use k in \<open>simp_all add: WorkloadCompute\<close>)
next
  case WorkloadStorage
  have v: "workloads_view d req = workloads_view c req" using o WorkloadStorage by simp
  from s show ?thesis unfolding WorkloadStorage desired.simps v
    by (rule child_desired_local) (use k in \<open>simp_all add: WorkloadStorage\<close>)
next
  case WorkloadNetworking
  have v: "workloads_view d req = workloads_view c req" using o WorkloadNetworking by simp
  from s show ?thesis unfolding WorkloadNetworking desired.simps v
    by (rule child_desired_local) (use k in \<open>simp_all add: WorkloadNetworking\<close>)
next
  case WorkloadObservability
  have v: "workloads_view d req = workloads_view c req" using o WorkloadObservability by simp
  from s show ?thesis unfolding WorkloadObservability desired.simps v
    by (rule child_desired_local) (use k in \<open>simp_all add: WorkloadObservability\<close>)
next
  case WorkloadSecurity
  have v: "workloads_view d req = workloads_view c req" using o WorkloadSecurity by simp
  from s show ?thesis unfolding WorkloadSecurity desired.simps v
    by (rule child_desired_local) (use k in \<open>simp_all add: WorkloadSecurity\<close>)
next
  case ComputeDeployment
  have v: "computes_view d req = computes_view c req" using o ComputeDeployment by simp
  from s show ?thesis unfolding ComputeDeployment desired.simps v
    by (rule target_desired_local) (use k in \<open>simp_all add: ComputeDeployment\<close>)
next
  case ComputeHPA
  have v: "computes_view d req = computes_view c req" using o ComputeHPA by simp
  from s show ?thesis unfolding ComputeHPA desired.simps v
    by (rule child_desired_local) (use k in \<open>simp_all add: ComputeHPA\<close>)
next
  case ComputePDB
  have v: "computes_view d req = computes_view c req" using o ComputePDB by simp
  from s show ?thesis unfolding ComputePDB desired.simps v
  proof (rule child_desired_local, goal_cases)
    case 1
    show ?case using k ComputePDB by simp
  next
    case (2 w)
    show ?case by (rule pdb_mutate_cong) (use sel [OF ComputePDB 2] in simp)
  qed
next
  case StoragePVC
  have v: "storages_view d req = storages_view c req" using o StoragePVC by simp
  from s show ?thesis unfolding StoragePVC desired.simps v
    by (rule claims_desired_local) (use k in \<open>simp_all add: StoragePVC\<close>)
next
  case StorageDeployment
  have v: "storages_view d req = storages_view c req" using o StorageDeployment by simp
  from s show ?thesis unfolding StorageDeployment desired.simps v
    by (rule target_desired_local) (use k in \<open>simp_all add: StorageDeployment\<close>)
next
  case NetworkingService
  have v: "networkings_view d req = networkings_view c req" using o NetworkingService by simp
  from s show ?thesis unfolding NetworkingService desired.simps v
    by (rule child_desired_local) (use k in \<open>simp_all add: NetworkingService\<close>)
next
  case NetworkingIngress
  have v: "networkings_view d req = networkings_view c req" using o NetworkingIngress by simp
  from s show ?thesis unfolding NetworkingIngress desired.simps v
    by (rule child_desired_local) (use k in \<open>simp_all add: NetworkingIngress\<close>)
next
  case ObservabilityServiceMonitor
  have v: "observabilities_view d req = observabilities_view c req" using o ObservabilityServiceMonitor by simp
  from s show ?thesis unfolding ObservabilityServiceMonitor desired.simps v
    by (rule child_desired_local) (use k in \<open>simp_all add: ObservabilityServiceMonitor\<close>)
next
  case ObservabilityPodMonitor
  have v: "observabilities_view d req = observabilities_view c req" using o ObservabilityPodMonitor by simp
  from s show ?thesis unfolding ObservabilityPodMonitor desired.simps v
    by (rule child_desired_local) (use k in \<open>simp_all add: ObservabilityPodMonitor\<close>)
next
  case SecurityRole
  have v: "securities_view d req = securities_view c req" using o SecurityRole by simp
  from s show ?thesis unfolding SecurityRole desired.simps v
    by (rule child_desired_local) (use k in \<open>simp_all add: SecurityRole\<close>)
next
  case SecurityRoleBinding
  have v: "securities_view d req = securities_view c req" using o SecurityRoleBinding by simp
  from s show ?thesis unfolding SecurityRoleBinding desired.simps v
    by (rule child_desired_local) (use k in \<open>simp_all add: SecurityRoleBinding\<close>)
qed

text \<open>In the desired state there is nothing to do.\<close>

lemma child_desired_settled:
  assumes "child_desired skip enabled fresh mutate owner v" and "\<And>k y. v k = Some y \<Longrightarrow> key_of y = k"
  shows "snd (child_spec skip enabled fresh mutate owner v) = v"
  using assms
  by (auto simp: child_desired_def child_spec_def current_def fun_upd_idem_iff split: option.splits if_splits)

lemma target_desired_settled:
  assumes "target_desired unnamed applies wanted target transform owner v"
  shows "snd (target_spec unnamed applies wanted target transform owner v) = v"
  using assms by (auto simp: target_desired_def target_spec_def fun_upd_idem_iff split: option.splits)

lemma claims_desired_settled:
  assumes "claims_desired L cod owner v" and key: "\<And>k y. v k = Some y \<Longrightarrow> key_of y = k"
  shows "snd (pvc_spec L cod owner v) = v"
proof (cases owner)
  case (Some w)
  have "claims_spec L cod w vs v = (True, v)"
    if "\<forall>vol \<in> set vs. \<exists>y. v (claim_key w vol) = Some y \<and> pvc_mutate L cod w vol y = Inr y" for vs
    using that
  proof (induction vs)
    case (Cons vol vs)
    then obtain y where y: "v (claim_key w vol) = Some y" "pvc_mutate L cod w vol y = Inr y" by auto
    then have "v(claim_key w vol \<mapsto> y) = v" by (simp add: fun_upd_idem_iff)
    with y Cons key [OF y(1)] show ?case by (simp add: current_def del: fun_upd_apply)
  qed simp
  with assms(1) Some show ?thesis by (auto simp: claims_desired_def pvc_spec_def)
qed (simp add: pvc_spec_def)

lemma desired_settled:
  assumes "desired L K ctl req c"
  shows "settled L K ctl req c"
  unfolding settled_def
proof (cases ctl)
  case WorkloadCompute
  from assms show "own_step L K ctl req c c" unfolding WorkloadCompute desired.simps own_step.simps
    by (rule child_desired_settled [symmetric, OF _ mem_computes.view_key])
next
  case WorkloadStorage
  from assms show "own_step L K ctl req c c" unfolding WorkloadStorage desired.simps own_step.simps
    by (rule child_desired_settled [symmetric, OF _ mem_storages.view_key])
next
  case WorkloadNetworking
  from assms show "own_step L K ctl req c c" unfolding WorkloadNetworking desired.simps own_step.simps
    by (rule child_desired_settled [symmetric, OF _ mem_networkings.view_key])
next
  case WorkloadObservability
  from assms show "own_step L K ctl req c c" unfolding WorkloadObservability desired.simps own_step.simps
    by (rule child_desired_settled [symmetric, OF _ mem_observabilities.view_key])
next
  case WorkloadSecurity
  from assms show "own_step L K ctl req c c" unfolding WorkloadSecurity desired.simps own_step.simps
    by (rule child_desired_settled [symmetric, OF _ mem_securities.view_key])
next
  case ComputeDeployment
  from assms show "own_step L K ctl req c c" unfolding ComputeDeployment desired.simps own_step.simps
    by (rule target_desired_settled [symmetric])
next
  case ComputeHPA
  from assms show "own_step L K ctl req c c" unfolding ComputeHPA desired.simps own_step.simps
    by (rule child_desired_settled [symmetric, OF _ mem_hpas.view_key])
next
  case ComputePDB
  from assms show "own_step L K ctl req c c" unfolding ComputePDB desired.simps own_step.simps
    by (rule child_desired_settled [symmetric, OF _ mem_pdbs.view_key])
next
  case StoragePVC
  from assms show "own_step L K ctl req c c" unfolding StoragePVC desired.simps own_step.simps
    by (rule claims_desired_settled [symmetric, OF _ mem_pvcs.view_key])
next
  case StorageDeployment
  from assms show "own_step L K ctl req c c" unfolding StorageDeployment desired.simps own_step.simps
    by (rule target_desired_settled [symmetric])
next
  case NetworkingService
  from assms show "own_step L K ctl req c c" unfolding NetworkingService desired.simps own_step.simps
    by (rule child_desired_settled [symmetric, OF _ mem_services.view_key])
next
  case NetworkingIngress
  from assms show "own_step L K ctl req c c" unfolding NetworkingIngress desired.simps own_step.simps
    by (rule child_desired_settled [symmetric, OF _ mem_ingresses.view_key])
next
  case ObservabilityServiceMonitor
  from assms show "own_step L K ctl req c c" unfolding ObservabilityServiceMonitor desired.simps own_step.simps
    by (rule child_desired_settled [symmetric, OF _ mem_servicemonitors.view_key])
next
  case ObservabilityPodMonitor
  from assms show "own_step L K ctl req c c" unfolding ObservabilityPodMonitor desired.simps own_step.simps
    by (rule child_desired_settled [symmetric, OF _ mem_podmonitors.view_key])
next
  case SecurityRole
  from assms show "own_step L K ctl req c c" unfolding SecurityRole desired.simps own_step.simps
    by (rule child_desired_settled [symmetric, OF _ mem_roles.view_key])
next
  case SecurityRoleBinding
  from assms show "own_step L K ctl req c c" unfolding SecurityRoleBinding desired.simps own_step.simps
    by (rule child_desired_settled [symmetric, OF _ mem_rolebindings.view_key])
qed

end
