(* ===== verification/Schedules.thy ===== *)
theory Schedules
  imports Convergence Fault_Budget Desired_State
begin

text \<open>
  The operator as an endless run: at every moment some controller works on some request, and
  every request of a finite set is worked on again and again, in whatever order.  Nothing is
  assumed about how the work queue chooses beyond that fairness.  The run comes to rest unless
  two requests compete for one object: first the faults run out, then the Workload controllers
  settle, whose owners nobody writes, then all others.
\<close>

section \<open>Endless runs\<close>

type_synonym work = "controller \<times> key"

definition run_work :: "lib \<Rightarrow> codecs \<Rightarrow> work \<Rightarrow> cluster \<Rightarrow> cluster" where
  "run_work L K p c = snd (run_state (handler L K mem_client (fst p) (snd p)) c)"

primrec run_schedule :: "lib \<Rightarrow> codecs \<Rightarrow> (nat \<Rightarrow> work) \<Rightarrow> cluster \<Rightarrow> nat \<Rightarrow> cluster" where
  "run_schedule L K sched c 0 = c"
| "run_schedule L K sched c (Suc n) = run_work L K (sched n) (run_schedule L K sched c n)"

definition fair_for :: "work set \<Rightarrow> (nat \<Rightarrow> work) \<Rightarrow> bool" where
  "fair_for R sched \<longleftrightarrow> range sched \<subseteq> R \<and> (\<forall>p \<in> R. \<forall>n. \<exists>m \<ge> n. sched m = p)"

definition no_rivals :: "work set \<Rightarrow> cluster \<Rightarrow> bool" where
  "no_rivals R c \<longleftrightarrow> (\<forall>p \<in> R. \<forall>q \<in> R. p \<noteq> q \<longrightarrow> \<not> competes p q c)"

text \<open>One request per controller never competes.\<close>

lemma one_request_each:
  assumes "inj_on fst R"
  shows "no_rivals R c"
  using assms written_kind_eq unfolding no_rivals_def competes_def inj_on_def by metis

lemma eventually_all:
  fixes Z :: "'p \<Rightarrow> nat \<Rightarrow> bool"
  assumes "finite P" and "\<And>p. p \<in> P \<Longrightarrow> \<exists>m \<ge> N. Z p m"
    and "\<And>p n. p \<in> P \<Longrightarrow> N \<le> n \<Longrightarrow> Z p n \<Longrightarrow> Z p (Suc n)"
  shows "\<exists>M \<ge> N. \<forall>p \<in> P. \<forall>n \<ge> M. Z p n"
  using assms
proof (induction P)
  case empty
  then show ?case by blast
next
  case (insert p P)
  from insert.IH insert.prems obtain M where M: "N \<le> M" "\<forall>q \<in> P. \<forall>n \<ge> M. Z q n" by blast
  from insert.prems(1) obtain m where m: "N \<le> m" "Z p m" by blast
  have "Z p n" if "m \<le> n" for n
    using that
  proof (induction rule: dec_induct)
    case base
    from m(2) show ?case .
  next
    case (step n)
    with m(1) show ?case by (intro insert.prems(2)) simp_all
  qed
  with M m(1) show ?case by (intro exI [of _ "max M m"]) auto
qed

section \<open>One step of an endless run\<close>

lemma run_work_facts:
  assumes "runtime_lib L" and "lib_IsNotFound L = mem_nf" and "calm c"
  shows "calm (run_work L K p c)"
    and "settled L K (fst p) (snd p) (run_work L K p c)"
    and "apart_from (fst p) (run_work L K p c) = apart_from (fst p) c"
    and "settled L K (fst p) (snd p) c \<Longrightarrow> same_objects (run_work L K p c) c"
proof -
  obtain r c' where run: "run_state (handler L K mem_client (fst p) (snd p)) c = (r, c')"
    by (metis surj_pair)
  then have c': "run_work L K p c = c'" by (simp add: run_work_def)
  note s = handler_settles [OF assms run]
  from s show "settled L K (fst p) (snd p) (run_work L K p c)" by (simp add: c')
  from s handler_calm [OF assms run] show "calm (run_work L K p c)" by (simp add: c')
  from preservesD [OF handler_isolated run]
  show "apart_from (fst p) (run_work L K p c) = apart_from (fst p) c" by (simp add: c')
  show "same_objects (run_work L K p c) c" if "settled L K (fst p) (snd p) c"
    using settled_stable [OF assms run that] by (simp add: c')
qed

lemma run_work_keeps:
  assumes "runtime_lib L" and "lib_IsNotFound L = mem_nf" and "calm c"
    and "settled L K (fst q) (snd q) c" and "owner_same (fst q) (snd q) (run_work L K p c) c"
    and "q \<noteq> p \<Longrightarrow> \<not> competes q p c"
  shows "settled L K (fst q) (snd q) (run_work L K p c)"
proof (cases "q = p")
  case True
  with run_work_facts(2) [OF assms(1-3)] show ?thesis by blast
next
  case False
  obtain r c' where run: "run_state (handler L K mem_client (fst p) (snd p)) c = (r, c')"
    by (metis surj_pair)
  then have c': "run_work L K p c = c'" by (simp add: run_work_def)
  from settled_kept [OF assms(1-3) run assms(4)] assms(5,6) False show ?thesis by (simp add: c')
qed

lemma same_objects_owner: "same_objects c d \<Longrightarrow> owner_same a k c d"
  by (cases a) (simp_all add: same_objects_def)

lemma same_objects_trans: "same_objects c d \<Longrightarrow> same_objects d e \<Longrightarrow> same_objects c e"
  by (simp add: same_objects_def)

lemma nobody_writes_workloads: "written_kind b \<noteq> ''Workload''"
  by (cases b) simp_all

text \<open>Owners are Workloads or what the Workload controllers write.\<close>

lemma owners_written:
  "setup_For (setup_of a) = written_kind b \<Longrightarrow> setup_For (setup_of b) = ''Workload''"
  by (cases a; cases b) (simp_all add: setup_defs)

section \<open>Every fair run comes to rest\<close>

text \<open>
  Without faults: the Workload controllers first, then the others.  It is enough that every
  request is settled again and again; idle moments do no harm.
\<close>

lemma recurrent_runs_come_to_rest:
  assumes "runtime_lib L" and "lib_IsNotFound L = mem_nf" and calm: "\<And>n. calm (s n)"
    and "finite R" and sched: "\<And>n. sched n \<in> R"
    and step: "\<And>n. s (Suc n) = s n \<or> s (Suc n) = run_work L K (sched n) (s n)"
    and again: "\<And>p N. p \<in> R \<Longrightarrow> \<exists>m \<ge> N. settled L K (fst p) (snd p) (s m)"
    and alone: "\<And>n. no_rivals R (s n)"
  shows "\<exists>N. \<forall>n \<ge> N. same_objects (s n) (s N) \<and> same_objects (s (Suc n)) (s n) \<and>
    (\<forall>p \<in> R. settled L K (fst p) (snd p) (s n))"
proof -
  let ?Z = "\<lambda>p n. settled L K (fst p) (snd p) (s n)"
  note facts = run_work_facts [OF assms(1,2)]
  have keep: "?Z p (Suc n)" if "p \<in> R" and "?Z p n" and "owner_same (fst p) (snd p) (s (Suc n)) (s n)" for p n
  proof -
    from that(1) sched alone have "p \<noteq> sched n \<Longrightarrow> \<not> competes p (sched n) (s n)"
      unfolding no_rivals_def by blast
    with run_work_keeps [OF assms(1,2) calm that(2), of "sched n"] that(2,3) step [of n] show ?thesis by metis
  qed
  have refl: "same_objects c c" for c by (simp add: same_objects_def)
  have apart: "apart_from (fst (sched n)) (s (Suc n)) = apart_from (fst (sched n)) (s n)" for n
    using step [of n] facts(3) [OF calm] by metis
  have quiet: "same_objects (s (Suc n)) (s n)" if "?Z (sched n) n" for n
    using step [of n] facts(4) [OF calm that] refl by metis
  let ?first = "{p \<in> R. setup_For (setup_of (fst p)) = ''Workload''}"
  have "\<exists>N \<ge> 0. \<forall>p \<in> ?first. \<forall>n \<ge> N. ?Z p n"
  proof (rule eventually_all)
    fix p n assume p: "p \<in> ?first" and "?Z p n"
    moreover have "owner_same (fst p) (snd p) (s (Suc n)) (s n)"
      by (rule owner_kept [OF apart]) (use p nobody_writes_workloads in \<open>simp add: eq_commute\<close>)
    ultimately show "?Z p (Suc n)" using keep by blast
  qed (use assms(4) in simp, use again in blast)
  then obtain N where N: "\<forall>p \<in> ?first. \<forall>n \<ge> N. ?Z p n" by blast
  have owners: "owner_same (fst p) (snd p) (s (Suc n)) (s n)" if "N \<le> n" for p n
  proof (cases "setup_For (setup_of (fst p)) = written_kind (fst (sched n))")
    case True
    with sched owners_written have "sched n \<in> ?first" by auto
    with N that have "?Z (sched n) n" by blast
    with quiet same_objects_owner show ?thesis by blast
  next
    case False
    then show ?thesis by (rule owner_kept [OF apart])
  qed
  have "\<exists>M \<ge> N. \<forall>p \<in> R. \<forall>n \<ge> M. ?Z p n"
    by (rule eventually_all) (use assms(4) again keep owners in blast)+
  then obtain M where M: "\<forall>p \<in> R. \<forall>n \<ge> M. ?Z p n" by blast
  have "same_objects (s n) (s M)" if "M \<le> n" for n
    using that
  proof (induction rule: dec_induct)
    case base
    show ?case by (rule refl)
  next
    case (step n)
    with M sched quiet have "same_objects (s (Suc n)) (s n)" by simp
    with step.IH show ?case using same_objects_trans by blast
  qed
  with M sched quiet show ?thesis by blast
qed

lemma calm_runs_come_to_rest:
  assumes "runtime_lib L" and "lib_IsNotFound L = mem_nf" and "calm c"
    and "finite R" and "fair_for R sched"
    and "\<forall>n. no_rivals R (run_schedule L K sched c n)"
  shows "\<exists>N. \<forall>n \<ge> N. same_objects (run_schedule L K sched c n) (run_schedule L K sched c N) \<and>
    calm (run_schedule L K sched c n) \<and>
    (\<forall>p \<in> R. settled L K (fst p) (snd p) (run_schedule L K sched c n))"
proof -
  let ?s = "run_schedule L K sched c"
  note facts = run_work_facts [OF assms(1,2)]
  have calm: "calm (?s n)" for n by (induction n) (simp_all add: assms(3) facts(1))
  have again: "\<exists>m \<ge> N. settled L K (fst p) (snd p) (?s m)" if p: "p \<in> R" for p N
  proof -
    from p assms(5) obtain m where "N \<le> m" "sched m = p" unfolding fair_for_def by blast
    with facts(2) [OF calm, of K p m] show ?thesis by (intro exI [of _ "Suc m"]) simp
  qed
  have "\<exists>N. \<forall>n \<ge> N. same_objects (?s n) (?s N) \<and> same_objects (?s (Suc n)) (?s n) \<and>
      (\<forall>p \<in> R. settled L K (fst p) (snd p) (?s n))"
  proof (rule recurrent_runs_come_to_rest [OF assms(1,2) calm assms(4)])
    show "sched n \<in> R" for n using assms(5) by (auto simp: fair_for_def)
    show "?s (Suc n) = ?s n \<or> ?s (Suc n) = run_work L K (sched n) (?s n)" for n by simp
  qed (use again assms(6) in blast)+
  with calm show ?thesis by blast
qed

text \<open>Faults delay this and no more: each run uses up at least one of them.\<close>

lemma run_schedule_shift:
  "run_schedule L K sched c (n + m) =
     run_schedule L K (\<lambda>i. sched (i + m)) (run_schedule L K sched c m) n"
  by (induction n) simp_all

lemma fair_for_shift:
  assumes "fair_for R sched"
  shows "fair_for R (\<lambda>i. sched (i + m))"
proof -
  have "\<exists>k \<ge> n. sched (k + m) = p" if p: "p \<in> R" for p n
  proof -
    from p assms obtain k where "n + m \<le> k" "sched k = p" unfolding fair_for_def by blast
    then show ?thesis by (intro exI [of _ "k - m"]) simp
  qed
  with assms show ?thesis unfolding fair_for_def by blast
qed

lemma run_schedule_sane:
  assumes "runtime_lib L" and "lib_IsNotFound L = mem_nf" and "sane c"
  shows "sane (run_schedule L K sched c n) \<and>
    length (cl_faults (run_schedule L K sched c n)) \<le> length (cl_faults c) - n"
proof (induction n)
  case (Suc n)
  let ?c = "run_schedule L K sched c n"
  obtain r c' where run: "run_state (handler L K mem_client (fst (sched n)) (snd (sched n))) ?c = (r, c')"
    by (metis surj_pair)
  from handler_sane [OF assms(1,2) _ run] spendsD [OF handler_spends run] Suc show ?case
    by (auto simp: run_work_def run)
qed (use assms(3) in simp)

text \<open>
  C1: Let the controllers work on a finite set of requests for ever, in any order that comes
  back to every request again and again, on a cluster without escape hatches and repeated
  volume names, in which finitely many calls fail, and suppose that no two of the requests ever
  compete for one object.  Then the operator comes to rest: from some moment on, no run changes any object, and every request
  whose runs report success by then is in its desired state.
\<close>

theorem fair_runs_come_to_rest:
  assumes "runtime_lib L" and "lib_IsNotFound L = mem_nf" and "sane c"
    and "finite R" and "fair_for R sched"
    and "\<forall>n. no_rivals R (run_schedule L K sched c n)"
  shows "\<exists>N. \<forall>n \<ge> N. same_objects (run_schedule L K sched c n) (run_schedule L K sched c N) \<and>
    (\<forall>(ctl, req) \<in> R.
       fst (run_state (handler L K mem_client ctl req) (run_schedule L K sched c n)) = None \<longrightarrow>
       desired L K ctl req (run_schedule L K sched c n))"
proof -
  let ?F = "length (cl_faults c)"
  let ?d = "run_schedule L K sched c ?F"
  note shift = run_schedule_shift [of L K sched c _ ?F]
  have "calm ?d" using run_schedule_sane [OF assms(1-3), of K sched ?F] by (simp add: calm_sane)
  from calm_runs_come_to_rest [OF assms(1,2) this assms(4) fair_for_shift [OF assms(5)], of K ?F] assms(6)
  obtain N where N: "\<forall>n \<ge> N.
      same_objects (run_schedule L K sched c (n + ?F)) (run_schedule L K sched c (N + ?F)) \<and>
      calm (run_schedule L K sched c (n + ?F)) \<and>
      (\<forall>p \<in> R. settled L K (fst p) (snd p) (run_schedule L K sched c (n + ?F)))"
    unfolding shift [symmetric] by blast
  have rest: "same_objects (run_schedule L K sched c n) (run_schedule L K sched c (N + ?F))"
    "calm (run_schedule L K sched c n)" "\<forall>p \<in> R. settled L K (fst p) (snd p) (run_schedule L K sched c n)"
    if "N + ?F \<le> n" for n
    using N [rule_format, of "n - ?F"] that by simp_all
  have "desired L K ctl req (run_schedule L K sched c n)"
    if "N + ?F \<le> n" "(ctl, req) \<in> R"
      "fst (run_state (handler L K mem_client ctl req) (run_schedule L K sched c n)) = None" for n ctl req
    using bspec [OF rest(3) [OF that(1)] that(2)] run_state_outcome [OF that(3)]
      settled_desired [OF assms(1,2) rest(2) [OF that(1)]] by simp
  with rest(1) show ?thesis by blast
qed

text \<open>Round robin over the sixteen controllers; two requests and two answers get lost.\<close>

definition round_robin :: "nat \<Rightarrow> work" where
  "round_robin n = (let ctl = all_controllers ! (n mod 16) in (ctl, sample_reqs ctl))"

lemma round_robin_fair: "fair_for ((\<lambda>ctl. (ctl, sample_reqs ctl)) ` set all_controllers) round_robin"
proof -
  have len: "length all_controllers = 16" by (simp add: all_controllers_def)
  then have "range round_robin \<subseteq> (\<lambda>ctl. (ctl, sample_reqs ctl)) ` set all_controllers"
    by (auto simp: round_robin_def Let_def)
  moreover have "\<exists>m \<ge> n. round_robin m = (ctl, sample_reqs ctl)" if "ctl \<in> set all_controllers" for ctl n
  proof -
    from that len obtain i where i: "i < 16" "all_controllers ! i = ctl" by (metis in_set_conv_nth)
    then have "round_robin (16 * n + i) = (ctl, sample_reqs ctl)" by (simp add: round_robin_def Let_def)
    then show ?thesis by (intro exI [of _ "16 * n + i"]) simp
  qed
  ultimately show ?thesis unfolding fair_for_def by blast
qed

definition troubled_cluster :: cluster where
  "troubled_cluster =
     fresh_cluster\<lparr>cl_faults := [Drop ''timeout'', Pass, Lost ''timeout'', Drop ''EOF'', Lost ''EOF'']\<rparr>"

lemma troubled_cluster_sane: "sane troubled_cluster"
proof -
  have "troubled_cluster\<lparr>cl_faults := []\<rparr> = fresh_cluster\<lparr>cl_faults := []\<rparr>"
    by (simp add: troubled_cluster_def)
  moreover have "sane fresh_cluster" using fresh_cluster_calm by (simp add: calm_sane)
  ultimately show ?thesis by (simp add: sane_def)
qed

theorem fair_runs_come_to_rest_witness:
  "\<exists>N. \<forall>n \<ge> N. same_objects (run_schedule mem_lib trivial_codecs round_robin troubled_cluster n)
     (run_schedule mem_lib trivial_codecs round_robin troubled_cluster N) \<and>
     (\<forall>ctl. fst (sample_handler ctl (sample_reqs ctl)
          (run_schedule mem_lib trivial_codecs round_robin troubled_cluster n)) = None \<longrightarrow>
        desired mem_lib trivial_codecs ctl (sample_reqs ctl)
          (run_schedule mem_lib trivial_codecs round_robin troubled_cluster n))"
proof -
  let ?R = "(\<lambda>ctl. (ctl, sample_reqs ctl)) ` set all_controllers"
  have "inj_on fst ?R" by (auto simp: inj_on_def)
  then have alone: "\<forall>n. no_rivals ?R (run_schedule mem_lib trivial_codecs round_robin troubled_cluster n)"
    using one_request_each by blast
  have "finite ?R" by simp
  from fair_runs_come_to_rest [OF mem_lib.runtime_lib_axioms, OF mem_lib_simps(2), OF troubled_cluster_sane,
      OF this, OF round_robin_fair, OF alone]
  obtain N where N: "\<forall>n \<ge> N. same_objects (run_schedule mem_lib trivial_codecs round_robin troubled_cluster n)
      (run_schedule mem_lib trivial_codecs round_robin troubled_cluster N) \<and>
    (\<forall>(ctl, req) \<in> ?R. fst (sample_handler ctl req
        (run_schedule mem_lib trivial_codecs round_robin troubled_cluster n)) = None \<longrightarrow>
      desired mem_lib trivial_codecs ctl req (run_schedule mem_lib trivial_codecs round_robin troubled_cluster n))" ..
  have "ctl \<in> set all_controllers" for ctl by (cases ctl) (simp_all add: all_controllers_def)
  then have "set all_controllers = UNIV" by blast
  with N show ?thesis by (intro exI [of _ N]) simp
qed

end
