(* ===== verification/Watches.thy ===== *)
theory Watches
  imports Schedules
begin

text \<open>
  What makes a controller run: the watches its \<^verbatim>\<open>SetupWithManager\<close> declares.  A change of the
  cluster raises an event for every object that differs, and the builder of
  controller-runtime (a parameter, with the laws \<open>watch_lib\<close>) turns it into requests for the
  owner itself (\<^verbatim>\<open>For\<close>) or the controller reference of a child (\<^verbatim>\<open>Owns\<close>); a change of a
  Deployment goes through the map functions of the two controllers that patch Deployments.
  The question is whether the declarations suffice: is every request whose outcome a change
  could have spoilt put in the queue?  \<open>unseen\<close> lists the changes that escape them.
\<close>

section \<open>Events and requests\<close>

text \<open>The controller reference of an object, as \<^verbatim>\<open>metav1.GetControllerOf\<close> reads it.\<close>

definition controller_of :: "ObjectMeta \<Rightarrow> (string \<times> string) option" where
  "controller_of m = (case controllers_of m of [] \<Rightarrow> None | r # _ \<Rightarrow> Some r)"

text \<open>
  \<open>Q s kind m\<close>: the requests the builder's \<^verbatim>\<open>For\<close> and \<^verbatim>\<open>Owns\<close> watches of set-up \<open>s\<close> raise for an
  object of that kind with header \<open>m\<close>.  The request for an owner has no namespace when the
  kind of the owner is cluster-scoped, as Workload is.
\<close>

locale watch_lib =
  fixes Q :: "controller_setup \<Rightarrow> string \<Rightarrow> ObjectMeta \<Rightarrow> key set"
  assumes for_requests: "(om_Namespace m, om_Name m) \<in> Q s (setup_For s) m"
    and owns_requests:
      "kind \<in> set (setup_Owns s) \<Longrightarrow> controller_of m = Some (setup_For s, n) \<Longrightarrow>
         (if setup_For s = ''Workload'' then '''' else om_Namespace m, n) \<in> Q s kind m"
    and silent: "kind \<noteq> setup_For s \<Longrightarrow> kind \<notin> set (setup_Owns s) \<Longrightarrow> Q s kind m = {}"

text \<open>The objects that differ between two stores, in their old and their new version.\<close>

definition changed :: "(key \<Rightarrow> 'a option) \<Rightarrow> (key \<Rightarrow> 'a option) \<Rightarrow> 'a set" where
  "changed v v' = {x. \<exists>k. v k \<noteq> v' k \<and> (v k = Some x \<or> v' k = Some x)}"

lemma changed_same [simp]: "changed v v = {}"
  by (simp add: changed_def)

lemma changedI:
  "v k \<noteq> v' k \<Longrightarrow> v k = Some x \<Longrightarrow> x \<in> changed v v'"
  "v k \<noteq> v' k \<Longrightarrow> v' k = Some x \<Longrightarrow> x \<in> changed v v'"
  "v k = Some x \<Longrightarrow> v' k \<noteq> Some x \<Longrightarrow> x \<in> changed v v'"
  "v' k = Some x \<Longrightarrow> Some x \<noteq> v k \<Longrightarrow> x \<in> changed v v'"
  subgoal unfolding changed_def by blast
  subgoal unfolding changed_def by blast
  subgoal unfolding changed_def by (rule CollectI, rule exI [of _ k]) simp
  subgoal unfolding changed_def by (rule CollectI, rule exI [of _ k]) auto
  done

definition tagged :: "string \<Rightarrow> ('a, 'b) object set \<Rightarrow> (string \<times> ObjectMeta) set" where
  "tagged kind xs = (\<lambda>x. (kind, obj_Meta x)) ` xs"

lemma taggedI: "x \<in> xs \<Longrightarrow> (kind, obj_Meta x) \<in> tagged kind xs"
  by (simp add: tagged_def)

definition events :: "cluster \<Rightarrow> cluster \<Rightarrow> (string \<times> ObjectMeta) set" where
  "events c d =
     tagged ''Workload'' (changed (workloads_view c) (workloads_view d)) \<union>
     tagged ''Compute'' (changed (computes_view c) (computes_view d)) \<union>
     tagged ''Storage'' (changed (storages_view c) (storages_view d)) \<union>
     tagged ''Networking'' (changed (networkings_view c) (networkings_view d)) \<union>
     tagged ''Observability'' (changed (observabilities_view c) (observabilities_view d)) \<union>
     tagged ''Security'' (changed (securities_view c) (securities_view d)) \<union>
     tagged ''Deployment'' (changed (deployments_view c) (deployments_view d)) \<union>
     tagged ''HorizontalPodAutoscaler'' (changed (hpas_view c) (hpas_view d)) \<union>
     tagged ''PodDisruptionBudget'' (changed (pdbs_view c) (pdbs_view d)) \<union>
     tagged ''PersistentVolumeClaim'' (changed (pvcs_view c) (pvcs_view d)) \<union>
     tagged ''Service'' (changed (services_view c) (services_view d)) \<union>
     tagged ''Ingress'' (changed (ingresses_view c) (ingresses_view d)) \<union>
     tagged ''PodMonitor'' (changed (podmonitors_view c) (podmonitors_view d)) \<union>
     tagged ''ServiceMonitor'' (changed (servicemonitors_view c) (servicemonitors_view d)) \<union>
     tagged ''Role'' (changed (roles_view c) (roles_view d)) \<union>
     tagged ''RoleBinding'' (changed (rolebindings_view c) (rolebindings_view d))"

text \<open>
  The map functions \<^verbatim>\<open>findComputesForDeployment\<close> and \<^verbatim>\<open>findStoragesForDeployment\<close>, which list the
  owners after the change.
\<close>

fun mapped :: "controller \<Rightarrow> Deployment \<Rightarrow> cluster \<Rightarrow> key list" where
  "mapped ComputeDeployment x c = fst (run_state (findComputesForDeployment computes_api x) c)"
| "mapped StorageDeployment x c = fst (run_state (findStoragesForDeployment storages_api x) c)"
| "mapped _ x c = []"

definition requests ::
    "(controller_setup \<Rightarrow> string \<Rightarrow> ObjectMeta \<Rightarrow> key set) \<Rightarrow> cluster \<Rightarrow> cluster \<Rightarrow> work set" where
  "requests Q c d =
     {(ctl, req). \<exists>(kind, m) \<in> events c d. req \<in> Q (setup_of ctl) kind m} \<union>
     {(ctl, req). ''Deployment'' \<in> set (setup_Watches (setup_of ctl)) \<and>
        (\<exists>x \<in> changed (deployments_view c) (deployments_view d). req \<in> set (mapped ctl x d))}"

section \<open>Children and their controller\<close>

text \<open>The headers of the objects of the kind a controller writes.\<close>

fun child_meta :: "controller \<Rightarrow> key \<Rightarrow> cluster \<Rightarrow> ObjectMeta option" where
  "child_meta WorkloadCompute k d = map_option obj_Meta (computes_view d k)"
| "child_meta WorkloadStorage k d = map_option obj_Meta (storages_view d k)"
| "child_meta WorkloadNetworking k d = map_option obj_Meta (networkings_view d k)"
| "child_meta WorkloadObservability k d = map_option obj_Meta (observabilities_view d k)"
| "child_meta WorkloadSecurity k d = map_option obj_Meta (securities_view d k)"
| "child_meta ComputeDeployment k d = map_option obj_Meta (deployments_view d k)"
| "child_meta ComputeHPA k d = map_option obj_Meta (hpas_view d k)"
| "child_meta ComputePDB k d = map_option obj_Meta (pdbs_view d k)"
| "child_meta StoragePVC k d = map_option obj_Meta (pvcs_view d k)"
| "child_meta StorageDeployment k d = map_option obj_Meta (deployments_view d k)"
| "child_meta NetworkingService k d = map_option obj_Meta (services_view d k)"
| "child_meta NetworkingIngress k d = map_option obj_Meta (ingresses_view d k)"
| "child_meta ObservabilityServiceMonitor k d = map_option obj_Meta (servicemonitors_view d k)"
| "child_meta ObservabilityPodMonitor k d = map_option obj_Meta (podmonitors_view d k)"
| "child_meta SecurityRole k d = map_option obj_Meta (roles_view d k)"
| "child_meta SecurityRoleBinding k d = map_option obj_Meta (rolebindings_view d k)"

text \<open>A request is idle when its owner is gone or names no target.\<close>

fun idle :: "controller \<Rightarrow> key \<Rightarrow> cluster \<Rightarrow> bool" where
  "idle WorkloadCompute req d \<longleftrightarrow> pred_option workload_unplaced (workloads_view d req)"
| "idle WorkloadStorage req d \<longleftrightarrow> pred_option workload_unplaced (workloads_view d req)"
| "idle WorkloadNetworking req d \<longleftrightarrow> pred_option workload_unplaced (workloads_view d req)"
| "idle WorkloadObservability req d \<longleftrightarrow> pred_option workload_unplaced (workloads_view d req)"
| "idle WorkloadSecurity req d \<longleftrightarrow> pred_option workload_unplaced (workloads_view d req)"
| "idle ComputeDeployment req d \<longleftrightarrow> pred_option compute_unnamed (computes_view d req)"
| "idle ComputeHPA req d \<longleftrightarrow> pred_option compute_unnamed (computes_view d req)"
| "idle ComputePDB req d \<longleftrightarrow> pred_option compute_unnamed (computes_view d req)"
| "idle StoragePVC req d \<longleftrightarrow> pred_option storage_unnamed (storages_view d req)"
| "idle StorageDeployment req d \<longleftrightarrow> pred_option storage_unnamed (storages_view d req)"
| "idle NetworkingService req d \<longleftrightarrow> pred_option networking_unnamed (networkings_view d req)"
| "idle NetworkingIngress req d \<longleftrightarrow> pred_option networking_unnamed (networkings_view d req)"
| "idle ObservabilityServiceMonitor req d \<longleftrightarrow> pred_option observability_unnamed (observabilities_view d req)"
| "idle ObservabilityPodMonitor req d \<longleftrightarrow> pred_option observability_unnamed (observabilities_view d req)"
| "idle SecurityRole req d \<longleftrightarrow> pred_option security_unnamed (securities_view d req)"
| "idle SecurityRoleBinding req d \<longleftrightarrow> pred_option security_unnamed (securities_view d req)"

definition patcher :: "controller \<Rightarrow> bool" where
  "patcher ctl \<longleftrightarrow> ctl \<in> {ComputeDeployment, StorageDeployment}"

definition monitor :: "controller \<Rightarrow> bool" where
  "monitor ctl \<longleftrightarrow> ctl \<in> {ObservabilityServiceMonitor, ObservabilityPodMonitor}"

text \<open>
  The header names the owner of the request as its controller, in the namespace where the
  builder looks for it.
\<close>

definition controlled :: "controller \<Rightarrow> key \<Rightarrow> ObjectMeta \<Rightarrow> bool" where
  "controlled ctl req m \<longleftrightarrow>
     controller_of m = Some (setup_For (setup_of ctl), snd req) \<and>
     fst req = (if setup_For (setup_of ctl) = ''Workload'' then '''' else om_Namespace m)"

text \<open>
  A request is tended when its objects are as desired and the children it has are under the
  control of its owner.
\<close>

definition tended :: "lib \<Rightarrow> codecs \<Rightarrow> controller \<Rightarrow> key \<Rightarrow> cluster \<Rightarrow> bool" where
  "tended L K ctl req c \<longleftrightarrow> desired L K ctl req c \<and>
     (idle ctl req c \<or> patcher ctl \<or>
      (\<forall>k \<in> touches ctl req c. pred_option (controlled ctl req) (child_meta ctl k c)))"

text \<open>
  The changes no watch reports to the controller of a request: any change of a monitor; the
  appearance of a child it did not create; for a budget, a new selector of the Deployment.
\<close>

definition unseen :: "controller \<Rightarrow> key \<Rightarrow> cluster \<Rightarrow> cluster \<Rightarrow> bool" where
  "unseen ctl req c d \<longleftrightarrow>
     (\<exists>k \<in> touches ctl req c. \<not> child_same ctl k d c \<and> \<not> patcher ctl \<and>
        (monitor ctl \<or> child_meta ctl k c = None \<and> \<not> pred_option (controlled ctl req) (child_meta ctl k d))) \<or>
     ctl = ComputePDB \<and> pred_option (\<lambda>w. selector_read d w \<noteq> selector_read c w) (computes_view c req) \<and>
       computes_view c req \<noteq> None"

section \<open>What a tended request depends on\<close>

lemmas mem_view_keys =
  mem_workloads.view_key mem_computes.view_key mem_storages.view_key mem_networkings.view_key
  mem_observabilities.view_key mem_securities.view_key mem_deployments.view_key
  mem_hpas.view_key mem_pdbs.view_key mem_pvcs.view_key mem_services.view_key
  mem_ingresses.view_key mem_podmonitors.view_key mem_servicemonitors.view_key
  mem_roles.view_key mem_rolebindings.view_key

lemma idle_desired: "idle ctl req c \<Longrightarrow> desired L K ctl req c"
  by (cases ctl) (auto simp: child_desired_def target_desired_def claims_desired_def split: option.splits)

lemma owner_same_touches: "owner_same ctl req d c \<Longrightarrow> touches ctl req d = touches ctl req c"
  by (cases ctl) simp_all

lemma owner_same_idle: "owner_same ctl req d c \<Longrightarrow> idle ctl req d = idle ctl req c"
  by (cases ctl) simp_all

lemma child_same_meta: "child_same ctl k d c \<Longrightarrow> child_meta ctl k d = child_meta ctl k c"
  by (cases ctl) simp_all

lemma child_gone: "child_meta ctl k c = None \<Longrightarrow> child_meta ctl k d = None \<Longrightarrow> child_same ctl k d c"
  by (cases ctl) simp_all

lemma changed_at:
  assumes "v k \<noteq> v' k" and "\<And>x. v k = Some x \<Longrightarrow> P x" and "\<And>x. v' k = Some x \<Longrightarrow> P x"
  shows "\<exists>x \<in> changed v v'. P x"
  using assms unfolding changed_def by (cases "v k"; cases "v' k") fastforce+

lemma event_kinds:
  "x1 \<in> changed (workloads_view c) (workloads_view d) \<Longrightarrow> (''Workload'', obj_Meta x1) \<in> events c d"
  "x2 \<in> changed (computes_view c) (computes_view d) \<Longrightarrow> (''Compute'', obj_Meta x2) \<in> events c d"
  "x3 \<in> changed (storages_view c) (storages_view d) \<Longrightarrow> (''Storage'', obj_Meta x3) \<in> events c d"
  "x4 \<in> changed (networkings_view c) (networkings_view d) \<Longrightarrow> (''Networking'', obj_Meta x4) \<in> events c d"
  "x5 \<in> changed (observabilities_view c) (observabilities_view d) \<Longrightarrow> (''Observability'', obj_Meta x5) \<in> events c d"
  "x6 \<in> changed (securities_view c) (securities_view d) \<Longrightarrow> (''Security'', obj_Meta x6) \<in> events c d"
  "x7 \<in> changed (hpas_view c) (hpas_view d) \<Longrightarrow> (''HorizontalPodAutoscaler'', obj_Meta x7) \<in> events c d"
  "x8 \<in> changed (pdbs_view c) (pdbs_view d) \<Longrightarrow> (''PodDisruptionBudget'', obj_Meta x8) \<in> events c d"
  "x9 \<in> changed (pvcs_view c) (pvcs_view d) \<Longrightarrow> (''PersistentVolumeClaim'', obj_Meta x9) \<in> events c d"
  "y1 \<in> changed (services_view c) (services_view d) \<Longrightarrow> (''Service'', obj_Meta y1) \<in> events c d"
  "y2 \<in> changed (ingresses_view c) (ingresses_view d) \<Longrightarrow> (''Ingress'', obj_Meta y2) \<in> events c d"
  "y3 \<in> changed (roles_view c) (roles_view d) \<Longrightarrow> (''Role'', obj_Meta y3) \<in> events c d"
  "y4 \<in> changed (rolebindings_view c) (rolebindings_view d) \<Longrightarrow> (''RoleBinding'', obj_Meta y4) \<in> events c d"
  by (simp_all add: events_def taggedI)

text \<open>A changed owner is an event of its kind.\<close>

lemma owner_event:
  assumes "\<not> owner_same ctl req d c"
  shows "\<exists>m. (setup_For (setup_of ctl), m) \<in> events c d \<and> (om_Namespace m, om_Name m) = req"
proof -
  have k0: "\<exists>m. (''Workload'', m) \<in> events c d \<and> (om_Namespace m, om_Name m) = req"
    if "workloads_view d req \<noteq> workloads_view c req"
  proof -
    from that [symmetric] have "\<exists>x \<in> changed (workloads_view c) (workloads_view d). key_of x = req"
      by (rule changed_at) (rule mem_workloads.view_key, assumption)+
    then show ?thesis using event_kinds(1) unfolding key_of_def by blast
  qed
  have k1: "\<exists>m. (''Compute'', m) \<in> events c d \<and> (om_Namespace m, om_Name m) = req"
    if "computes_view d req \<noteq> computes_view c req"
  proof -
    from that [symmetric] have "\<exists>x \<in> changed (computes_view c) (computes_view d). key_of x = req"
      by (rule changed_at) (rule mem_computes.view_key, assumption)+
    then show ?thesis using event_kinds(2) unfolding key_of_def by blast
  qed
  have k2: "\<exists>m. (''Storage'', m) \<in> events c d \<and> (om_Namespace m, om_Name m) = req"
    if "storages_view d req \<noteq> storages_view c req"
  proof -
    from that [symmetric] have "\<exists>x \<in> changed (storages_view c) (storages_view d). key_of x = req"
      by (rule changed_at) (rule mem_storages.view_key, assumption)+
    then show ?thesis using event_kinds(3) unfolding key_of_def by blast
  qed
  have k3: "\<exists>m. (''Networking'', m) \<in> events c d \<and> (om_Namespace m, om_Name m) = req"
    if "networkings_view d req \<noteq> networkings_view c req"
  proof -
    from that [symmetric] have "\<exists>x \<in> changed (networkings_view c) (networkings_view d). key_of x = req"
      by (rule changed_at) (rule mem_networkings.view_key, assumption)+
    then show ?thesis using event_kinds(4) unfolding key_of_def by blast
  qed
  have k4: "\<exists>m. (''Observability'', m) \<in> events c d \<and> (om_Namespace m, om_Name m) = req"
    if "observabilities_view d req \<noteq> observabilities_view c req"
  proof -
    from that [symmetric] have "\<exists>x \<in> changed (observabilities_view c) (observabilities_view d). key_of x = req"
      by (rule changed_at) (rule mem_observabilities.view_key, assumption)+
    then show ?thesis using event_kinds(5) unfolding key_of_def by blast
  qed
  have k5: "\<exists>m. (''Security'', m) \<in> events c d \<and> (om_Namespace m, om_Name m) = req"
    if "securities_view d req \<noteq> securities_view c req"
  proof -
    from that [symmetric] have "\<exists>x \<in> changed (securities_view c) (securities_view d). key_of x = req"
      by (rule changed_at) (rule mem_securities.view_key, assumption)+
    then show ?thesis using event_kinds(6) unfolding key_of_def by blast
  qed
  from assms k0 k1 k2 k3 k4 k5 show ?thesis by (cases ctl) (simp_all add: setup_defs)
qed

text \<open>A changed child that the owner controls, or controlled, is an event of an owned kind.\<close>

lemma child_event:
  assumes "\<not> child_same ctl k d c" and "\<not> patcher ctl" and "\<not> monitor ctl"
    and "child_meta ctl k c = Some m \<or> child_meta ctl k d = Some m"
  shows "written_kind ctl \<in> set (setup_Owns (setup_of ctl)) \<and> (written_kind ctl, m) \<in> events c d"
  using assms
  by (cases ctl)
    (auto simp: patcher_def monitor_def setup_defs intro!: event_kinds intro: changedI(3,4))

text \<open>The map functions find every owner that would read the changed Deployment.\<close>

lemma mapped_compute:
  assumes "mem_healthy c" and "computes_view c req = Some w" and "\<not> compute_unnamed w"
    and "compute_targets_deployment w" and "compute_target_key w = key_of x"
  shows "req \<in> set (mapped ComputeDeployment x c)"
  using find_computes_exact [OF mem_computes.healthy_store_axioms assms(1) prod.collapse [symmetric], of x]
    assms(2-5) by auto

lemma mapped_storage:
  assumes "mem_healthy c" and "storages_view c req = Some w" and "\<not> storage_unnamed w"
    and "storage_targets_deployment w" and "storage_target_key w = key_of x"
  shows "req \<in> set (mapped StorageDeployment x c)"
  using find_storages_exact [OF mem_storages.healthy_store_axioms assms(1) prod.collapse [symmetric], of x]
    assms(2-5) by auto

text \<open>
  A controller that patches Deployments is requested for every owner it could serve when the
  Deployment changes.
\<close>

lemma patcher_requested:
  assumes "patcher ctl" and "desired L K ctl req c" and "owner_same ctl req d c" and "mem_healthy d"
    and k: "k \<in> touches ctl req c" and "\<not> child_same ctl k d c"
  shows "desired L K ctl req d \<or> (ctl, req) \<in> requests Q c d"
proof -
  from assms(1,6) have "deployments_view c k \<noteq> deployments_view d k" by (auto simp: patcher_def)
  then have "\<exists>x \<in> changed (deployments_view c) (deployments_view d). key_of x = k"
    by (rule changed_at) (rule mem_deployments.view_key, assumption)+
  then obtain x where x: "x \<in> changed (deployments_view c) (deployments_view d)" "key_of x = k" by blast
  from assms(1) consider "ctl = ComputeDeployment" | "ctl = StorageDeployment" by (auto simp: patcher_def)
  then show ?thesis
  proof cases
    case 1
    with k obtain w where w: "computes_view c req = Some w" "k = compute_target_key w"
      by (cases "computes_view c req") auto
    with 1 assms(3) have wd: "computes_view d req = Some w" by simp
    show ?thesis
    proof (cases "compute_unnamed w \<or> \<not> compute_targets_deployment w")
      case True
      with wd 1 show ?thesis by (auto simp: target_desired_def)
    next
      case False
      with mapped_compute [OF assms(4) wd] w(2) x(2) have "req \<in> set (mapped ctl x d)" using 1 by simp
      with x(1) 1 show ?thesis unfolding requests_def by (auto simp: setup_defs)
    qed
  next
    case 2
    with k obtain w where w: "storages_view c req = Some w" "k = storage_target_key w"
      by (cases "storages_view c req") auto
    with 2 assms(3) have wd: "storages_view d req = Some w" by simp
    show ?thesis
    proof (cases "storage_unnamed w \<or> \<not> storage_targets_deployment w")
      case True
      with wd 2 show ?thesis by (auto simp: target_desired_def)
    next
      case False
      with mapped_storage [OF assms(4) wd] w(2) x(2) have "req \<in> set (mapped ctl x d)" using 2 by simp
      with x(1) 2 show ?thesis unfolding requests_def by (auto simp: setup_defs)
    qed
  qed
qed

section \<open>The declarations suffice, but for the unseen changes\<close>

context watch_lib
begin

lemma owner_requested:
  assumes "\<not> owner_same ctl req d c"
  shows "(ctl, req) \<in> requests Q c d"
  using owner_event [OF assms] for_requests unfolding requests_def by blast

lemma child_requested:
  assumes "\<not> child_same ctl k d c" and "\<not> patcher ctl" and "\<not> monitor ctl"
    and "child_meta ctl k c = Some m \<or> child_meta ctl k d = Some m" and "controlled ctl req m"
  shows "(ctl, req) \<in> requests Q c d"
proof -
  note e = child_event [OF assms(1-4)]
  from assms(5) have cs: "controller_of m = Some (setup_For (setup_of ctl), snd req)"
    by (simp add: controlled_def)
  from assms(5) have "(if setup_For (setup_of ctl) = ''Workload'' then '''' else om_Namespace m, snd req) = req"
    by (simp add: controlled_def prod_eq_iff)
  from owns_requests [OF e [THEN conjunct1] cs, unfolded this] e [THEN conjunct2]
  show ?thesis unfolding requests_def by blast
qed

lemma tended_kept:
  assumes t: "tended L K ctl req c" and nr: "(ctl, req) \<notin> requests Q c d"
    and seen: "\<not> unseen ctl req c d" and h: "mem_healthy d"
  shows "tended L K ctl req d"
proof -
  from t have s: "desired L K ctl req c" by (simp add: tended_def)
  from nr owner_requested have o: "owner_same ctl req d c" by blast
  note same = owner_same_touches [OF o] owner_same_idle [OF o]
  show ?thesis
  proof (cases "idle ctl req c")
    case True
    with same(2) idle_desired show ?thesis by (simp add: tended_def)
  next
    case busy: False
    show ?thesis
    proof (cases "patcher ctl")
      case True
      have "desired L K ctl req d"
      proof (rule ccontr)
        assume u: "\<not> desired L K ctl req d"
        with patcher_requested [OF True s o h] nr have "\<forall>k \<in> touches ctl req c. child_same ctl k d c" by blast
        from desired_local [OF s o this] u True show False by (auto simp: patcher_def)
      qed
      with True show ?thesis by (simp add: tended_def)
    next
      case False
      have child: "child_same ctl k d c" if k: "k \<in> touches ctl req c" for k
      proof (rule ccontr)
        assume n: "\<not> child_same ctl k d c"
        with seen k False have m: "\<not> monitor ctl"
          and new: "child_meta ctl k c = None \<Longrightarrow> pred_option (controlled ctl req) (child_meta ctl k d)"
          unfolding unseen_def by blast+
        from t busy False k have old: "pred_option (controlled ctl req) (child_meta ctl k c)"
          unfolding tended_def by blast
        from n have "child_meta ctl k c \<noteq> None \<or> child_meta ctl k d \<noteq> None" using child_gone by blast
        then obtain m where "child_meta ctl k c = Some m \<or> child_meta ctl k d = Some m"
          "controlled ctl req m"
          using old new by (cases "child_meta ctl k c"; cases "child_meta ctl k d") auto
        with child_requested [OF n False m] nr show False by blast
      qed
      have "desired L K ctl req d"
        by (rule desired_local [OF s o]) (use child seen in \<open>auto simp: unseen_def\<close>)
      moreover have "child_meta ctl k d = child_meta ctl k c" if "k \<in> touches ctl req c" for k
        using child_same_meta [OF child [OF that]] .
      ultimately show ?thesis using t busy False unfolding tended_def same by simp
    qed
  qed
qed

end


section \<open>A successful run tends its request\<close>

lemma set_owner_first:
  assumes "runtime_lib L" and "set_owner L kind w x = Inr y"
  shows "controller_of (obj_Meta y) = Some (kind, om_Name (obj_Meta w))"
proof -
  from runtime_lib.set_owner_InrD(5) [OF assms] obtain r rs where c: "controllers_of (obj_Meta y) = r # rs"
    by (cases "controllers_of (obj_Meta y)") auto
  have "r = (kind, om_Name (obj_Meta w))"
    using runtime_lib.set_owner_refuses [OF assms(1), of r y kind w] runtime_lib.set_owner_idem [OF assms] c
    by auto
  with c show ?thesis by (simp add: controller_of_def)
qed

lemma child_spec_controls:
  assumes "(True, v') = child_spec skip enabled fresh mutate owner v"
    and "\<And>w x y. owner = Some w \<Longrightarrow> mutate w x = Inr y \<Longrightarrow> key_of y = key_of (fresh w) \<Longrightarrow> P (obj_Meta y)"
  shows "pred_option skip owner \<or>
    (\<forall>k \<in> keys_of (\<lambda>w. {key_of (fresh w)}) owner. pred_option P (map_option obj_Meta (v' k)))"
  using assms by (auto simp: child_spec_def split: option.splits sum.splits if_splits)

lemma claims_spec_controls:
  assumes "(True, v') = claims_spec L cod w vs v"
    and "\<And>vol x y. pvc_mutate L cod w vol x = Inr y \<Longrightarrow> key_of y = claim_key w vol \<Longrightarrow> P y"
    and "k \<in> claim_key w ` set vs"
  shows "pred_option P (v' k)"
  using assms(1,3)
proof (induction vs arbitrary: v)
  case (Cons vol vs)
  from Cons.prems(1) obtain y where y: "pvc_mutate L cod w vol (current v (claim_key w vol) (target_PVC w vol)) = Inr y"
      "key_of y = claim_key w vol" "(True, v') = claims_spec L cod w vs (v(claim_key w vol \<mapsto> y))"
    by (auto split: sum.splits if_splits)
  show ?case
  proof (cases "k \<in> claim_key w ` set vs")
    case True
    with y(3) show ?thesis by (rule Cons.IH)
  next
    case False
    from claims_spec_frame [OF this] have "v' k = (v(claim_key w vol \<mapsto> y)) k"
      using snd_of [OF y(3)] by simp
    with False Cons.prems(2) have "v' k = Some y" by auto
    with assms(2) [OF y(1,2)] show ?thesis by simp
  qed
qed simp

lemma mutate_controls:
  assumes "runtime_lib L"
  shows
    "workload_compute_mutate L w1 x1 = Inr y1 \<Longrightarrow>
       controller_of (obj_Meta y1) = Some (''Workload'', om_Name (obj_Meta w1))"
    and "workload_storage_mutate L w2 x2 = Inr y2 \<Longrightarrow>
       controller_of (obj_Meta y2) = Some (''Workload'', om_Name (obj_Meta w2))"
    and "workload_networking_mutate L w3 x3 = Inr y3 \<Longrightarrow>
       controller_of (obj_Meta y3) = Some (''Workload'', om_Name (obj_Meta w3))"
    and "workload_observability_mutate L w4 x4 = Inr y4 \<Longrightarrow>
       controller_of (obj_Meta y4) = Some (''Workload'', om_Name (obj_Meta w4))"
    and "workload_security_mutate L w5 x5 = Inr y5 \<Longrightarrow>
       controller_of (obj_Meta y5) = Some (''Workload'', om_Name (obj_Meta w5))"
    and "cs_EscapeHatches (obj_Spec w6) = [] \<Longrightarrow> hpa_mutate L cod6 w6 x6 = Inr y6 \<Longrightarrow>
       controller_of (obj_Meta y6) = Some (''Compute'', om_Name (obj_Meta w6))"
    and "cs_EscapeHatches (obj_Spec w7) = [] \<Longrightarrow> pdb_mutate L cod7 w7 d7 x7 = Inr y7 \<Longrightarrow>
       controller_of (obj_Meta y7) = Some (''Compute'', om_Name (obj_Meta w7))"
    and "ss_EscapeHatches (obj_Spec w8) = [] \<Longrightarrow> pvc_mutate L cod8 w8 v8 x8 = Inr y8 \<Longrightarrow>
       controller_of (obj_Meta y8) = Some (''Storage'', om_Name (obj_Meta w8))"
    and "ns_EscapeHatches (obj_Spec w9) = [] \<Longrightarrow> svc_mutate L cod9 w9 x9 = Inr y9 \<Longrightarrow>
       controller_of (obj_Meta y9) = Some (''Networking'', om_Name (obj_Meta w9))"
    and "ns_EscapeHatches (obj_Spec w10) = [] \<Longrightarrow> ing_mutate L cod10 w10 x10 = Inr y10 \<Longrightarrow>
       controller_of (obj_Meta y10) = Some (''Networking'', om_Name (obj_Meta w10))"
    and "service_monitor_mutate L w11 x11 = Inr y11 \<Longrightarrow>
       controller_of (obj_Meta y11) = Some (''Observability'', om_Name (obj_Meta w11))"
    and "pod_monitor_mutate L w12 x12 = Inr y12 \<Longrightarrow>
       controller_of (obj_Meta y12) = Some (''Observability'', om_Name (obj_Meta w12))"
    and "sec_EscapeHatches (obj_Spec w13) = [] \<Longrightarrow> role_mutate L cod13 w13 x13 = Inr y13 \<Longrightarrow>
       controller_of (obj_Meta y13) = Some (''Security'', om_Name (obj_Meta w13))"
    and "sec_EscapeHatches (obj_Spec w14) = [] \<Longrightarrow> rb_mutate L cod14 w14 x14 = Inr y14 \<Longrightarrow>
       controller_of (obj_Meta y14) = Some (''Security'', om_Name (obj_Meta w14))"
  by (auto simp: workload_compute_mutate_def workload_storage_mutate_def workload_networking_mutate_def
      workload_observability_mutate_def workload_security_mutate_def hpa_mutate_plain pdb_mutate_plain
      pvc_mutate_plain svc_mutate_plain ing_mutate_plain service_monitor_mutate_def
      pod_monitor_mutate_def role_mutate_plain rb_mutate_plain
      split: sum.splits intro: set_owner_first [OF assms])

text \<open>Requests for Workloads have no namespace.\<close>

definition well_scoped :: "controller \<Rightarrow> key \<Rightarrow> bool" where
  "well_scoped ctl req \<longleftrightarrow> (setup_For (setup_of ctl) = ''Workload'' \<longrightarrow> fst req = '''')"

lemma fst_key_of: "fst (key_of x) = om_Namespace (obj_Meta x)"
  by (simp add: key_of_def)

lemma controlledI:
  assumes "controller_of (obj_Meta y) = Some (kind, om_Name (obj_Meta w))"
    and "setup_For (setup_of ctl) = kind" and "key_of w = req" and "well_scoped ctl req"
    and "kind \<noteq> ''Workload'' \<Longrightarrow> fst (key_of y) = fst req"
  shows "controlled ctl req (obj_Meta y)"
  using assms by (auto simp: controlled_def well_scoped_def key_of_def)

lemma handler_tends:
  assumes rt: "runtime_lib L" and nf: "lib_IsNotFound L = mem_nf" and calm: "calm c"
    and scoped: "well_scoped ctl req"
    and run: "run_state (handler L K mem_client ctl req) c = (None, c')"
  shows "tended L K ctl req c'"
proof -
  from calm have h: "mem_healthy c" by (simp add: calm_def)
  note same = kept [OF preservesD [OF handler_isolated run]]
  have "idle ctl req c' \<or> patcher ctl \<or>
      (\<forall>k \<in> touches ctl req c'. pred_option (controlled ctl req) (child_meta ctl k c'))"
  proof (cases ctl)
    case WorkloadCompute
    from workload_compute.pure_refines [OF healthy_nf(1) [OF nf] rt h] run
    have st: "(True, computes_view c') = child_spec workload_unplaced workload_wants_compute target_Compute
        (workload_compute_mutate L) (workloads_view c req) (computes_view c)"
      unfolding WorkloadCompute handler.simps mem_client_simps by fastforce
    have ow: "workloads_view c' = workloads_view c" using same WorkloadCompute by (simp add: mem_view_def)
    have "controlled ctl req (obj_Meta y)"
      if w: "workloads_view c req = Some w" and y: "(workload_compute_mutate L) w x = Inr y" "key_of y = key_of (target_Compute w)" for w x y
      by (rule controlledI [OF mutate_controls(1) [OF rt y(1)]])
        (use  mem_workloads.view_key [OF w] scoped y(2) in
          \<open>auto simp: WorkloadCompute setup_defs fst_key_of\<close>)
    then have "pred_option workload_unplaced (workloads_view c req) \<or> (\<forall>k \<in> keys_of (\<lambda>w. {key_of (target_Compute w)}) (workloads_view c req).
        pred_option (controlled ctl req) (map_option obj_Meta (computes_view c' k)))"
      by (rule child_spec_controls [OF st])
    then show ?thesis by (simp add: WorkloadCompute ow, blast)
  next
    case WorkloadStorage
    from workload_storage.pure_refines [OF healthy_nf(2) [OF nf] rt h] run
    have st: "(True, storages_view c') = child_spec workload_unplaced workload_wants_storage target_Storage
        (workload_storage_mutate L) (workloads_view c req) (storages_view c)"
      unfolding WorkloadStorage handler.simps mem_client_simps by fastforce
    have ow: "workloads_view c' = workloads_view c" using same WorkloadStorage by (simp add: mem_view_def)
    have "controlled ctl req (obj_Meta y)"
      if w: "workloads_view c req = Some w" and y: "(workload_storage_mutate L) w x = Inr y" "key_of y = key_of (target_Storage w)" for w x y
      by (rule controlledI [OF mutate_controls(2) [OF rt y(1)]])
        (use  mem_workloads.view_key [OF w] scoped y(2) in
          \<open>auto simp: WorkloadStorage setup_defs fst_key_of\<close>)
    then have "pred_option workload_unplaced (workloads_view c req) \<or> (\<forall>k \<in> keys_of (\<lambda>w. {key_of (target_Storage w)}) (workloads_view c req).
        pred_option (controlled ctl req) (map_option obj_Meta (storages_view c' k)))"
      by (rule child_spec_controls [OF st])
    then show ?thesis by (simp add: WorkloadStorage ow, blast)
  next
    case WorkloadNetworking
    from workload_networking.pure_refines [OF healthy_nf(3) [OF nf] rt h] run
    have st: "(True, networkings_view c') = child_spec workload_unplaced workload_wants_networking target_Networking
        (workload_networking_mutate L) (workloads_view c req) (networkings_view c)"
      unfolding WorkloadNetworking handler.simps mem_client_simps by fastforce
    have ow: "workloads_view c' = workloads_view c" using same WorkloadNetworking by (simp add: mem_view_def)
    have "controlled ctl req (obj_Meta y)"
      if w: "workloads_view c req = Some w" and y: "(workload_networking_mutate L) w x = Inr y" "key_of y = key_of (target_Networking w)" for w x y
      by (rule controlledI [OF mutate_controls(3) [OF rt y(1)]])
        (use  mem_workloads.view_key [OF w] scoped y(2) in
          \<open>auto simp: WorkloadNetworking setup_defs fst_key_of\<close>)
    then have "pred_option workload_unplaced (workloads_view c req) \<or> (\<forall>k \<in> keys_of (\<lambda>w. {key_of (target_Networking w)}) (workloads_view c req).
        pred_option (controlled ctl req) (map_option obj_Meta (networkings_view c' k)))"
      by (rule child_spec_controls [OF st])
    then show ?thesis by (simp add: WorkloadNetworking ow, blast)
  next
    case WorkloadObservability
    from workload_observability.pure_refines [OF healthy_nf(4) [OF nf] rt h] run
    have st: "(True, observabilities_view c') = child_spec workload_unplaced workload_wants_observability target_Observability
        (workload_observability_mutate L) (workloads_view c req) (observabilities_view c)"
      unfolding WorkloadObservability handler.simps mem_client_simps by fastforce
    have ow: "workloads_view c' = workloads_view c" using same WorkloadObservability by (simp add: mem_view_def)
    have "controlled ctl req (obj_Meta y)"
      if w: "workloads_view c req = Some w" and y: "(workload_observability_mutate L) w x = Inr y" "key_of y = key_of (target_Observability w)" for w x y
      by (rule controlledI [OF mutate_controls(4) [OF rt y(1)]])
        (use  mem_workloads.view_key [OF w] scoped y(2) in
          \<open>auto simp: WorkloadObservability setup_defs fst_key_of\<close>)
    then have "pred_option workload_unplaced (workloads_view c req) \<or> (\<forall>k \<in> keys_of (\<lambda>w. {key_of (target_Observability w)}) (workloads_view c req).
        pred_option (controlled ctl req) (map_option obj_Meta (observabilities_view c' k)))"
      by (rule child_spec_controls [OF st])
    then show ?thesis by (simp add: WorkloadObservability ow, blast)
  next
    case WorkloadSecurity
    from workload_security.pure_refines [OF healthy_nf(5) [OF nf] rt h] run
    have st: "(True, securities_view c') = child_spec workload_unplaced workload_wants_security target_Security
        (workload_security_mutate L) (workloads_view c req) (securities_view c)"
      unfolding WorkloadSecurity handler.simps mem_client_simps by fastforce
    have ow: "workloads_view c' = workloads_view c" using same WorkloadSecurity by (simp add: mem_view_def)
    have "controlled ctl req (obj_Meta y)"
      if w: "workloads_view c req = Some w" and y: "(workload_security_mutate L) w x = Inr y" "key_of y = key_of (target_Security w)" for w x y
      by (rule controlledI [OF mutate_controls(5) [OF rt y(1)]])
        (use  mem_workloads.view_key [OF w] scoped y(2) in
          \<open>auto simp: WorkloadSecurity setup_defs fst_key_of\<close>)
    then have "pred_option workload_unplaced (workloads_view c req) \<or> (\<forall>k \<in> keys_of (\<lambda>w. {key_of (target_Security w)}) (workloads_view c req).
        pred_option (controlled ctl req) (map_option obj_Meta (securities_view c' k)))"
      by (rule child_spec_controls [OF st])
    then show ?thesis by (simp add: WorkloadSecurity ow, blast)
  next
    case ComputeDeployment
    then show ?thesis by (simp add: patcher_def)
  next
    case ComputeHPA
    from hpa.pure_refines [OF healthy_nf(7) [OF nf] rt h] run
    have st: "(True, hpas_view c') = child_spec compute_unnamed hpa_enabled target_HPA
        (hpa_mutate L (cod_HPA K)) (computes_view c req) (hpas_view c)"
      unfolding ComputeHPA handler.simps mem_client_simps by fastforce
    have ow: "computes_view c' = computes_view c" using same ComputeHPA by (simp add: mem_view_def)
    have "controlled ctl req (obj_Meta y)"
      if w: "computes_view c req = Some w" and y: "(hpa_mutate L (cod_HPA K)) w x = Inr y" "key_of y = key_of (target_HPA w)" for w x y
      by (rule controlledI [OF mutate_controls(6) [OF rt _ y(1)]])
        (use calm_owner(1) [OF calm w] mem_computes.view_key [OF w] scoped y(2) in
          \<open>auto simp: ComputeHPA setup_defs fst_key_of\<close>)
    then have "pred_option compute_unnamed (computes_view c req) \<or> (\<forall>k \<in> keys_of (\<lambda>w. {key_of (target_HPA w)}) (computes_view c req).
        pred_option (controlled ctl req) (map_option obj_Meta (hpas_view c' k)))"
      by (rule child_spec_controls [OF st])
    then show ?thesis by (simp add: ComputeHPA ow, blast)
  next
    case ComputePDB
    from mem_pdb_env.pdb_refines_spec [OF rt nf [symmetric] h] run
    have st: "(True, pdbs_view c') = child_spec compute_unnamed has_PDB target_PDB
        (\<lambda>w. pdb_mutate L (cod_PDB K) w (deployed (deployments_view c) w)) (computes_view c req) (pdbs_view c)"
      unfolding ComputePDB handler.simps mem_client_simps by fastforce
    have ow: "computes_view c' = computes_view c" using same ComputePDB by (simp add: mem_view_def)
    have "controlled ctl req (obj_Meta y)"
      if w: "computes_view c req = Some w" and y: "(\<lambda>w. pdb_mutate L (cod_PDB K) w (deployed (deployments_view c) w)) w x = Inr y" "key_of y = key_of (target_PDB w)" for w x y
      by (rule controlledI [OF mutate_controls(7) [OF rt _ y(1)]])
        (use calm_owner(1) [OF calm w] mem_computes.view_key [OF w] scoped y(2) in
          \<open>auto simp: ComputePDB setup_defs fst_key_of\<close>)
    then have "pred_option compute_unnamed (computes_view c req) \<or> (\<forall>k \<in> keys_of (\<lambda>w. {key_of (target_PDB w)}) (computes_view c req).
        pred_option (controlled ctl req) (map_option obj_Meta (pdbs_view c' k)))"
      by (rule child_spec_controls [OF st])
    then show ?thesis by (simp add: ComputePDB ow, blast)
  next
    case StoragePVC
    from pvc_refines_spec [OF healthy_nf(9) [OF nf] rt h] run
    have st: "(True, pvcs_view c') = pvc_spec L (cod_PVC K) (storages_view c req) (pvcs_view c)"
      unfolding StoragePVC handler.simps mem_client_simps by fastforce
    have ow: "storages_view c' = storages_view c" using same StoragePVC by (simp add: mem_view_def)
    show ?thesis
    proof (cases "storages_view c req")
      case (Some w)
      have "controlled ctl req (obj_Meta y)"
        if y: "pvc_mutate L (cod_PVC K) w vol x = Inr y" "key_of y = claim_key w vol" for vol x y
        by (rule controlledI [OF mutate_controls(8) [OF rt _ y(1)]])
          (use calm_owner(2) [OF calm Some] mem_storages.view_key [OF Some] scoped y(2) in
            \<open>auto simp: StoragePVC setup_defs claim_key_def fst_key_of\<close>)
      with claims_spec_controls [of "pvcs_view c'" L "cod_PVC K" w _ _ "\<lambda>y. controlled ctl req (obj_Meta y)"] st Some
      show ?thesis by (auto simp: StoragePVC ow pvc_spec_def option.pred_map comp_def split: if_splits)
    qed (simp add: StoragePVC ow)
  next
    case StorageDeployment
    then show ?thesis by (simp add: patcher_def)
  next
    case NetworkingService
    from svc.pure_refines [OF healthy_nf(11) [OF nf] rt h] run
    have st: "(True, services_view c') = child_spec networking_unnamed svc_enabled target_Svc
        (svc_mutate L (cod_Service K)) (networkings_view c req) (services_view c)"
      unfolding NetworkingService handler.simps mem_client_simps by fastforce
    have ow: "networkings_view c' = networkings_view c" using same NetworkingService by (simp add: mem_view_def)
    have "controlled ctl req (obj_Meta y)"
      if w: "networkings_view c req = Some w" and y: "(svc_mutate L (cod_Service K)) w x = Inr y" "key_of y = key_of (target_Svc w)" for w x y
      by (rule controlledI [OF mutate_controls(9) [OF rt _ y(1)]])
        (use calm_owner(4) [OF calm w] mem_networkings.view_key [OF w] scoped y(2) in
          \<open>auto simp: NetworkingService setup_defs fst_key_of\<close>)
    then have "pred_option networking_unnamed (networkings_view c req) \<or> (\<forall>k \<in> keys_of (\<lambda>w. {key_of (target_Svc w)}) (networkings_view c req).
        pred_option (controlled ctl req) (map_option obj_Meta (services_view c' k)))"
      by (rule child_spec_controls [OF st])
    then show ?thesis by (simp add: NetworkingService ow, blast)
  next
    case NetworkingIngress
    from ing.pure_refines [OF healthy_nf(12) [OF nf] rt h] run
    have st: "(True, ingresses_view c') = child_spec networking_unnamed has_ingress target_Ing
        (ing_mutate L (cod_Ingress K)) (networkings_view c req) (ingresses_view c)"
      unfolding NetworkingIngress handler.simps mem_client_simps by fastforce
    have ow: "networkings_view c' = networkings_view c" using same NetworkingIngress by (simp add: mem_view_def)
    have "controlled ctl req (obj_Meta y)"
      if w: "networkings_view c req = Some w" and y: "(ing_mutate L (cod_Ingress K)) w x = Inr y" "key_of y = key_of (target_Ing w)" for w x y
      by (rule controlledI [OF mutate_controls(10) [OF rt _ y(1)]])
        (use calm_owner(4) [OF calm w] mem_networkings.view_key [OF w] scoped y(2) in
          \<open>auto simp: NetworkingIngress setup_defs fst_key_of\<close>)
    then have "pred_option networking_unnamed (networkings_view c req) \<or> (\<forall>k \<in> keys_of (\<lambda>w. {key_of (target_Ing w)}) (networkings_view c req).
        pred_option (controlled ctl req) (map_option obj_Meta (ingresses_view c' k)))"
      by (rule child_spec_controls [OF st])
    then show ?thesis by (simp add: NetworkingIngress ow, blast)
  next
    case ObservabilityServiceMonitor
    from servicemonitor.pure_refines [OF healthy_nf(13) [OF nf] rt h] run
    have st: "(True, servicemonitors_view c') = child_spec observability_unnamed sm_wanted target_SM
        (service_monitor_mutate L) (observabilities_view c req) (servicemonitors_view c)"
      unfolding ObservabilityServiceMonitor handler.simps mem_client_simps by fastforce
    have ow: "observabilities_view c' = observabilities_view c" using same ObservabilityServiceMonitor by (simp add: mem_view_def)
    have "controlled ctl req (obj_Meta y)"
      if w: "observabilities_view c req = Some w" and y: "(service_monitor_mutate L) w x = Inr y" "key_of y = key_of (target_SM w)" for w x y
      by (rule controlledI [OF mutate_controls(11) [OF rt y(1)]])
        (use  mem_observabilities.view_key [OF w] scoped y(2) in
          \<open>auto simp: ObservabilityServiceMonitor setup_defs fst_key_of\<close>)
    then have "pred_option observability_unnamed (observabilities_view c req) \<or> (\<forall>k \<in> keys_of (\<lambda>w. {key_of (target_SM w)}) (observabilities_view c req).
        pred_option (controlled ctl req) (map_option obj_Meta (servicemonitors_view c' k)))"
      by (rule child_spec_controls [OF st])
    then show ?thesis by (simp add: ObservabilityServiceMonitor ow, blast)
  next
    case ObservabilityPodMonitor
    from podmonitor.pure_refines [OF healthy_nf(14) [OF nf] rt h] run
    have st: "(True, podmonitors_view c') = child_spec observability_unnamed pm_wanted target_PM
        (pod_monitor_mutate L) (observabilities_view c req) (podmonitors_view c)"
      unfolding ObservabilityPodMonitor handler.simps mem_client_simps by fastforce
    have ow: "observabilities_view c' = observabilities_view c" using same ObservabilityPodMonitor by (simp add: mem_view_def)
    have "controlled ctl req (obj_Meta y)"
      if w: "observabilities_view c req = Some w" and y: "(pod_monitor_mutate L) w x = Inr y" "key_of y = key_of (target_PM w)" for w x y
      by (rule controlledI [OF mutate_controls(12) [OF rt y(1)]])
        (use  mem_observabilities.view_key [OF w] scoped y(2) in
          \<open>auto simp: ObservabilityPodMonitor setup_defs fst_key_of\<close>)
    then have "pred_option observability_unnamed (observabilities_view c req) \<or> (\<forall>k \<in> keys_of (\<lambda>w. {key_of (target_PM w)}) (observabilities_view c req).
        pred_option (controlled ctl req) (map_option obj_Meta (podmonitors_view c' k)))"
      by (rule child_spec_controls [OF st])
    then show ?thesis by (simp add: ObservabilityPodMonitor ow, blast)
  next
    case SecurityRole
    from role.pure_refines [OF healthy_nf(15) [OF nf] rt h] run
    have st: "(True, roles_view c') = child_spec security_unnamed rbac_wanted target_Role
        (role_mutate L (cod_Role K)) (securities_view c req) (roles_view c)"
      unfolding SecurityRole handler.simps mem_client_simps by fastforce
    have ow: "securities_view c' = securities_view c" using same SecurityRole by (simp add: mem_view_def)
    have "controlled ctl req (obj_Meta y)"
      if w: "securities_view c req = Some w" and y: "(role_mutate L (cod_Role K)) w x = Inr y" "key_of y = key_of (target_Role w)" for w x y
      by (rule controlledI [OF mutate_controls(13) [OF rt _ y(1)]])
        (use calm_owner(5) [OF calm w] mem_securities.view_key [OF w] scoped y(2) in
          \<open>auto simp: SecurityRole setup_defs fst_key_of\<close>)
    then have "pred_option security_unnamed (securities_view c req) \<or> (\<forall>k \<in> keys_of (\<lambda>w. {key_of (target_Role w)}) (securities_view c req).
        pred_option (controlled ctl req) (map_option obj_Meta (roles_view c' k)))"
      by (rule child_spec_controls [OF st])
    then show ?thesis by (simp add: SecurityRole ow, blast)
  next
    case SecurityRoleBinding
    from rolebinding.pure_refines [OF healthy_nf(16) [OF nf] rt h] run
    have st: "(True, rolebindings_view c') = child_spec security_unnamed rbac_wanted target_RB
        (rb_mutate L (cod_RoleBinding K)) (securities_view c req) (rolebindings_view c)"
      unfolding SecurityRoleBinding handler.simps mem_client_simps by fastforce
    have ow: "securities_view c' = securities_view c" using same SecurityRoleBinding by (simp add: mem_view_def)
    have "controlled ctl req (obj_Meta y)"
      if w: "securities_view c req = Some w" and y: "(rb_mutate L (cod_RoleBinding K)) w x = Inr y" "key_of y = key_of (target_RB w)" for w x y
      by (rule controlledI [OF mutate_controls(14) [OF rt _ y(1)]])
        (use calm_owner(5) [OF calm w] mem_securities.view_key [OF w] scoped y(2) in
          \<open>auto simp: SecurityRoleBinding setup_defs fst_key_of\<close>)
    then have "pred_option security_unnamed (securities_view c req) \<or> (\<forall>k \<in> keys_of (\<lambda>w. {key_of (target_RB w)}) (securities_view c req).
        pred_option (controlled ctl req) (map_option obj_Meta (rolebindings_view c' k)))"
      by (rule child_spec_controls [OF st])
    then show ?thesis by (simp add: SecurityRoleBinding ow, blast)
  qed
  with handler_desired [OF rt nf calm run] show ?thesis by (simp add: tended_def)
qed

end
