(* ===== verification/Work_Queue.thy ===== *)
theory Work_Queue
  imports Watches
begin

text \<open>
  The operator driven by its watches.  The queue holds the requests not yet served (an equal
  request is queued once, as the work queue of controller-runtime does); serving one runs its
  handler, a request whose run fails stays, and whatever changes the cluster, a run or
  somebody else, adds the requests its events raise.  The invariant is that every request
  outside the queue is tended; the blind spots of the watch declarations, which the invariant
  has to exclude, are shown to be real.
\<close>

section \<open>The queue\<close>

inductive queue_step ::
    "(controller_setup \<Rightarrow> string \<Rightarrow> ObjectMeta \<Rightarrow> key set) \<Rightarrow> lib \<Rightarrow> codecs \<Rightarrow>
     cluster \<times> work set \<Rightarrow> cluster \<times> work set \<Rightarrow> bool"
  for Q L K where
  serve: "p \<in> q \<Longrightarrow> run_state (handler L K mem_client (fst p) (snd p)) c = (r, c') \<Longrightarrow>
     (\<forall>p'. p' \<noteq> p \<longrightarrow> \<not> competes p' p c) \<Longrightarrow>
     q' = (if r = None then q - {p} else q) \<union> requests Q c c' \<Longrightarrow>
     queue_step Q L K (c, q) (c', q')"
| outside: "calm c' \<Longrightarrow> (\<forall>p. \<not> unseen (fst p) (snd p) c c') \<Longrightarrow>
     q' = q \<union> requests Q c c' \<Longrightarrow>
     queue_step Q L K (c, q) (c', q')"

inductive_cases queue_stepE: "queue_step Q L K (c, q) (c', q')"

text \<open>When the manager starts, its caches report every object as created.\<close>

definition initial_queue :: "(controller_setup \<Rightarrow> string \<Rightarrow> ObjectMeta \<Rightarrow> key set) \<Rightarrow> cluster \<Rightarrow> work set" where
  "initial_queue Q c = requests Q empty_cluster c"

lemma empty_views [simp]:
  "workloads_view empty_cluster k = None" "computes_view empty_cluster k = None"
  "storages_view empty_cluster k = None" "networkings_view empty_cluster k = None"
  "observabilities_view empty_cluster k = None" "securities_view empty_cluster k = None"
  by (simp_all add: mem_view_def empty_cluster_def lookup_def)

text \<open>A run whose request competes with nobody is seen by everybody it concerns.\<close>

lemma run_seen:
  assumes rt: "runtime_lib L" and nf: "lib_IsNotFound L = mem_nf" and calm: "calm c"
    and run: "run_state (handler L K mem_client b req') c = (r, c')"
    and nc: "\<not> competes (a, req) (b, req') c"
  shows "\<not> unseen a req c c'"
proof -
  have "selector_read c' w = selector_read c w" for w
    using selectors_kept [OF rt nf calm run] by (simp add: deployed_def)
  moreover have "child_same a k c' c" if k: "k \<in> touches a req c" and p: "\<not> patcher a" for k
  proof (cases "written_kind a = written_kind b")
    case True
    from p have "{a, b} \<noteq> {ComputeDeployment, StorageDeployment}" by (auto simp: patcher_def doubleton_eq_iff)
    with True nc written_kind_eq have "a = b" "touches a req c \<inter> touches b req' c = {}"
      unfolding competes_def by auto
    with k step_touches [OF handler_step [OF rt nf calm run, THEN conjunct2], of k] show ?thesis by auto
  next
    case False
    show ?thesis by (rule other_kind_same [OF preservesD [OF handler_isolated run] False])
  qed
  ultimately show ?thesis unfolding unseen_def by (auto simp: option.pred_set)
qed

text \<open>The invariant of the queue.\<close>

definition all_tended :: "lib \<Rightarrow> codecs \<Rightarrow> cluster \<times> work set \<Rightarrow> bool" where
  "all_tended L K s \<longleftrightarrow> calm (fst s) \<and>
     (\<forall>ctl req. well_scoped ctl req \<longrightarrow> (ctl, req) \<notin> snd s \<longrightarrow> tended L K ctl req (fst s))"

context watch_lib
begin

lemma unqueued_at_start:
  assumes "(ctl, req) \<notin> initial_queue Q c"
  shows "tended L K ctl req c"
proof -
  from assms owner_requested have "owner_same ctl req c empty_cluster"
    unfolding initial_queue_def by blast
  then have "idle ctl req c" by (cases ctl) simp_all
  with idle_desired show ?thesis by (simp add: tended_def)
qed

lemma queue_invariant:
  assumes rt: "runtime_lib L" and nf: "lib_IsNotFound L = mem_nf"
    and "queue_step Q L K s s'" and inv: "all_tended L K s"
  shows "all_tended L K s'"
  using assms(3)
proof (cases rule: queue_step.cases)
  case (serve p q c r c' q')
  from inv serve(1) have calm: "calm c"
    and t: "\<And>ctl req. well_scoped ctl req \<Longrightarrow> (ctl, req) \<notin> q \<Longrightarrow> tended L K ctl req c"
    by (auto simp: all_tended_def)
  have calm': "calm c'"
    by (rule handler_calm [OF rt nf calm serve(4)]) (use handler_settles [OF rt nf calm serve(4)] in blast)
  have "tended L K ctl req c'" if sc: "well_scoped ctl req" and nq: "(ctl, req) \<notin> q'" for ctl req
  proof (cases "(ctl, req) = p")
    case True
    with nq serve(3,6) have "r = None" by (auto split: if_splits)
    with handler_tends [OF rt nf calm sc] serve(4) True show ?thesis by auto
  next
    case False
    with nq serve(6) have "(ctl, req) \<notin> q" "(ctl, req) \<notin> requests Q c c'" by (auto split: if_splits)
    moreover from serve(5) False have "\<not> competes (ctl, req) p c" by blast
    then have "\<not> competes (ctl, req) (fst p, snd p) c" by simp
    then have "\<not> unseen ctl req c c'" by (rule run_seen [OF rt nf calm serve(4)])
    ultimately show ?thesis using tended_kept t [OF sc] calm' by (simp add: calm_def)
  qed
  with calm' serve(2) show ?thesis by (simp add: all_tended_def)
next
  case (outside c' c q' q)
  from inv outside have t: "\<And>ctl req. well_scoped ctl req \<Longrightarrow> (ctl, req) \<notin> q \<Longrightarrow> tended L K ctl req c"
    by (auto simp: all_tended_def)
  have "tended L K ctl req c'" if sc: "well_scoped ctl req" and nq: "(ctl, req) \<notin> q'" for ctl req
  proof (rule tended_kept)
    show "tended L K ctl req c" using t [OF sc] nq outside(5) by blast
    show "(ctl, req) \<notin> requests Q c c'" using nq outside(5) by blast
    show "\<not> unseen ctl req c c'" using outside(4) by (metis fst_conv snd_conv)
    show "mem_healthy c'" using outside(3) by (simp add: calm_def)
  qed
  with outside(2,3) show ?thesis by (simp add: all_tended_def)
qed

lemma reachable_tended:
  assumes "runtime_lib L" and "lib_IsNotFound L = mem_nf"
    and "(queue_step Q L K)\<^sup>*\<^sup>* (c0, initial_queue Q c0) s" and "calm c0"
  shows "all_tended L K s"
  using assms(3)
proof (induction rule: rtranclp_induct)
  case base
  from assms(4) unqueued_at_start show ?case by (simp add: all_tended_def)
next
  case (step s s')
  from queue_invariant [OF assms(1,2) step.hyps(2) step.IH] show ?case .
qed

end

text \<open>
  C2: Take a cluster without faults, escape hatches and Storages that repeat a volume name, and let
  nobody change that.  Let the operator be driven by its watches, from the moment its caches
  report the objects: it serves queued requests in any order, keeps those whose run fails, and
  every change, its own or anybody else's, queues what the declarations of the sixteen
  controllers request.  At every moment, the objects behind a request that is not in the queue
  are what its owner describes, and running its controller would change nothing.  (Served
  requests compete with no other, and outside changes are none of the \<open>unseen\<close> ones.)
\<close>

theorem unqueued_is_desired:
  assumes "watch_lib Q" and "runtime_lib L" and "lib_IsNotFound L = mem_nf"
    and "(queue_step Q L K)\<^sup>*\<^sup>* (c0, initial_queue Q c0) (c, q)" and "calm c0"
    and "well_scoped ctl req" and "(ctl, req) \<notin> q"
  shows "desired L K ctl req c \<and>
    same_objects (snd (run_state (handler L K mem_client ctl req) c)) c"
proof -
  from watch_lib.reachable_tended [OF assms(1-5)]
  have "calm c" "well_scoped ctl req \<longrightarrow> (ctl, req) \<notin> q \<longrightarrow> tended L K ctl req c"
    unfolding all_tended_def fst_conv snd_conv by blast+
  with assms(6,7) have "calm c" "desired L K ctl req c" by (simp_all add: tended_def)
  then show ?thesis
    using settled_stable [OF assms(2,3) _ prod.collapse [symmetric]] desired_settled by blast
qed

section \<open>Blind spots\<close>

lemma same_objects_quiet:
  assumes "same_objects c d"
  shows "requests Q c d = {}"
  using assms by (auto simp: same_objects_def requests_def events_def tagged_def)

text \<open>The kinds no controller declares raise no request at all.\<close>

lemma monitors_undeclared:
  "setup_For (setup_of ctl) \<notin> {''PodMonitor'', ''ServiceMonitor''}"
  "set (setup_Owns (setup_of ctl)) \<inter> {''PodMonitor'', ''ServiceMonitor''} = {}"
  by (cases ctl; simp add: setup_defs)+

context watch_lib
begin

lemma silent_kinds:
  assumes "setup_For s \<notin> S" and "set (setup_Owns s) \<inter> S = {}" and "kind \<in> S"
  shows "Q s kind m = {}"
  by (rule silent) (use assms in blast)+

lemma monitor_events_silent:
  assumes "events c d \<subseteq> {''PodMonitor'', ''ServiceMonitor''} \<times> UNIV"
    and "deployments_view c = deployments_view d"
  shows "requests Q c d = {}"
proof -
  have "req \<notin> Q (setup_of ctl) kind m" if "(kind, m) \<in> events c d" for ctl req kind m
    using silent_kinds [OF monitors_undeclared] subsetD [OF assms(1) that] by (metis SigmaD1 empty_iff)
  then show ?thesis by (auto simp: requests_def assms(2))
qed

lemma deployment_events_miss_budgets:
  assumes "events c d \<subseteq> {''Deployment''} \<times> UNIV"
  shows "(ComputePDB, req) \<notin> requests Q c d"
proof -
  have "Q (setup_of ComputePDB) ''Deployment'' m = {}" for m
    by (rule silent) (simp_all add: setup_defs)
  with assms show ?thesis unfolding requests_def by (fastforce simp: setup_defs)
qed

end

lemma set_owner_fresh:
  assumes "runtime_lib L" and "controllers_of (obj_Meta x) = []"
    and "om_Namespace (obj_Meta x) = om_Namespace (obj_Meta w)"
  shows "\<exists>y. set_owner L kind w (x\<lparr>obj_Spec := sp\<rparr>) = Inr y"
  using runtime_lib.set_owner_accepts [OF assms(1), of "x\<lparr>obj_Spec := sp\<rparr>" w kind] assms(2,3) by auto

lemma fresh_monitor_accepted:
  assumes "runtime_lib L"
  obtains y z where "service_monitor_mutate L w (target_SM w) = Inr y" "key_of y = key_of (target_SM w)"
    and "pod_monitor_mutate L w (target_PM w) = Inr z" "key_of z = key_of (target_PM w)"
proof -
  have "\<exists>y. set_owner L ''Observability'' w (target_SM w\<lparr>obj_Spec := Some (service_monitor_spec (obj_Spec w))\<rparr>) = Inr y"
    by (rule set_owner_fresh [OF assms])
      (simp_all add: target_SM_def monitoring_object_def named_meta_def controllers_of_def)
  then obtain y where y: "set_owner L ''Observability'' w
      (target_SM w\<lparr>obj_Spec := Some (service_monitor_spec (obj_Spec w))\<rparr>) = Inr y" ..
  have "\<exists>z. set_owner L ''Observability'' w (target_PM w\<lparr>obj_Spec := Some (pod_monitor_spec (obj_Spec w))\<rparr>) = Inr z"
    by (rule set_owner_fresh [OF assms])
      (simp_all add: target_PM_def monitoring_object_def named_meta_def controllers_of_def)
  then obtain z where z: "set_owner L ''Observability'' w
      (target_PM w\<lparr>obj_Spec := Some (pod_monitor_spec (obj_Spec w))\<rparr>) = Inr z" ..
  show thesis
    by (rule that [of y z])
      (use y z runtime_lib.set_owner_InrD(1) [OF assms y] runtime_lib.set_owner_InrD(1) [OF assms z]
        in \<open>simp_all add: service_monitor_mutate_def pod_monitor_mutate_def key_of_def\<close>)
qed

text \<open>
  C29: If somebody deletes the ServiceMonitors and PodMonitors, no controller is asked to run,
  although a run of the two monitor controllers would store those that an Observability
  resource asks for again: both declare only \<^verbatim>\<open>For\<close>, no \<^verbatim>\<open>Owns\<close>.
\<close>

theorem lost_monitors_unseen:
  assumes "watch_lib Q" and "runtime_lib L" and "lib_IsNotFound L = mem_nf" and "calm c"
    and w: "observabilities_view c req = Some w" "\<not> observability_unnamed w" "sm_wanted w" "pm_wanted w"
    and d: "d = c\<lparr>cl_servicemonitors := [], cl_podmonitors := []\<rparr>"
  shows "requests Q c d = {} \<and>
    servicemonitors_view (snd (run_state (handler L K mem_client ObservabilityServiceMonitor req) d))
      (key_of (target_SM w)) \<noteq> None \<and>
    podmonitors_view (snd (run_state (handler L K mem_client ObservabilityPodMonitor req) d))
      (key_of (target_PM w)) \<noteq> None"
proof -
  have "requests Q c d = {}"
    by (rule watch_lib.monitor_events_silent [OF assms(1)])
      (auto simp: events_def tagged_def d mem_view_def)
  moreover have "calm d" using assms(4) unfolding d
    by (simp add: calm_def mem_healthy_def hatch_free_def mem_view_def)
  note step = handler_step [OF assms(2,3) this prod.collapse [symmetric], THEN conjunct2]
  have wd: "observabilities_view d req = Some w" using w(1) by (simp add: d mem_view_def)
  have none: "servicemonitors_view d k = None" "podmonitors_view d k = None" for k
    by (simp_all add: d mem_view_def lookup_def)
  obtain y z where yz: "service_monitor_mutate L w (target_SM w) = Inr y" "key_of y = key_of (target_SM w)"
    "pod_monitor_mutate L w (target_PM w) = Inr z" "key_of z = key_of (target_PM w)"
    by (rule fresh_monitor_accepted [OF assms(2)])
  ultimately show ?thesis
    using step [of K ObservabilityServiceMonitor req] step [of K ObservabilityPodMonitor req]
      w(2-4) wd none yz by (simp add: child_spec_def current_def)
qed


section \<open>The builder, and a run of the queue\<close>

definition builder_requests :: "controller_setup \<Rightarrow> string \<Rightarrow> ObjectMeta \<Rightarrow> key set" where
  "builder_requests s kind m =
     (if kind = setup_For s then {(om_Namespace m, om_Name m)} else {}) \<union>
     (if kind \<in> set (setup_Owns s) then
        (case controller_of m of
           None \<Rightarrow> {}
         | Some (k, n) \<Rightarrow>
             if k = setup_For s then {(if k = ''Workload'' then '''' else om_Namespace m, n)} else {})
      else {})"

interpretation builder: watch_lib builder_requests
  by unfold_locales (simp_all add: builder_requests_def)

text \<open>One Security; its Role is made, the new Role queues the request again, and that run is quiet.\<close>

definition lone_security :: cluster where
  "lone_security = empty_cluster\<lparr>cl_securities := [sample_security]\<rparr>"

abbreviation "role_run c \<equiv> sample_handler SecurityRole (''shop'', ''front'') c"

lemma lone_security_calm: "calm lone_security"
  unfolding calm_def hatch_free_def mem_view_def mem_healthy_def
  by (intro conjI all_stored_lookup; code_simp)

lemma lone_security_alone:
  assumes "cl_securities c = [sample_security]" and "p \<noteq> (SecurityRole, (''shop'', ''front''))"
  shows "\<not> competes p (SecurityRole, (''shop'', ''front'')) c"
proof
  assume com: "competes p (SecurityRole, (''shop'', ''front'')) c"
  then have "fst p = SecurityRole" using written_kind_eq [of "fst p" SecurityRole]
    by (auto simp: competes_def doubleton_eq_iff)
  with com obtain y where "securities_view c (snd p) = Some y"
    by (cases "securities_view c (snd p)") (simp_all add: competes_def)
  then have "lookup [sample_security] (snd p) = Some y" by (simp add: mem_view_def assms(1))
  from lookup_mem [OF this] lookup_key [OF this] have "snd p = key_of sample_security" by simp
  with \<open>fst p = SecurityRole\<close> assms(2) show False
    by (cases p) (simp add: sample_security_def named_object_def named_meta_def key_of_def)
qed

lemma lone_security_served:
  "(queue_step builder_requests mem_lib trivial_codecs)\<^sup>*\<^sup>*
     (lone_security, initial_queue builder_requests lone_security)
     (snd (role_run lone_security),
      (initial_queue builder_requests lone_security - {(SecurityRole, (''shop'', ''front''))} \<union>
       requests builder_requests lone_security (snd (role_run lone_security))) -
      {(SecurityRole, (''shop'', ''front''))})"
proof -
  let ?p = "(SecurityRole, (''shop'', ''front''))" and ?c = "snd (role_run lone_security)"
  let ?q = "initial_queue builder_requests lone_security"
  let ?q' = "?q - {?p} \<union> requests builder_requests lone_security ?c"
  have eq: "role_run lone_security = (None, ?c)" "role_run ?c = (None, ?c)"
    "cl_securities ?c = [sample_security]" by code_simp+
  have "\<not> owner_same SecurityRole (''shop'', ''front'') lone_security empty_cluster" by code_simp
  then have "?p \<in> ?q" unfolding initial_queue_def by (rule builder.owner_requested)
  then have one: "queue_step builder_requests mem_lib trivial_codecs (lone_security, ?q) (?c, ?q')"
  proof (rule queue_step.serve)
    show "run_state (handler mem_lib trivial_codecs mem_client (fst ?p) (snd ?p)) lone_security = (None, ?c)"
      unfolding fst_conv snd_conv by (rule eq(1))
    show "\<forall>p'. p' \<noteq> ?p \<longrightarrow> \<not> competes p' ?p lone_security"
      by (intro allI impI lone_security_alone) (simp_all add: lone_security_def)
  qed simp
  have "?p \<in> requests builder_requests lone_security ?c"
  proof (rule builder.child_requested)
    let ?k = "(''shop'', ''front-role'')"
    let ?m = "obj_Meta (the (roles_view ?c ?k))"
    show "\<not> child_same SecurityRole ?k ?c lone_security" by code_simp
    show "\<not> patcher SecurityRole" "\<not> monitor SecurityRole" by (simp_all add: patcher_def monitor_def)
    have "child_meta SecurityRole ?k ?c = Some ?m" by code_simp
    then show "child_meta SecurityRole ?k lone_security = Some ?m \<or> child_meta SecurityRole ?k ?c = Some ?m" ..
    show "controlled SecurityRole (''shop'', ''front'') ?m" by code_simp
  qed
  then have "?p \<in> ?q'" by blast
  then have two: "queue_step builder_requests mem_lib trivial_codecs (?c, ?q') (?c, ?q' - {?p})"
  proof (rule queue_step.serve)
    show "run_state (handler mem_lib trivial_codecs mem_client (fst ?p) (snd ?p)) ?c = (None, ?c)"
      unfolding fst_conv snd_conv by (rule eq(2))
    show "\<forall>p'. p' \<noteq> ?p \<longrightarrow> \<not> competes p' ?p ?c"
      by (intro allI impI lone_security_alone eq(3))
    have "requests builder_requests ?c ?c = {}"
      by (rule same_objects_quiet) (simp add: same_objects_def)
    then show "?q' - {?p} = (if None = None then ?q' - {?p} else ?q') \<union> requests builder_requests ?c ?c"
      by simp
  qed
  from two have "(queue_step builder_requests mem_lib trivial_codecs)\<^sup>*\<^sup>* (?c, ?q') (?c, ?q' - {?p})"
    by (rule r_into_rtranclp)
  with one show ?thesis by (rule converse_rtranclp_into_rtranclp)
qed

theorem unqueued_is_desired_witness:
  "desired mem_lib trivial_codecs SecurityRole (''shop'', ''front'') (snd (role_run lone_security))"
proof -
  have "well_scoped SecurityRole (''shop'', ''front'')" by (simp add: well_scoped_def setup_defs)
  from unqueued_is_desired [OF builder.watch_lib_axioms, OF mem_lib.runtime_lib_axioms, OF mem_lib_simps(2),
      OF lone_security_served, OF lone_security_calm, OF this]
  show ?thesis by blast
qed

theorem lost_monitors_unseen_witness:
  "requests builder_requests fresh_cluster (fresh_cluster\<lparr>cl_servicemonitors := [], cl_podmonitors := []\<rparr>) = {}"
proof -
  have "\<not> observability_unnamed sample_observability" "sm_wanted sample_observability"
    "pm_wanted sample_observability"
    "observabilities_view fresh_cluster (''shop'', ''front'') = Some sample_observability" by code_simp+
  from lost_monitors_unseen [OF builder.watch_lib_axioms, OF mem_lib.runtime_lib_axioms, OF mem_lib_simps(2),
      OF fresh_cluster_calm, OF this(4), OF this(1-3), OF refl, of trivial_codecs]
  show ?thesis by blast
qed


end
