(* ===== verification/Dropped_Errors.thy ===== *)
theory Dropped_Errors
  imports Work_Queue
begin

text \<open>
  The thirteen controllers with one child remove it when the feature is off:
  \<^verbatim>\<open>if err := r.Get(...); err == nil { r.Delete(...) }\<close>.  The read may fail for any reason, and
  every one of them is taken for "there is nothing to delete".
\<close>

text \<open>The owner is there and names its target, and it does not want the child.\<close>

fun unwanted :: "controller \<Rightarrow> key \<Rightarrow> cluster \<Rightarrow> bool" where
  "unwanted WorkloadCompute req c \<longleftrightarrow> pred_option (\<lambda>w. \<not> workload_unplaced w \<and> \<not> workload_wants_compute w) (workloads_view c req) \<and> workloads_view c req \<noteq> None"
| "unwanted WorkloadStorage req c \<longleftrightarrow> pred_option (\<lambda>w. \<not> workload_unplaced w \<and> \<not> workload_wants_storage w) (workloads_view c req) \<and> workloads_view c req \<noteq> None"
| "unwanted WorkloadNetworking req c \<longleftrightarrow> pred_option (\<lambda>w. \<not> workload_unplaced w \<and> \<not> workload_wants_networking w) (workloads_view c req) \<and> workloads_view c req \<noteq> None"
| "unwanted WorkloadObservability req c \<longleftrightarrow> pred_option (\<lambda>w. \<not> workload_unplaced w \<and> \<not> workload_wants_observability w) (workloads_view c req) \<and> workloads_view c req \<noteq> None"
| "unwanted WorkloadSecurity req c \<longleftrightarrow> pred_option (\<lambda>w. \<not> workload_unplaced w \<and> \<not> workload_wants_security w) (workloads_view c req) \<and> workloads_view c req \<noteq> None"
| "unwanted ComputeHPA req c \<longleftrightarrow> pred_option (\<lambda>w. \<not> compute_unnamed w \<and> \<not> hpa_enabled w) (computes_view c req) \<and> computes_view c req \<noteq> None"
| "unwanted ComputePDB req c \<longleftrightarrow> pred_option (\<lambda>w. \<not> compute_unnamed w \<and> \<not> has_PDB w) (computes_view c req) \<and> computes_view c req \<noteq> None"
| "unwanted NetworkingService req c \<longleftrightarrow> pred_option (\<lambda>w. \<not> networking_unnamed w \<and> \<not> svc_enabled w) (networkings_view c req) \<and> networkings_view c req \<noteq> None"
| "unwanted NetworkingIngress req c \<longleftrightarrow> pred_option (\<lambda>w. \<not> networking_unnamed w \<and> \<not> has_ingress w) (networkings_view c req) \<and> networkings_view c req \<noteq> None"
| "unwanted ObservabilityServiceMonitor req c \<longleftrightarrow> pred_option (\<lambda>w. \<not> observability_unnamed w \<and> \<not> sm_wanted w) (observabilities_view c req) \<and> observabilities_view c req \<noteq> None"
| "unwanted ObservabilityPodMonitor req c \<longleftrightarrow> pred_option (\<lambda>w. \<not> observability_unnamed w \<and> \<not> pm_wanted w) (observabilities_view c req) \<and> observabilities_view c req \<noteq> None"
| "unwanted SecurityRole req c \<longleftrightarrow> pred_option (\<lambda>w. \<not> security_unnamed w \<and> \<not> rbac_wanted w) (securities_view c req) \<and> securities_view c req \<noteq> None"
| "unwanted SecurityRoleBinding req c \<longleftrightarrow> pred_option (\<lambda>w. \<not> security_unnamed w \<and> \<not> rbac_wanted w) (securities_view c req) \<and> securities_view c req \<noteq> None"
| "unwanted _ req c \<longleftrightarrow> False"

lemma child_read_error:
  assumes "oview c req = Some w" and "\<not> skip w" and "\<not> enabled w"
    and "cl_faults c = Pass # Drop msg # fs" and "oview = mem_view osel"
    and "\<And>c fs. osel (c\<lparr>cl_faults := fs\<rparr>) = osel c"
  shows "run_state (child_reconcile L (mem_api osel oupd) (mem_api csel cupd) skip enabled fresh prepare mutate req) c =
    (None, c\<lparr>cl_faults := fs\<rparr>)"
  using assms
  by (simp add: child_reconcile_def mem_api_def reading_def next_fault_def or_not_found_def mem_view_def)

text \<open>
  C30: When one of these controllers is to remove its child and the read of the child fails, by
  whatever transient error, the run changes nothing and reports success: the unwanted object
  stays, the request leaves the queue and nothing retries it.
\<close>

theorem unwanted_child_survives_read_error:
  assumes "unwanted ctl req c" and "cl_faults c = Pass # Drop msg # fs"
  shows "run_state (handler L K mem_client ctl req) c = (None, c\<lparr>cl_faults := fs\<rparr>)"
proof (cases ctl)
  case WorkloadCompute
  with assms(1) obtain w where "workloads_view c req = Some w" "\<not> workload_unplaced w" "\<not> workload_wants_compute w"
    by (cases "workloads_view c req") simp_all
  then show ?thesis unfolding WorkloadCompute handler.simps mem_client_simps workload_compute.pure_shape
    by (rule child_read_error [OF _ _ _ assms(2) refl]) simp
next
  case WorkloadStorage
  with assms(1) obtain w where "workloads_view c req = Some w" "\<not> workload_unplaced w" "\<not> workload_wants_storage w"
    by (cases "workloads_view c req") simp_all
  then show ?thesis unfolding WorkloadStorage handler.simps mem_client_simps workload_storage.pure_shape
    by (rule child_read_error [OF _ _ _ assms(2) refl]) simp
next
  case WorkloadNetworking
  with assms(1) obtain w where "workloads_view c req = Some w" "\<not> workload_unplaced w" "\<not> workload_wants_networking w"
    by (cases "workloads_view c req") simp_all
  then show ?thesis unfolding WorkloadNetworking handler.simps mem_client_simps workload_networking.pure_shape
    by (rule child_read_error [OF _ _ _ assms(2) refl]) simp
next
  case WorkloadObservability
  with assms(1) obtain w where "workloads_view c req = Some w" "\<not> workload_unplaced w" "\<not> workload_wants_observability w"
    by (cases "workloads_view c req") simp_all
  then show ?thesis unfolding WorkloadObservability handler.simps mem_client_simps workload_observability.pure_shape
    by (rule child_read_error [OF _ _ _ assms(2) refl]) simp
next
  case WorkloadSecurity
  with assms(1) obtain w where "workloads_view c req = Some w" "\<not> workload_unplaced w" "\<not> workload_wants_security w"
    by (cases "workloads_view c req") simp_all
  then show ?thesis unfolding WorkloadSecurity handler.simps mem_client_simps workload_security.pure_shape
    by (rule child_read_error [OF _ _ _ assms(2) refl]) simp
next
  case ComputeDeployment
  with assms(1) show ?thesis by simp
next
  case ComputeHPA
  with assms(1) obtain w where "computes_view c req = Some w" "\<not> compute_unnamed w" "\<not> hpa_enabled w"
    by (cases "computes_view c req") simp_all
  then show ?thesis unfolding ComputeHPA handler.simps mem_client_simps hpa.pure_shape
    by (rule child_read_error [OF _ _ _ assms(2) refl]) simp
next
  case ComputePDB
  with assms(1) obtain w where "computes_view c req = Some w" "\<not> compute_unnamed w" "\<not> has_PDB w"
    by (cases "computes_view c req") simp_all
  then show ?thesis unfolding ComputePDB handler.simps mem_client_simps pdb.shape
    by (rule child_read_error [OF _ _ _ assms(2) refl]) simp
next
  case StoragePVC
  with assms(1) show ?thesis by simp
next
  case StorageDeployment
  with assms(1) show ?thesis by simp
next
  case NetworkingService
  with assms(1) obtain w where "networkings_view c req = Some w" "\<not> networking_unnamed w" "\<not> svc_enabled w"
    by (cases "networkings_view c req") simp_all
  then show ?thesis unfolding NetworkingService handler.simps mem_client_simps svc.pure_shape
    by (rule child_read_error [OF _ _ _ assms(2) refl]) simp
next
  case NetworkingIngress
  with assms(1) obtain w where "networkings_view c req = Some w" "\<not> networking_unnamed w" "\<not> has_ingress w"
    by (cases "networkings_view c req") simp_all
  then show ?thesis unfolding NetworkingIngress handler.simps mem_client_simps ing.pure_shape
    by (rule child_read_error [OF _ _ _ assms(2) refl]) simp
next
  case ObservabilityServiceMonitor
  with assms(1) obtain w where "observabilities_view c req = Some w" "\<not> observability_unnamed w" "\<not> sm_wanted w"
    by (cases "observabilities_view c req") simp_all
  then show ?thesis unfolding ObservabilityServiceMonitor handler.simps mem_client_simps servicemonitor.pure_shape
    by (rule child_read_error [OF _ _ _ assms(2) refl]) simp
next
  case ObservabilityPodMonitor
  with assms(1) obtain w where "observabilities_view c req = Some w" "\<not> observability_unnamed w" "\<not> pm_wanted w"
    by (cases "observabilities_view c req") simp_all
  then show ?thesis unfolding ObservabilityPodMonitor handler.simps mem_client_simps podmonitor.pure_shape
    by (rule child_read_error [OF _ _ _ assms(2) refl]) simp
next
  case SecurityRole
  with assms(1) obtain w where "securities_view c req = Some w" "\<not> security_unnamed w" "\<not> rbac_wanted w"
    by (cases "securities_view c req") simp_all
  then show ?thesis unfolding SecurityRole handler.simps mem_client_simps role.pure_shape
    by (rule child_read_error [OF _ _ _ assms(2) refl]) simp
next
  case SecurityRoleBinding
  with assms(1) obtain w where "securities_view c req = Some w" "\<not> security_unnamed w" "\<not> rbac_wanted w"
    by (cases "securities_view c req") simp_all
  then show ?thesis unfolding SecurityRoleBinding handler.simps mem_client_simps rolebinding.pure_shape
    by (rule child_read_error [OF _ _ _ assms(2) refl]) simp
qed

definition flaky_cluster :: cluster where
  "flaky_cluster = sample_cluster\<lparr>cl_computes := [sample_compute_off], cl_faults := [Pass, Drop ''timeout'']\<rparr>"

theorem unwanted_child_survives_read_error_witness:
  "sample_handler ComputeHPA (''shop'', ''front'') flaky_cluster = (None, flaky_cluster\<lparr>cl_faults := []\<rparr>) \<and>
   hpas_view (flaky_cluster\<lparr>cl_faults := []\<rparr>) (''shop'', ''front-hpa'') \<noteq> None"
proof -
  have "computes_view flaky_cluster (''shop'', ''front'') = Some sample_compute_off"
    "\<not> compute_unnamed sample_compute_off" "\<not> hpa_enabled sample_compute_off" by code_simp+
  then have "unwanted ComputeHPA (''shop'', ''front'') flaky_cluster" by simp
  moreover have "cl_faults flaky_cluster = [Pass, Drop ''timeout'']" by (simp add: flaky_cluster_def)
  ultimately have "sample_handler ComputeHPA (''shop'', ''front'') flaky_cluster = (None, flaky_cluster\<lparr>cl_faults := []\<rparr>)"
    by (rule unwanted_child_survives_read_error)
  moreover have "hpas_view (flaky_cluster\<lparr>cl_faults := []\<rparr>) (''shop'', ''front-hpa'') \<noteq> None" by code_simp
  ultimately show ?thesis ..
qed

end
