(* ===== verification/Patch_Race.thy ===== *)
theory Patch_Race
  imports Settling
begin

text \<open>
  Two writers of one Deployment.  \<open>Cluster_Run\<close> lets handlers run one after the other; in the
  manager they run concurrently and read from a cache, and \<^verbatim>\<open>client.MergeFrom\<close> without the
  optimistic lock sends only the difference between what was read and what was made of it,
  which the server merges into whatever it holds by then.  The merge is a parameter with the
  laws of JSON merge patches: an array that did not change is left alone, one that did
  replaces the one on the server.
\<close>

section \<open>Merge patches against a cache\<close>

abbreviation tmpl :: "Deployment \<Rightarrow> PodSpec" where
  "tmpl d \<equiv> dep_Template_Spec (obj_Spec d)"

text \<open>\<open>M new old cur\<close>: the difference from \<open>old\<close> to \<open>new\<close>, applied to \<open>cur\<close>.\<close>

locale merge_patch =
  fixes M :: "Deployment \<Rightarrow> Deployment \<Rightarrow> Deployment \<Rightarrow> Deployment"
  assumes merge_volumes:
      "ps_Volumes (tmpl (M new old cur)) =
         (if ps_Volumes (tmpl new) = ps_Volumes (tmpl old) then ps_Volumes (tmpl cur)
          else ps_Volumes (tmpl new))"
    and merge_containers:
      "ps_Containers (tmpl (M new old cur)) =
         (if ps_Containers (tmpl new) = ps_Containers (tmpl old) then ps_Containers (tmpl cur)
          else ps_Containers (tmpl new))"
    and merge_spread:
      "ps_TopologySpreadConstraints (tmpl (M new old cur)) =
         (if ps_TopologySpreadConstraints (tmpl new) = ps_TopologySpreadConstraints (tmpl old)
          then ps_TopologySpreadConstraints (tmpl cur) else ps_TopologySpreadConstraints (tmpl new))"
    and merge_node_selector:
      "ps_NodeSelector (tmpl new) = ps_NodeSelector (tmpl old) \<Longrightarrow>
         ps_NodeSelector (tmpl (M new old cur)) = ps_NodeSelector (tmpl cur)"
    and merge_affinity:
      "ps_Affinity (tmpl new) = ps_Affinity (tmpl old) \<Longrightarrow>
         ps_Affinity (tmpl (M new old cur)) = ps_Affinity (tmpl cur)"

text \<open>Reads of Deployments come from the cache, patches go to the server.\<close>

locale cached_client = merge_patch M
  for M +
  fixes dapi :: "('s, Deployment) api"
    and cache server :: "'s \<Rightarrow> key \<Rightarrow> Deployment option"
    and is_nf :: "go_error \<Rightarrow> bool"
  assumes cache_key: "cache s k = Some d \<Longrightarrow> key_of d = k"
    and cache_get: "preserves server (api_get dapi k)"
    and cache_found: "run_state (api_get dapi k) s = (Inr d, s') \<Longrightarrow> cache s k = Some d"
    and cache_missing: "run_state (api_get dapi k) s = (Inl e, s') \<Longrightarrow> is_nf e \<Longrightarrow> cache s k = None"
    and patched:
      "run_state (api_patch dapi new old) s = (None, s') \<Longrightarrow>
         \<exists>cur. server s (key_of new) = Some cur \<and>
           server s' = (server s)(key_of new \<mapsto> M new old cur)"
begin

text \<open>A run of a controller that patches its target, when it reports success.\<close>

lemma cached_success:
  assumes run: "run_state (target_reconcile L oapi dapi unnamed applies wanted target transform failed req) s =
      (None, s')"
    and w: "run_state (api_get oapi req) s = (Inr w, t)" "server t = server s" "cache t = cache s"
    and "\<not> unnamed w" "applies w" "wanted w" and d: "cache s (target w) = Some d"
    and nf: "is_nf = lib_IsNotFound L"
    and key: "\<And>new. transform w d = Inr new \<Longrightarrow> key_of new = key_of d"
  obtains new cur where "transform w d = Inr new" "server s (target w) = Some cur"
    and "server s' = (server s)(target w \<mapsto> M new d cur)"
proof -
  obtain g u where g: "run_state (api_get dapi (target w)) t = (g, u)" by (metis surj_pair)
  have u: "server u = server s" using preservesD [OF cache_get g] w(2) by simp
  have "g = Inr d"
  proof (cases g)
    case (Inl e)
    with g have "\<not> lib_IsNotFound L e" using cache_missing [of "target w" t e u] d w(3) nf by auto
    with run w(1) g Inl assms(5,6) show ?thesis by (simp add: target_reconcile_def)
  next
    case (Inr d')
    with cache_found [of "target w" t d' u] g d w(3) show ?thesis by simp
  qed
  with run w(1) g assms(5-7) obtain new where new: "transform w d = Inr new"
      "run_state (api_patch dapi new d) u = (None, s')"
    by (auto simp: target_reconcile_def split: sum.splits prod.splits)
  with patched [OF new(2)] key [OF new(1)] cache_key [OF d] u show thesis by (auto intro: that)
qed

end

section \<open>The two controllers\<close>


text \<open>
  The scheduling controller does not have this problem: whatever it read, its patch leaves
  the containers and the volumes that the server has by then.  So the two controllers never
  undo each other's part of a Deployment.
\<close>

theorem stale_scheduling_patch_spares:
  assumes "cached_client M dapi cache server (lib_IsNotFound L)"
    and "run_state (ComputeDeploymentReconciler_Reconcile L cod oapi dapi req) s = (None, s')"
    and w: "run_state (api_get oapi req) s = (Inr w, t)" "server t = server s" "cache t = cache s"
    and "\<not> compute_unnamed w" "compute_targets_deployment w" "has_scheduling w"
    and hf: "hatches_for ''Deployment'' (cs_EscapeHatches (obj_Spec w)) = []"
    and "cache s (compute_target_key w) = Some d" "server s (compute_target_key w) = Some cur"
  shows "\<exists>x. server s' = (server s)(compute_target_key w \<mapsto> x) \<and>
    ps_Volumes (tmpl x) = ps_Volumes (tmpl cur) \<and> ps_Containers (tmpl x) = ps_Containers (tmpl cur)"
proof -
  note M = cached_client.axioms(1) [OF assms(1)]
  let ?new = "d\<lparr>obj_Spec := apply_scheduling (cs_Scheduling (obj_Spec w)) (obj_Spec d)\<rparr>"
  have tr: "scheduling_transform L cod w d = Inr ?new" by (rule scheduling_transform_plain [OF hf])
  have "key_of new = key_of d" if "scheduling_transform L cod w d = Inr new" for new
    using that by (auto simp: tr key_of_def)
  from cached_client.cached_success [OF assms(1) assms(2) [unfolded compute_deployment.patcher_shape] w
      assms(6-8) assms(10) refl this] assms(11) tr
  have "server s' = (server s)(compute_target_key w \<mapsto> M ?new d cur)" by (metis option.inject sum.inject(2))
  then show ?thesis
    by (intro exI [of _ "M ?new d cur"])
      (simp add: merge_patch.merge_volumes [OF M] merge_patch.merge_containers [OF M] apply_scheduling_def)
qed

section \<open>A cluster with a cache\<close>

text \<open>
  The state is the cluster and the Deployments the cache holds.  \<open>merge_deployment\<close> sends every
  field that differs.
\<close>

definition pick :: "('d \<Rightarrow> 'f) \<Rightarrow> 'd \<Rightarrow> 'd \<Rightarrow> 'd \<Rightarrow> 'f" where
  "pick f new old cur = (if f new = f old then f cur else f new)"

definition merge_deployment :: "Deployment \<Rightarrow> Deployment \<Rightarrow> Deployment \<Rightarrow> Deployment" where
  "merge_deployment new old cur =
     cur\<lparr>obj_Spec :=
       \<lparr>dep_Selector = pick (\<lambda>d. dep_Selector (obj_Spec d)) new old cur,
        dep_Template_Spec =
          \<lparr>ps_Volumes = pick (\<lambda>d. ps_Volumes (tmpl d)) new old cur,
           ps_Containers = pick (\<lambda>d. ps_Containers (tmpl d)) new old cur,
           ps_NodeSelector = pick (\<lambda>d. ps_NodeSelector (tmpl d)) new old cur,
           ps_Affinity = pick (\<lambda>d. ps_Affinity (tmpl d)) new old cur,
           ps_TopologySpreadConstraints = pick (\<lambda>d. ps_TopologySpreadConstraints (tmpl d)) new old cur,
           ps_rest = pick (\<lambda>d. ps_rest (tmpl d)) new old cur\<rparr>,
        dep_rest = pick (\<lambda>d. dep_rest (obj_Spec d)) new old cur\<rparr>\<rparr>"

definition lift_state :: "('a, 'r) state \<Rightarrow> ('a \<times> 'b, 'r) state" where
  "lift_state m = State (\<lambda>(c, e). case run_state m c of (r, c') \<Rightarrow> (r, (c', e)))"

lemma run_lift_state [simp]:
  "run_state (lift_state m) (c, e) = (case run_state m c of (r, c') \<Rightarrow> (r, (c', e)))"
  by (simp add: lift_state_def)

definition lift_api :: "('s, 'a) api \<Rightarrow> ('s \<times> 'b, 'a) api" where
  "lift_api A =
     \<lparr>api_get = (\<lambda>k. lift_state (api_get A k)), api_list = (\<lambda>ns. lift_state (api_list A ns)),
      api_delete = (\<lambda>x. lift_state (api_delete A x)),
      api_patch = (\<lambda>new old. lift_state (api_patch A new old)),
      api_createOrUpdate = (\<lambda>x f. lift_state (api_createOrUpdate A x f))\<rparr>"

definition cached_deployments :: "(cluster \<times> Deployment list, Deployment) api" where
  "cached_deployments =
     (lift_api deployments_api)
       \<lparr>api_get := (\<lambda>k. State (\<lambda>(c, ds). (or_not_found (lookup ds k), (c, ds)))),
        api_patch := (\<lambda>new old. State (\<lambda>(c, ds).
          (case lookup (cl_deployments c) (key_of new) of
             None \<Rightarrow> (Some not_found, (c, ds))
           | Some cur \<Rightarrow>
               (None, (c\<lparr>cl_deployments :=
                  store (merge_deployment new old cur) (cl_deployments c)\<rparr>, ds)))))\<rparr>"

interpretation merge_fields: merge_patch merge_deployment
  by unfold_locales (simp_all add: merge_deployment_def pick_def)

lemma key_of_merge [simp]: "key_of (merge_deployment new old cur) = key_of cur"
  by (simp add: merge_deployment_def key_of_def)

interpretation cached_cluster: cached_client merge_deployment cached_deployments
    "\<lambda>s. lookup (snd s)" "\<lambda>s. deployments_view (fst s)" mem_nf
proof (unfold_locales, goal_cases)
  case (1 s k d)
  then show ?case by (rule lookup_key)
next
  case (2 k)
  show ?case by (auto simp: preserves_def cached_deployments_def)
next
  case (3 k s d s')
  then show ?case
    by (auto simp: cached_deployments_def or_not_found_def split: option.splits prod.splits)
next
  case (4 k s e s')
  then show ?case
    by (auto simp: cached_deployments_def or_not_found_def split: option.splits prod.splits)
next
  case (5 new old s s')
  then show ?case
    by (auto simp: cached_deployments_def mem_view_def lookup_store dest: lookup_key
        split: option.splits prod.splits)
qed

text \<open>A new image is rolled out while the volume controller still has the old Deployment in its cache.\<close>

definition with_image :: "string \<Rightarrow> Deployment \<Rightarrow> Deployment" where
  "with_image i d = d\<lparr>obj_Spec := (obj_Spec d)\<lparr>dep_Template_Spec := (tmpl d)
     \<lparr>ps_Containers := map (\<lambda>c. c\<lparr>ct_rest := JObj [(''image'', JStr i)]\<rparr>) (ps_Containers (tmpl d))\<rparr>\<rparr>\<rparr>"

definition rollout :: "cluster \<times> Deployment list" where
  "rollout = (sample_cluster\<lparr>cl_deployments := [with_image ''v2'' sample_deployment]\<rparr>,
     [with_image ''v1'' sample_deployment])"

abbreviation "stale_volumes_run \<equiv> run_state (StorageDeploymentReconciler_Reconcile mem_lib trivial_codec
  (lift_api storages_api) cached_deployments (''shop'', ''front'')) rollout"


abbreviation "stale_scheduling_run \<equiv> run_state (ComputeDeploymentReconciler_Reconcile mem_lib trivial_codec
  (lift_api computes_api) cached_deployments (''shop'', ''front'')) rollout"

theorem stale_scheduling_patch_spares_witness:
  "\<exists>x. deployments_view (fst (snd stale_scheduling_run)) (''shop'', ''web'') = Some x \<and>
     ps_Containers (tmpl x) = ps_Containers (tmpl (with_image ''v2'' sample_deployment))"
proof -
  have run: "stale_scheduling_run = (None, snd stale_scheduling_run)" by (rule run_state_outcome) code_simp
  have get: "run_state (api_get (lift_api computes_api) (''shop'', ''front'')) rollout = (Inr sample_compute, rollout)"
    by code_simp
  have w: "\<not> compute_unnamed sample_compute" "compute_targets_deployment sample_compute" "has_scheduling sample_compute"
    "hatches_for ''Deployment'' (cs_EscapeHatches (obj_Spec sample_compute)) = []"
    "lookup (snd rollout) (compute_target_key sample_compute) = Some (with_image ''v1'' sample_deployment)"
    "deployments_view (fst rollout) (compute_target_key sample_compute) = Some (with_image ''v2'' sample_deployment)"
    "compute_target_key sample_compute = (''shop'', ''web'')"
    by code_simp+
  have client: "cached_client merge_deployment cached_deployments (\<lambda>s. lookup (snd s))
      (\<lambda>s. deployments_view (fst s)) (lib_IsNotFound mem_lib)"
    unfolding mem_lib_simps(2) by (rule cached_cluster.cached_client_axioms)
  from stale_scheduling_patch_spares [OF client, OF run, OF get, OF refl, OF refl, OF w(1), OF w(2), OF w(3),
      OF w(4), OF w(5), OF w(6)] w(7)
  show ?thesis by auto
qed

end
