(* ===== verification/Queue_Rest.thy ===== *)
theory Queue_Rest
  imports Work_Queue
begin

text \<open>
  Where the work queue ends when nobody else interferes.  Requests are offered in any fair
  order and served when they are queued.  Requests that are not served are not lost: they are
  tended, so the argument of \<open>Schedules\<close> applies, and once nothing changes any more, no event
  refills the queue.
\<close>

section \<open>Serving what is queued\<close>

lemma same_objects_sym: "same_objects c d \<Longrightarrow> same_objects d c"
  by (simp add: same_objects_def)

definition serve_one ::
    "(controller_setup \<Rightarrow> string \<Rightarrow> ObjectMeta \<Rightarrow> key set) \<Rightarrow> lib \<Rightarrow> codecs \<Rightarrow> work \<Rightarrow>
     cluster \<times> work set \<Rightarrow> cluster \<times> work set" where
  "serve_one Q L K p s =
     (case s of (c, q) \<Rightarrow>
        if p \<in> q then
          (case run_state (handler L K mem_client (fst p) (snd p)) c of
             (r, c') \<Rightarrow> (c', (if r = None then q - {p} else q) \<union> requests Q c c'))
        else (c, q))"

primrec queue_run ::
    "(controller_setup \<Rightarrow> string \<Rightarrow> ObjectMeta \<Rightarrow> key set) \<Rightarrow> lib \<Rightarrow> codecs \<Rightarrow> (nat \<Rightarrow> work) \<Rightarrow>
     cluster \<Rightarrow> nat \<Rightarrow> cluster \<times> work set" where
  "queue_run Q L K pick c 0 = (c, initial_queue Q c)"
| "queue_run Q L K pick c (Suc n) = serve_one Q L K (pick n) (queue_run Q L K pick c n)"

lemma serve_one_cases:
  obtains (idle) "p \<notin> snd s" "serve_one Q L K p s = s"
  | (served) r c' where "p \<in> snd s" "run_state (handler L K mem_client (fst p) (snd p)) (fst s) = (r, c')"
      "serve_one Q L K p s = (c', (if r = None then snd s - {p} else snd s) \<union> requests Q (fst s) c')"
  by (cases s; cases "p \<in> snd s"; cases "run_state (handler L K mem_client (fst p) (snd p)) (fst s)")
    (auto simp: serve_one_def)

text \<open>The requests of \<open>R\<close> that are not queued are tended.\<close>

definition tended_in :: "work set \<Rightarrow> lib \<Rightarrow> codecs \<Rightarrow> cluster \<times> work set \<Rightarrow> bool" where
  "tended_in R L K s \<longleftrightarrow> calm (fst s) \<and>
     (\<forall>p \<in> R. p \<notin> snd s \<longrightarrow> tended L K (fst p) (snd p) (fst s))"

context watch_lib
begin

lemma serve_one_tended:
  assumes rt: "runtime_lib L" and nf: "lib_IsNotFound L = mem_nf" and inv: "tended_in R L K s"
    and "p \<in> R" and "no_rivals R (fst s)" and scoped: "\<forall>p \<in> R. well_scoped (fst p) (snd p)"
  shows "tended_in R L K (serve_one Q L K p s)"
proof (cases rule: serve_one_cases [of p s Q L K])
  case idle
  with inv show ?thesis by simp
next
  case (served r c')
  from inv have calm: "calm (fst s)"
    and t: "\<And>p. p \<in> R \<Longrightarrow> p \<notin> snd s \<Longrightarrow> tended L K (fst p) (snd p) (fst s)"
    by (auto simp: tended_in_def)
  have calm': "calm c'"
    by (rule handler_calm [OF rt nf calm served(2)]) (use handler_settles [OF rt nf calm served(2)] in blast)
  have "tended L K (fst p') (snd p') c'" if p': "p' \<in> R" "p' \<notin> snd (serve_one Q L K p s)" for p'
  proof (cases "p' = p")
    case True
    with p'(2) served(1,3) have "r = None" by (auto split: if_splits)
    with handler_tends [OF rt nf calm] bspec [OF scoped p'(1)] served(2) True show ?thesis by blast
  next
    case False
    with p'(2) served(3) have "p' \<notin> snd s" "p' \<notin> requests Q (fst s) c'" by (auto split: if_splits)
    moreover have "\<not> competes (fst p', snd p') (fst p, snd p) (fst s)"
      using assms(4,5) p'(1) False unfolding no_rivals_def by simp
    then have "\<not> unseen (fst p') (snd p') (fst s) c'" by (rule run_seen [OF rt nf calm served(2)])
    ultimately show ?thesis using tended_kept t [OF p'(1)] calm' by (simp add: calm_def)
  qed
  with calm' served(3) show ?thesis by (simp add: tended_in_def)
qed

lemma queue_run_tended:
  assumes "runtime_lib L" and "lib_IsNotFound L = mem_nf" and "calm c"
    and "range pick \<subseteq> R" and "\<forall>n. no_rivals R (fst (queue_run Q L K pick c n))"
    and "\<forall>p \<in> R. well_scoped (fst p) (snd p)"
  shows "tended_in R L K (queue_run Q L K pick c n)"
proof (induction n)
  case 0
  from assms(3) unqueued_at_start show ?case by (simp add: tended_in_def)
next
  case (Suc n)
  from assms(4) have "pick n \<in> R" by blast
  with assms(5,6) show ?case
    unfolding queue_run.simps by (intro serve_one_tended [OF assms(1,2) Suc]) blast+
qed

text \<open>From some moment on, nothing changes: neither the objects nor the queue.\<close>

lemma queue_run_rests:
  assumes "runtime_lib L" and "lib_IsNotFound L = mem_nf" and "calm c"
    and fin: "finite R" and fair: "fair_for R pick"
    and inR: "\<forall>n. snd (queue_run Q L K pick c n) \<subseteq> R"
    and alone: "\<forall>n. no_rivals R (fst (queue_run Q L K pick c n))"
    and scoped: "\<forall>p \<in> R. well_scoped (fst p) (snd p)"
  shows "\<exists>N. \<forall>n \<ge> N. same_objects (fst (queue_run Q L K pick c n)) (fst (queue_run Q L K pick c N)) \<and>
    snd (queue_run Q L K pick c n) = snd (queue_run Q L K pick c N)"
proof -
  let ?s = "queue_run Q L K pick c"
  have range: "range pick \<subseteq> R" using fair by (simp add: fair_for_def)
  note tended = queue_run_tended [OF assms(1-3) range alone scoped]
  then have calm: "calm (fst (?s n))" for n by (simp add: tended_in_def)
  have step: "fst (?s (Suc n)) = fst (?s n) \<or> fst (?s (Suc n)) = run_work L K (pick n) (fst (?s n))" for n
    by (cases rule: serve_one_cases [of "pick n" "?s n" Q L K]) (simp_all add: run_work_def)
  have again: "\<exists>m \<ge> N. settled L K (fst p) (snd p) (fst (?s m))" if p: "p \<in> R" for p N
  proof -
    from p fair obtain m where m: "N \<le> m" "pick m = p" unfolding fair_for_def by blast
    show ?thesis
    proof (cases rule: serve_one_cases [of p "?s m" Q L K])
      case idle
      with tended [of m] p have "tended L K (fst p) (snd p) (fst (?s m))" by (simp add: tended_in_def)
      with m(1) desired_settled show ?thesis unfolding tended_def by blast
    next
      case (served r c')
      with handler_settles [OF assms(1,2) calm served(2)] m show ?thesis by (intro exI [of _ "Suc m"]) simp
    qed
  qed
  have "\<exists>N. \<forall>n \<ge> N. same_objects (fst (?s n)) (fst (?s N)) \<and> same_objects (fst (?s (Suc n))) (fst (?s n)) \<and>
      (\<forall>p \<in> R. settled L K (fst p) (snd p) (fst (?s n)))"
    by (rule recurrent_runs_come_to_rest [OF assms(1,2) calm fin, where sched = pick])
      (use range step again alone in blast)+
  then obtain M where M: "\<forall>n \<ge> M. same_objects (fst (?s n)) (fst (?s M)) \<and>
      same_objects (fst (?s (Suc n))) (fst (?s n))" by blast
  have shrink: "snd (?s (Suc n)) \<subseteq> snd (?s n)" if "M \<le> n" for n
  proof -
    from M that have "same_objects (fst (?s (Suc n))) (fst (?s n))" by blast
    from same_objects_quiet [OF same_objects_sym [OF this]]
    show ?thesis by (cases rule: serve_one_cases [of "pick n" "?s n" Q L K]) auto
  qed
  obtain N where N: "M \<le> N" "\<And>n. M \<le> n \<Longrightarrow> card (snd (?s N)) \<le> card (snd (?s n))"
    using ex_has_least_nat [of "\<lambda>n. M \<le> n" M "\<lambda>n. card (snd (?s n))"] by blast
  have "snd (?s n) = snd (?s N)" if "N \<le> n" for n
  proof -
    from that have "snd (?s n) \<subseteq> snd (?s N)"
    proof (induction rule: dec_induct)
      case (step n)
      from N(1) step.hyps(1) have "M \<le> n" by (rule order_trans)
      from shrink [OF this] step.IH show ?case by (rule subset_trans)
    qed simp
    with N that inR fin show ?thesis by (meson card_seteq finite_subset order_trans)
  qed
  moreover have "same_objects (fst (?s n)) (fst (?s N))" if "N \<le> n" for n
  proof -
    from N(1) that have "M \<le> n" by (rule order_trans)
    with M N(1) have "same_objects (fst (?s n)) (fst (?s M))" "same_objects (fst (?s N)) (fst (?s M))"
      by blast+
    from same_objects_trans [OF this(1) same_objects_sym [OF this(2)]] show ?thesis .
  qed
  ultimately show ?thesis by blast
qed

end

text \<open>
  C3: Let the operator start on a cluster without faults, escape hatches and Storages that
  repeat a volume name, be offered its requests in any fair order and serve those that are
  queued, and let nobody else change the cluster.  If the requests that ever occur are finitely many and never compete for an object,
  then from some moment on neither the objects nor the queue change; every request outside the
  queue has its objects as desired, and those left in the queue fail each time they are served.
\<close>

theorem queue_comes_to_rest:
  assumes "watch_lib Q" and "runtime_lib L" and "lib_IsNotFound L = mem_nf" and "calm c"
    and "finite R" and "fair_for R pick"
    and "\<forall>n. snd (queue_run Q L K pick c n) \<subseteq> R"
    and "\<forall>n. no_rivals R (fst (queue_run Q L K pick c n))"
    and "\<forall>(ctl, req) \<in> R. well_scoped ctl req"
  shows "\<exists>N. \<forall>n \<ge> N. (case queue_run Q L K pick c n of (d, q) \<Rightarrow>
      same_objects d (fst (queue_run Q L K pick c N)) \<and> q = snd (queue_run Q L K pick c N) \<and>
      (\<forall>(ctl, req) \<in> R - q. desired L K ctl req d) \<and>
      (pick n \<in> q \<longrightarrow> fst (run_state (handler L K mem_client (fst (pick n)) (snd (pick n))) d) \<noteq> None))"
proof -
  let ?s = "queue_run Q L K pick c"
  have scoped: "\<forall>p \<in> R. well_scoped (fst p) (snd p)" using assms(9) by auto
  have range: "range pick \<subseteq> R" using assms(6) by (simp add: fair_for_def)
  note tended = watch_lib.queue_run_tended [OF assms(1-4) range assms(8) scoped]
  obtain N where N: "\<forall>n \<ge> N. same_objects (fst (?s n)) (fst (?s N)) \<and> snd (?s n) = snd (?s N)"
    using watch_lib.queue_run_rests [OF assms(1-8) scoped] by blast
  have fails: "fst (run_state (handler L K mem_client (fst (pick n)) (snd (pick n))) (fst (?s n))) \<noteq> None"
    if n: "N \<le> n" and p: "pick n \<in> snd (?s n)" for n
  proof (cases rule: serve_one_cases [of "pick n" "?s n" Q L K])
    case idle
    with p show ?thesis by simp
  next
    case (served r c')
    have c': "c' = fst (?s (Suc n))" "(if r = None then snd (?s n) - {pick n} else snd (?s n)) \<union>
        requests Q (fst (?s n)) c' = snd (?s (Suc n))" by (simp_all add: served(3))
    from n have "N \<le> Suc n" by simp
    with N n have "same_objects (fst (?s n)) (fst (?s N))" "same_objects (fst (?s (Suc n))) (fst (?s N))"
      and q: "snd (?s (Suc n)) = snd (?s n)" by blast+
    from same_objects_quiet [OF same_objects_trans [OF this(1) same_objects_sym [OF this(2)]]]
    have "requests Q (fst (?s n)) c' = {}" by (simp only: c'(1))
    with c'(2) q have "(if r = None then snd (?s n) - {pick n} else snd (?s n)) = snd (?s n)" by simp
    with p have "r \<noteq> None" by (metis DiffE singletonI)
    with served(2) show ?thesis by simp
  qed
  have wanted: "desired L K (fst p) (snd p) (fst (?s n))" if "p \<in> R" "p \<notin> snd (?s n)" for p n
    using tended [of n] that unfolding tended_in_def tended_def by blast
  have "same_objects (fst (?s n)) (fst (?s N)) \<and> snd (?s n) = snd (?s N) \<and>
      (\<forall>p \<in> R - snd (?s n). desired L K (fst p) (snd p) (fst (?s n))) \<and>
      (pick n \<in> snd (?s n) \<longrightarrow>
        fst (run_state (handler L K mem_client (fst (pick n)) (snd (pick n))) (fst (?s n))) \<noteq> None)"
    if "N \<le> n" for n
    using N that fails [OF that] wanted by blast
  then show ?thesis unfolding case_prod_unfold by blast
qed

section \<open>One Security\<close>

text \<open>
  One Security, whose two controllers take turns: every state the operator can reach is one of
  four, and no event raises any other request.
\<close>

definition security_cluster :: "Role list \<Rightarrow> RoleBinding list \<Rightarrow> cluster" where
  "security_cluster rs bs = lone_security\<lparr>cl_roles := rs, cl_rolebindings := bs\<rparr>"

definition front_work :: "work set" where
  "front_work = {(SecurityRole, (''shop'', ''front'')), (SecurityRoleBinding, (''shop'', ''front''))}"

definition front_owned :: "('a, 'b) object \<Rightarrow> bool" where
  "front_owned x \<longleftrightarrow> controller_of (obj_Meta x) = Some (''Security'', ''front'') \<and>
     om_Namespace (obj_Meta x) = ''shop''"

lemma changed_members: "changed (lookup xs) (lookup ys) \<subseteq> set xs \<union> set ys"
  by (auto simp: changed_def dest: lookup_mem)

lemma owned_changed:
  assumes "list_all front_owned (xs @ ys)" and "e \<in> tagged kind (changed (lookup xs) (lookup ys))"
  shows "fst e = kind \<and> controller_of (snd e) = Some (''Security'', ''front'') \<and> om_Namespace (snd e) = ''shop''"
  using assms changed_members [of xs ys] by (auto simp: tagged_def list_all_iff front_owned_def)

lemma rbac_requests:
  assumes "req \<in> builder_requests (setup_of ctl) kind m" and "kind \<in> {''Role'', ''RoleBinding''}"
    and "controller_of m = Some (''Security'', ''front'')" and "om_Namespace m = ''shop''"
  shows "(ctl, req) \<in> front_work"
  using assms by (cases ctl) (auto simp: builder_requests_def setup_defs front_work_def)

lemma security_requests:
  assumes "list_all front_owned (rs @ rs')" and "list_all front_owned (bs @ bs')"
  shows "requests builder_requests (security_cluster rs bs) (security_cluster rs' bs') \<subseteq> front_work"
proof -
  have "req \<in> builder_requests (setup_of ctl) kind m \<Longrightarrow> (ctl, req) \<in> front_work"
    if "(kind, m) \<in> events (security_cluster rs bs) (security_cluster rs' bs')" for ctl req kind m
    using that owned_changed [OF assms(1), of "(kind, m)" "''Role''"]
      owned_changed [OF assms(2), of "(kind, m)" "''RoleBinding''"]
    by (auto simp: events_def tagged_def security_cluster_def mem_view_def intro: rbac_requests)
  then show ?thesis by (auto simp: requests_def security_cluster_def mem_view_def)
qed

lemma security_initial: "initial_queue builder_requests lone_security \<subseteq> front_work"
proof -
  from changed_members [of "[]" "[sample_security]"] have "events empty_cluster lone_security \<subseteq> {(''Security'', obj_Meta sample_security)}"
    by (auto simp: events_def tagged_def mem_view_def lone_security_def empty_cluster_def)
  moreover have "om_Namespace (obj_Meta sample_security) = ''shop''" "om_Name (obj_Meta sample_security) = ''front''"
    "controller_of (obj_Meta sample_security) = None"
    by code_simp+
  then have "(ctl, req) \<in> front_work"
    if "req \<in> builder_requests (setup_of ctl) ''Security'' (obj_Meta sample_security)" for ctl req
    using that by (cases ctl) (auto simp: builder_requests_def setup_defs front_work_def)
  ultimately show ?thesis
    unfolding initial_queue_def requests_def
    by (auto simp: mem_view_def lone_security_def empty_cluster_def)
qed

definition front_roles :: "Role list" where
  "front_roles = cl_roles (snd (role_run lone_security))"

definition front_bindings :: "RoleBinding list" where
  "front_bindings = cl_rolebindings (snd (sample_handler SecurityRoleBinding (''shop'', ''front'') lone_security))"

definition front_states :: "cluster set" where
  "front_states =
     {security_cluster [] [], security_cluster front_roles [],
      security_cluster [] front_bindings, security_cluster front_roles front_bindings}"

lemma front_runs:
  "snd (role_run (security_cluster [] [])) = security_cluster front_roles []"
  "snd (role_run (security_cluster front_roles [])) = security_cluster front_roles []"
  "snd (role_run (security_cluster [] front_bindings)) = security_cluster front_roles front_bindings"
  "snd (role_run (security_cluster front_roles front_bindings)) = security_cluster front_roles front_bindings"
  "snd (sample_handler SecurityRoleBinding (''shop'', ''front'') (security_cluster [] [])) = security_cluster [] front_bindings"
  "snd (sample_handler SecurityRoleBinding (''shop'', ''front'') (security_cluster front_roles [])) = security_cluster front_roles front_bindings"
  "snd (sample_handler SecurityRoleBinding (''shop'', ''front'') (security_cluster [] front_bindings)) = security_cluster [] front_bindings"
  "snd (sample_handler SecurityRoleBinding (''shop'', ''front'') (security_cluster front_roles front_bindings)) = security_cluster front_roles front_bindings"
  by code_simp+

lemma front_children: "list_all front_owned front_roles" "list_all front_owned front_bindings"
  by code_simp+

lemma front_states_closed:
  assumes "c \<in> front_states" and "p \<in> front_work"
  shows "snd (sample_handler (fst p) (snd p) c) \<in> front_states"
  using assms unfolding front_states_def front_work_def
  by (elim insertE emptyE) (simp_all only: fst_conv snd_conv front_runs insert_iff simp_thms)

lemma front_states_requests:
  "c \<in> front_states \<Longrightarrow> d \<in> front_states \<Longrightarrow> requests builder_requests c d \<subseteq> front_work"
  unfolding front_states_def
  by (elim insertE emptyE; hypsubst; rule security_requests; simp add: front_children)

lemma front_queue:
  assumes "range pick \<subseteq> front_work"
  shows "fst (queue_run builder_requests mem_lib trivial_codecs pick lone_security n) \<in> front_states \<and>
    snd (queue_run builder_requests mem_lib trivial_codecs pick lone_security n) \<subseteq> front_work"
proof (induction n)
  case 0
  have "lone_security = security_cluster [] []"
    by (simp add: security_cluster_def lone_security_def empty_cluster_def)
  with security_initial show ?case by (auto simp: front_states_def)
next
  case (Suc n)
  let ?s = "queue_run builder_requests mem_lib trivial_codecs pick lone_security n"
  from assms have p: "pick n \<in> front_work" by blast
  show ?case
  proof (cases rule: serve_one_cases [of "pick n" ?s builder_requests mem_lib trivial_codecs])
    case idle
    with Suc show ?thesis by simp
  next
    case (served r c')
    from front_states_closed [OF Suc [THEN conjunct1] p] served(2) have "c' \<in> front_states" by simp
    with front_states_requests [OF Suc [THEN conjunct1] this] Suc served(3) show ?thesis by auto
  qed
qed

definition take_turns :: "nat \<Rightarrow> work" where
  "take_turns n = (if even n then SecurityRole else SecurityRoleBinding, (''shop'', ''front''))"

lemma take_turns_fair: "fair_for front_work take_turns"
proof -
  have "take_turns (2 * n) = (SecurityRole, (''shop'', ''front''))"
    "take_turns (Suc (2 * n)) = (SecurityRoleBinding, (''shop'', ''front''))" for n
    by (simp_all add: take_turns_def)
  then have "\<exists>m \<ge> n. take_turns m = p" if "p \<in> front_work" for p n
    using that unfolding front_work_def
    by (elim insertE emptyE) (rule exI [of _ "2 * n"] exI [of _ "Suc (2 * n)"]; simp)+
  then show ?thesis unfolding fair_for_def by (auto simp: take_turns_def front_work_def)
qed

theorem queue_comes_to_rest_witness:
  "\<exists>N. \<forall>n \<ge> N. same_objects
     (fst (queue_run builder_requests mem_lib trivial_codecs take_turns lone_security n))
     (fst (queue_run builder_requests mem_lib trivial_codecs take_turns lone_security N))"
proof -
  let ?s = "queue_run builder_requests mem_lib trivial_codecs take_turns lone_security"
  have range: "range take_turns \<subseteq> front_work" using take_turns_fair by (simp add: fair_for_def)
  have fin: "finite front_work" by (simp add: front_work_def)
  have inR: "\<forall>n. snd (?s n) \<subseteq> front_work" using front_queue [OF range] by blast
  have alone: "\<forall>n. no_rivals front_work (fst (?s n))"
    by (intro allI one_request_each) (simp add: front_work_def)
  have scoped: "\<forall>(ctl, req) \<in> front_work. well_scoped ctl req"
    by (simp add: front_work_def well_scoped_def setup_defs)
  from queue_comes_to_rest [OF builder.watch_lib_axioms, OF mem_lib.runtime_lib_axioms, OF mem_lib_simps(2),
      OF lone_security_calm, OF fin, OF take_turns_fair, OF inR, OF alone, OF scoped]
  obtain N where "\<forall>n \<ge> N. (case ?s n of (d, q) \<Rightarrow> same_objects d (fst (?s N)) \<and> q = snd (?s N) \<and>
      (\<forall>(ctl, req) \<in> front_work - q. desired mem_lib trivial_codecs ctl req d) \<and>
      (take_turns n \<in> q \<longrightarrow> fst (sample_handler (fst (take_turns n)) (snd (take_turns n)) d) \<noteq> None))" ..
  then show ?thesis unfolding case_prod_unfold by blast
qed

end
