(* ===== verification/Deep_Copy.thy ===== *)
theory Deep_Copy
  imports V1alpha1
begin

text \<open>
  \<^verbatim>\<open>api/v1alpha1/zz_generated.deepcopy.go\<close>: the deep copies of the API types, over a memory in
  which slices, maps and pointers are addresses.  Everywhere else in the development the API
  objects are immutable values; this theory shows that the copies the client hands out really
  are separate from what they were copied from.

  A struct whose fields hold no reference is \<open>Flat\<close>, as are strings, numbers and booleans; a
  slice, a map or a pointer is a \<open>Ref\<close> to a cell that lists its elements (the entries of a map
  in some order, the one object behind a pointer).  Slices that share part of an array are not
  represented.  The types of \<^verbatim>\<open>k8s.io\<close> copy themselves by code outside the repository: their shape
  and their \<^verbatim>\<open>DeepCopyInto\<close> are the parameters of \<open>ext\<close>.
\<close>

section \<open>Memory\<close>

datatype gv = Flat json | Struct "(string \<times> gv) list" | Ref "nat option"

text \<open>The addresses below \<open>brk\<close> are allocated.\<close>

record memory =
  cells :: "nat \<Rightarrow> gv list"
  brk :: nat

definition new_array :: "nat \<Rightarrow> (memory, nat) state" where
  "new_array n = State (\<lambda>m.
     (brk m, m\<lparr>cells := (cells m)(brk m := replicate n (Flat JNull)), brk := Suc (brk m)\<rparr>))"

definition read_array :: "nat \<Rightarrow> (memory, gv list) state" where
  "read_array a = State (\<lambda>m. (cells m a, m))"

definition write_at :: "nat \<Rightarrow> nat \<Rightarrow> gv \<Rightarrow> (memory, unit) state" where
  "write_at a i x = State (\<lambda>m. ((), m\<lparr>cells := (cells m)(a := (cells m a)[i := x])\<rparr>))"

section \<open>The statements of the generated code\<close>

text \<open>\<^verbatim>\<open>out.F = in.F\<close>\<close>

definition assign :: "gv \<Rightarrow> (memory, gv) state" where
  "assign x = State_Monad.return x"

definition field :: "string \<Rightarrow> gv \<Rightarrow> gv" where
  "field n v = (case v of Struct vs \<Rightarrow> (case map_of vs n of Some x \<Rightarrow> x | None \<Rightarrow> Flat JNull) | _ \<Rightarrow> Flat JNull)"

definition set_field :: "string \<Rightarrow> gv \<Rightarrow> gv \<Rightarrow> gv" where
  "set_field n x v =
     (case v of Struct vs \<Rightarrow> Struct (map (\<lambda>(k, y). if k = n then (k, x) else (k, y)) vs) | _ \<Rightarrow> v)"

text \<open>
  \<^verbatim>\<open>*out = *in\<close> and then, field by field, what the function does about it: \<open>out\<close> starts as a
  copy that shares every reference with \<open>orig\<close> and ends with the listed fields replaced.
\<close>

fun copy_fields ::
    "(string \<times> (gv \<Rightarrow> (memory, gv) state)) list \<Rightarrow> gv \<Rightarrow> gv \<Rightarrow> (memory, gv) state" where
  "copy_fields [] orig out = State_Monad.return out"
| "copy_fields ((n, copy) # rest) orig out = do {
     x \<leftarrow> copy (field n orig);
     copy_fields rest orig (set_field n x out)
   }"

definition copy_struct ::
    "(string \<times> (gv \<Rightarrow> (memory, gv) state)) list \<Rightarrow> gv \<Rightarrow> (memory, gv) state" where
  "copy_struct steps orig = copy_fields steps orig orig"

text \<open>
  \<^verbatim>\<open>for i := range *in { (*in)[i].DeepCopyInto(&(*out)[i]) }\<close>, from index \<open>i\<close> for \<open>n\<close> elements; with
  \<open>assign\<close> it is \<^verbatim>\<open>copy(*out, *in)\<close>, and over the entries of a map the loop \<^verbatim>\<open>(*out)[key] = val\<close>.
\<close>

fun copy_elements ::
    "(gv \<Rightarrow> (memory, gv) state) \<Rightarrow> nat \<Rightarrow> nat \<Rightarrow> nat \<Rightarrow> nat \<Rightarrow> (memory, unit) state" where
  "copy_elements copy a b i 0 = State_Monad.return ()"
| "copy_elements copy a b i (Suc n) = do {
     xs \<leftarrow> read_array a;
     y \<leftarrow> copy (xs ! i);
     write_at b i y;
     copy_elements copy a b (Suc i) n
   }"

text \<open>\<^verbatim>\<open>if in.F != nil { *out = make([]T, len(*in)); ... }\<close>\<close>

definition copy_slice :: "(gv \<Rightarrow> (memory, gv) state) \<Rightarrow> gv \<Rightarrow> (memory, gv) state" where
  "copy_slice copy v =
     (case v of
        Ref (Some a) \<Rightarrow> do {
          xs \<leftarrow> read_array a;
          b \<leftarrow> new_array (length xs);
          copy_elements copy a b 0 (length xs);
          State_Monad.return (Ref (Some b))
        }
      | _ \<Rightarrow> State_Monad.return v)"

text \<open>\<^verbatim>\<open>if in == nil { return nil }; out := new(T); in.DeepCopyInto(out); return out\<close>\<close>

definition new_copy :: "(gv \<Rightarrow> (memory, gv) state) \<Rightarrow> gv \<Rightarrow> (memory, gv) state" where
  "new_copy copy p =
     (case p of
        Ref (Some a) \<Rightarrow> do {
          out \<leftarrow> new_array 1;
          xs \<leftarrow> read_array a;
          x \<leftarrow> copy (hd xs);
          write_at out 0 x;
          State_Monad.return (Ref (Some out))
        }
      | _ \<Rightarrow> State_Monad.return p)"

section \<open>What a value means\<close>

text \<open>
  The shape of a type, the value without addresses that a \<open>gv\<close> of that shape stands for, if it
  has the shape and refers to allocated cells only, and the addresses it reaches.
\<close>

datatype shape = SFlat | SStruct "(string \<times> shape) list" | SSlice shape

datatype tree = TFlat json | TStruct "(string \<times> tree) list" | TNil | TSlice "tree list"

fun reads :: "memory \<Rightarrow> shape \<Rightarrow> gv \<Rightarrow> tree option"
and reads_fields ::
    "memory \<Rightarrow> (string \<times> shape) list \<Rightarrow> (string \<times> gv) list \<Rightarrow> (string \<times> tree) list option"
where
  "reads m SFlat (Flat j) = Some (TFlat j)"
| "reads m (SStruct fs) (Struct vs) = map_option TStruct (reads_fields m fs vs)"
| "reads m (SSlice s) (Ref None) = Some TNil"
| "reads m (SSlice s) (Ref (Some a)) =
     (if a < brk m then map_option TSlice (those (map (reads m s) (cells m a))) else None)"
| "reads m s v = None"
| "reads_fields m [] [] = Some []"
| "reads_fields m ((n, s) # fs) ((k, v) # vs) =
     (if n = k then
        (case reads m s v of
           None \<Rightarrow> None
         | Some t \<Rightarrow> map_option (\<lambda>ts. (n, t) # ts) (reads_fields m fs vs))
      else None)"
| "reads_fields m fs vs = None"

fun addrs :: "memory \<Rightarrow> shape \<Rightarrow> gv \<Rightarrow> nat set"
and addrs_fields :: "memory \<Rightarrow> (string \<times> shape) list \<Rightarrow> (string \<times> gv) list \<Rightarrow> nat set"
where
  "addrs m (SStruct fs) (Struct vs) = addrs_fields m fs vs"
| "addrs m (SSlice s) (Ref (Some a)) = insert a (\<Union>x \<in> set (cells m a). addrs m s x)"
| "addrs m s v = {}"
| "addrs_fields m ((n, s) # fs) ((k, v) # vs) = addrs m s v \<union> addrs_fields m fs vs"
| "addrs_fields m fs vs = {}"

text \<open>Later memories: new cells, and the old ones as they were.\<close>

definition extends :: "memory \<Rightarrow> memory \<Rightarrow> bool" where
  "extends m m' \<longleftrightarrow> brk m \<le> brk m' \<and> (\<forall>a < brk m. cells m' a = cells m a)"

lemma extends_refl [simp]: "extends m m"
  by (simp add: extends_def)

lemma extends_trans: "extends m m' \<Longrightarrow> extends m' m'' \<Longrightarrow> extends m m''"
  by (auto simp: extends_def)

lemma those_map_Some: "those (map f xs) = Some ts \<longleftrightarrow> map f xs = map Some ts"
  by (induction xs arbitrary: ts) (auto simp: map_eq_Cons_conv split: option.splits)

text \<open>
  A value reads the same in two memories that agree on the cells it reaches.
\<close>

lemma reads_agree:
  "reads m s v = Some t \<Longrightarrow> \<forall>a \<in> addrs m s v. a < brk m' \<and> cells m' a = cells m a \<Longrightarrow>
     reads m' s v = Some t \<and> addrs m' s v = addrs m s v"
  "reads_fields m fs vs = Some ts \<Longrightarrow> \<forall>a \<in> addrs_fields m fs vs. a < brk m' \<and> cells m' a = cells m a \<Longrightarrow>
     reads_fields m' fs vs = Some ts \<and> addrs_fields m' fs vs = addrs_fields m fs vs"
proof (induction m s v and m fs vs arbitrary: t and ts rule: reads_reads_fields.induct)
  case (4 m s a)
  then have a: "a < brk m" "a < brk m'" "cells m' a = cells m a" by (auto split: if_splits)
  from 4 a obtain us where us: "map (reads m s) (cells m a) = map Some us" "t = TSlice us"
    by (auto simp: those_map_Some)
  have "reads m' s x = reads m s x \<and> addrs m' s x = addrs m s x" if "x \<in> set (cells m a)" for x
  proof -
    from us(1) that obtain u where "reads m s x = Some u" by (metis (mono_tags) in_set_conv_nth length_map nth_map)
    with "4.IH" [OF a(1) that this] "4.prems"(2) that show ?thesis by auto
  qed
  then have "map (reads m' s) (cells m a) = map Some us" "\<forall>x \<in> set (cells m a). addrs m' s x = addrs m s x"
    using us(1) by (simp_all cong: map_cong)
  with a us(2) show ?case by (simp add: those_map_Some)
next
  case (7 m n s fs k v vs)
  then obtain t us where c: "n = k" "reads m s v = Some t" "reads_fields m fs vs = Some us" "ts = (n, t) # us"
    by (auto split: if_splits option.splits)
  with "7.IH"(1) [OF c(1,2)] "7.IH"(2) [OF c(1,2,3)] "7.prems"(2) show ?case by simp
next
  case 2 then show ?case by auto
qed simp_all

lemma addrs_below:
  "reads m s v = Some t \<Longrightarrow> addrs m s v \<subseteq> {..<brk m}"
  "reads_fields m fs vs = Some ts \<Longrightarrow> addrs_fields m fs vs \<subseteq> {..<brk m}"
proof (induction m s v and m fs vs arbitrary: t and ts rule: reads_reads_fields.induct)
  case (4 m s a)
  then obtain us where a: "a < brk m" and us: "map (reads m s) (cells m a) = map Some us"
    by (auto simp: those_map_Some split: if_splits)
  have "addrs m s x \<subseteq> {..<brk m}" if "x \<in> set (cells m a)" for x
  proof -
    from us that obtain u where "reads m s x = Some u" by (metis (mono_tags) in_set_conv_nth length_map nth_map)
    with "4.IH" [OF a that] show ?thesis by blast
  qed
  with a show ?case by auto
qed (auto split: if_splits option.splits)

lemma reads_extends:
  assumes "reads m s v = Some t" and "extends m m'"
  shows "reads m' s v = Some t \<and> addrs m' s v = addrs m s v"
proof (rule reads_agree(1) [OF assms(1)], intro ballI)
  fix a assume "a \<in> addrs m s v"
  with addrs_below(1) [OF assms(1)] have "a < brk m" by blast
  with assms(2) show "a < brk m' \<and> cells m' a = cells m a" unfolding extends_def by simp
qed

section \<open>Deep copies\<close>

text \<open>
  A deep copy reads like the original, reaches new cells only, and changes no old cell.
\<close>

definition deep_copy :: "shape \<Rightarrow> (gv \<Rightarrow> (memory, gv) state) \<Rightarrow> bool" where
  "deep_copy s copy \<longleftrightarrow>
     (\<forall>m v t v' m'. reads m s v = Some t \<longrightarrow> run_state (copy v) m = (v', m') \<longrightarrow>
        extends m m' \<and> reads m' s v' = Some t \<and> addrs m' s v' \<subseteq> {brk m..<brk m'})"

lemma deep_copyD:
  assumes "deep_copy s copy" and "reads m s v = Some t" and "run_state (copy v) m = (v', m')"
  shows "extends m m'" "reads m' s v' = Some t" "addrs m' s v' \<subseteq> {brk m..<brk m'}"
  using assms unfolding deep_copy_def by blast+

lemma deep_copy_assign: "deep_copy SFlat assign"
proof (unfold deep_copy_def, intro allI impI)
  fix m v t v' m'
  assume "reads m SFlat v = Some t" "run_state (assign v) m = (v', m')"
  then show "extends m m' \<and> reads m' SFlat v' = Some t \<and> addrs m' SFlat v' \<subseteq> {brk m..<brk m'}"
    by (cases v) (auto simp: assign_def)
qed


lemma reads_write:
  assumes "reads m s v = Some t" and "b \<notin> addrs m s v"
  shows "reads (m\<lparr>cells := (cells m)(b := ys)\<rparr>) s v = Some t \<and>
         addrs (m\<lparr>cells := (cells m)(b := ys)\<rparr>) s v = addrs m s v"
proof (rule reads_agree(1) [OF assms(1)], intro ballI)
  fix a assume a: "a \<in> addrs m s v"
  with addrs_below(1) [OF assms(1)] have "a < brk m" by blast
  moreover from a assms(2) have "a \<noteq> b" by blast
  ultimately show "a < brk (m\<lparr>cells := (cells m)(b := ys)\<rparr>) \<and>
      cells (m\<lparr>cells := (cells m)(b := ys)\<rparr>) a = cells m a" by simp
qed

subsection \<open>Slices, maps and pointers\<close>

lemma reads_SSliceD:
  assumes "reads m (SSlice s) v = Some t"
  shows "v = Ref None \<and> t = TNil \<or>
    (\<exists>a ts. v = Ref (Some a) \<and> a < brk m \<and> map (reads m s) (cells m a) = map Some ts \<and> t = TSlice ts)"
proof (cases v)
  case (Ref q)
  with assms show ?thesis by (cases q) (auto simp: those_map_Some split: if_splits)
qed (use assms in simp_all)

text \<open>The loop invariant of \<open>copy_elements\<close>: the first \<open>i\<close> elements of the array \<open>b\<close> are copied.\<close>

definition filled :: "memory \<Rightarrow> shape \<Rightarrow> nat \<Rightarrow> tree list \<Rightarrow> nat \<Rightarrow> bool" where
  "filled m s b ts i \<longleftrightarrow> b < brk m \<and> length (cells m b) = length ts \<and>
     (\<forall>j < i. reads m s (cells m b ! j) = Some (ts ! j) \<and>
              addrs m s (cells m b ! j) \<subseteq> {Suc b..<brk m})"

lemma filled_write:
  assumes f: "filled m s b ts i" and i: "i < length ts" and e: "extends m m'"
    and y: "reads m' s y = Some (ts ! i)" "addrs m' s y \<subseteq> {brk m..<brk m'}"
  shows "filled (m'\<lparr>cells := (cells m')(b := (cells m' b)[i := y])\<rparr>) s b ts (Suc i)"
proof -
  let ?w = "m'\<lparr>cells := (cells m')(b := (cells m' b)[i := y])\<rparr>"
  from f have b: "b < brk m" "length (cells m b) = length ts" by (simp_all add: filled_def)
  with e have same: "cells m' b = cells m b" "brk m \<le> brk m'" by (simp_all add: extends_def)
  have "reads ?w s (cells ?w b ! j) = Some (ts ! j) \<and> addrs ?w s (cells ?w b ! j) \<subseteq> {Suc b..<brk m'}"
    if "j < Suc i" for j
  proof (cases "j = i")
    case True
    have "b \<notin> addrs m' s y" using y(2) b(1) by auto
    from reads_write [OF y(1) this] True i b(2) same y(2) b(1) show ?thesis by auto
  next
    case False
    with that f have old: "reads m s (cells m b ! j) = Some (ts ! j)" "addrs m s (cells m b ! j) \<subseteq> {Suc b..<brk m}"
      by (auto simp: filled_def)
    from reads_extends [OF old(1) e] have "reads m' s (cells m b ! j) = Some (ts ! j)"
      and a: "addrs m' s (cells m b ! j) = addrs m s (cells m b ! j)" by simp_all
    moreover have "b \<notin> addrs m' s (cells m b ! j)" using a old(2) by auto
    ultimately have "reads ?w s (cells m b ! j) = Some (ts ! j)"
      "addrs ?w s (cells m b ! j) = addrs m s (cells m b ! j)"
      using reads_write [of m' s "cells m b ! j"] a by simp_all
    with old(2) same False show ?thesis by auto
  qed
  with b same show ?thesis by (simp add: filled_def)
qed

lemma copy_elements_fills:
  assumes copy: "deep_copy s copy" and len: "length (cells m a) = length ts" and a: "a < brk m"
    and elems: "\<And>j. j < length ts \<Longrightarrow> reads m s (cells m a ! j) = Some (ts ! j)"
  shows "i + n = length ts \<Longrightarrow> extends m k \<Longrightarrow> brk m \<le> b \<Longrightarrow> filled k s b ts i \<Longrightarrow>
     run_state (copy_elements copy a b i n) k = ((), k') \<Longrightarrow>
     extends m k' \<and> filled k' s b ts (length ts)"
proof (induction n arbitrary: i k)
  case 0
  then show ?case by simp
next
  case (Suc n)
  obtain y k1 where y: "run_state (copy (cells m a ! i)) k = (y, k1)" by fastforce
  have i: "i < length ts" using Suc.prems(1) by simp
  from reads_extends [OF elems [OF i] Suc.prems(2)]
  have "reads k s (cells m a ! i) = Some (ts ! i)" by simp
  note c = deep_copyD [OF copy this y]
  let ?k2 = "k1\<lparr>cells := (cells k1)(b := (cells k1 b)[i := y])\<rparr>"
  have "extends m ?k2" using extends_trans [OF Suc.prems(2) c(1)] Suc.prems(3) by (auto simp: extends_def)
  moreover have "filled ?k2 s b ts (Suc i)" using filled_write [OF Suc.prems(4) i c(1-3)] .
  moreover have "cells k a = cells m a" using Suc.prems(2) a by (simp add: extends_def)
  then have "run_state (copy_elements copy a b (Suc i) n) ?k2 = ((), k')"
    using Suc.prems(5) y by (simp add: read_array_def write_at_def)
  ultimately show ?case using Suc.IH [of "Suc i" ?k2] Suc.prems(1,3) by simp
qed

lemma deep_copy_slice:
  assumes "deep_copy s copy"
  shows "deep_copy (SSlice s) (copy_slice copy)"
proof (unfold deep_copy_def, intro allI impI)
  fix m v t v' m'
  assume r: "reads m (SSlice s) v = Some t" and run: "run_state (copy_slice copy v) m = (v', m')"
  show "extends m m' \<and> reads m' (SSlice s) v' = Some t \<and> addrs m' (SSlice s) v' \<subseteq> {brk m..<brk m'}"
  proof (cases "v = Ref None")
    case True
    with r run show ?thesis by (auto simp: copy_slice_def)
  next
    case False
    with r obtain a ts where v: "v = Ref (Some a)" "a < brk m" "map (reads m s) (cells m a) = map Some ts" "t = TSlice ts"
      using reads_SSliceD [OF r] by blast
    then have len: "length (cells m a) = length ts" by (metis length_map)
    have elems: "reads m s (cells m a ! j) = Some (ts ! j)" if "j < length ts" for j
      using v(3) len that by (metis nth_map)
    let ?k = "m\<lparr>cells := (cells m)(brk m := replicate (length ts) (Flat JNull)), brk := Suc (brk m)\<rparr>"
    have "extends m ?k" "filled ?k s (brk m) ts 0" by (auto simp: extends_def filled_def)
    moreover from run v len have "run_state (copy_elements copy a (brk m) 0 (length ts)) ?k = ((), m')"
      and v': "v' = Ref (Some (brk m))"
      by (auto simp: copy_slice_def read_array_def new_array_def split: prod.splits)
    ultimately have e: "extends m m'" and f: "filled m' s (brk m) ts (length ts)"
      using copy_elements_fills [OF assms len v(2) elems, of 0 "length ts" ?k "brk m" m'] by auto
    from f have "map (reads m' s) (cells m' (brk m)) = map Some ts"
      by (auto simp: filled_def intro: nth_equalityI)
    moreover have "addrs m' s x \<subseteq> {brk m..<brk m'}" if "x \<in> set (cells m' (brk m))" for x
    proof -
      from that obtain j where "j < length (cells m' (brk m))" "x = cells m' (brk m) ! j" by (metis in_set_conv_nth)
      with f show ?thesis by (force simp: filled_def)
    qed
    ultimately show ?thesis using e f v(4) v' by (auto simp: those_map_Some filled_def)
  qed
qed

lemma deep_copy_pointer:
  assumes "deep_copy s copy" and "reads m (SSlice s) p = Some (TSlice [u])"
    and run: "run_state (new_copy copy p) m = (p', m')"
  shows "extends m m' \<and> reads m' (SSlice s) p' = Some (TSlice [u]) \<and>
         addrs m' (SSlice s) p' \<subseteq> {brk m..<brk m'}"
proof -
  from assms(2) obtain a x where p: "p = Ref (Some a)" "a < brk m" "cells m a = [x]" "reads m s x = Some u"
    using reads_SSliceD [OF assms(2)] by (auto simp: map_eq_Cons_conv)
  let ?k = "m\<lparr>cells := (cells m)(brk m := [Flat JNull]), brk := Suc (brk m)\<rparr>"
  obtain y k1 where y: "run_state (copy x) ?k = (y, k1)" by fastforce
  have e: "extends m ?k" by (simp add: extends_def)
  with reads_extends [OF p(4)] have "reads ?k s x = Some u" by blast
  note c = deep_copyD [OF assms(1) this y]
  have "filled ?k s (brk m) [u] 0" by (simp add: filled_def)
  from filled_write [OF this _ c(1), of y] c(2,3) have
    f: "filled (k1\<lparr>cells := (cells k1)(brk m := (cells k1 (brk m))[0 := y])\<rparr>) s (brk m) [u] (Suc 0)" by simp
  have m': "m' = k1\<lparr>cells := (cells k1)(brk m := (cells k1 (brk m))[0 := y])\<rparr>" "p' = Ref (Some (brk m))"
    using run p y by (auto simp: new_copy_def new_array_def read_array_def write_at_def split: prod.splits)
  have "extends m m'" using extends_trans [OF e c(1)] by (auto simp: m' extends_def)
  moreover have "cells m' (brk m) = [y]" using c(1) by (simp add: m' extends_def)
  ultimately show ?thesis using f [folded m'(1)] by (auto simp: m'(2) filled_def)
qed

subsection \<open>Structs\<close>

lemma field_Cons: "field n (Struct ((k, v) # vs)) = (if n = k then v else field n (Struct vs))"
  by (simp add: field_def)

lemma field_set_field:
  "n \<in> fst ` set vs \<Longrightarrow>
     field k (set_field n x (Struct vs)) = (if k = n then x else field k (Struct vs))"
proof -
  have "map_of (map (\<lambda>(k, y). if k = n then (k, x) else (k, y)) vs) k =
      (if k = n then map_option (\<lambda>_. x) (map_of vs n) else map_of vs k)"
    by (induction vs) auto
  moreover assume "n \<in> fst ` set vs"
  then obtain y where "map_of vs n = Some y" by (metis map_of_eq_None_iff not_None_eq)
  ultimately show ?thesis by (simp add: field_def set_field_def)
qed

lemma reads_fieldsD:
  "reads_fields m fs vs = Some ts \<Longrightarrow> distinct (map fst fs) \<Longrightarrow>
     map fst vs = map fst fs \<and> map fst ts = map fst fs \<and>
     (\<forall>n s. (n, s) \<in> set fs \<longrightarrow> reads m s (field n (Struct vs)) = map_of ts n)"
proof (induction fs arbitrary: vs ts)
  case Nil
  then show ?case by (cases vs) auto
next
  case (Cons f fs)
  obtain n s where f: "f = (n, s)" by fastforce
  with Cons.prems obtain v ws t us where
    c: "vs = (n, v) # ws" "ts = (n, t) # us" "reads m s v = Some t" "reads_fields m fs ws = Some us"
    by (cases vs) (auto split: if_splits option.splits)
  with Cons.IH [OF c(4)] Cons.prems(2) f show ?case by (auto simp: field_Cons image_iff)
qed

lemma reads_fieldsI:
  "map fst vs = map fst fs \<Longrightarrow> map fst ts = map fst fs \<Longrightarrow> distinct (map fst fs) \<Longrightarrow>
     (\<And>n s. (n, s) \<in> set fs \<Longrightarrow> reads m s (field n (Struct vs)) = map_of ts n) \<Longrightarrow>
     reads_fields m fs vs = Some ts"
proof (induction fs arbitrary: vs ts)
  case (Cons f fs)
  obtain n s where f: "f = (n, s)" by fastforce
  with Cons.prems(1,2) obtain v ws t us where c: "vs = (n, v) # ws" "ts = (n, t) # us"
    "map fst ws = map fst fs" "map fst us = map fst fs"
    by (cases vs; cases ts) auto
  have "reads m s v = Some t" using Cons.prems(4) [of n s] f c by (simp add: field_Cons)
  moreover have "reads_fields m fs ws = Some us"
  proof (rule Cons.IH [OF c(3,4)])
    show "distinct (map fst fs)" using Cons.prems(3) by simp
    fix k r assume k: "(k, r) \<in> set fs"
    then have "k \<noteq> n" using Cons.prems(3) f by (force simp: image_iff)
    with Cons.prems(4) [of k r] k c show "reads m r (field k (Struct ws)) = map_of us k"
      by (simp add: field_Cons)
  qed
  ultimately show ?case using f c by simp
qed auto

lemma addrs_fields_Union:
  "map fst vs = map fst fs \<Longrightarrow> distinct (map fst fs) \<Longrightarrow>
     addrs_fields m fs vs \<subseteq> (\<Union>(n, s) \<in> set fs. addrs m s (field n (Struct vs)))"
proof (induction fs arbitrary: vs)
  case (Cons f fs)
  obtain n s where f: "f = (n, s)" by fastforce
  with Cons.prems obtain v ws where c: "vs = (n, v) # ws" "map fst ws = map fst fs" by (cases vs) auto
  have "addrs_fields m fs ws \<subseteq> (\<Union>(k, r) \<in> set fs. addrs m r (field k (Struct ws)))"
    using Cons.IH [OF c(2)] Cons.prems(2) by simp
  also have "\<dots> = (\<Union>(k, r) \<in> set fs. addrs m r (field k (Struct vs)))"
  proof (rule SUP_cong [OF refl])
    fix p assume "p \<in> set fs"
    then have "fst p \<noteq> n" using Cons.prems(2) f by (force simp: image_iff)
    moreover obtain k r where "p = (k, r)" by fastforce
    ultimately show "(case p of (k, r) \<Rightarrow> addrs m r (field k (Struct ws))) =
        (case p of (k, r) \<Rightarrow> addrs m r (field k (Struct vs)))"
      using c by (simp add: field_Cons split: prod.splits)
  qed
  finally show ?case using f c by (auto simp: field_Cons)
qed simp

text \<open>
  The invariant of \<open>copy_fields\<close>: \<open>out\<close> reads like the original, and the fields named in \<open>ready\<close>
  reach new cells only.
\<close>

definition part_copied ::
    "memory \<Rightarrow> (string \<times> shape) list \<Rightarrow> (string \<times> tree) list \<Rightarrow> string set \<Rightarrow> memory \<Rightarrow> gv \<Rightarrow> bool" where
  "part_copied m fs ts ready k out \<longleftrightarrow>
     extends m k \<and> (\<exists>ws. out = Struct ws \<and> map fst ws = map fst fs) \<and>
     (\<forall>n s. (n, s) \<in> set fs \<longrightarrow> reads k s (field n out) = map_of ts n \<and>
        (n \<in> ready \<longrightarrow> addrs k s (field n out) \<subseteq> {brk m..<brk k}))"

lemma part_copied_set:
  assumes p: "part_copied m fs ts ready k out" and n: "(n, s) \<in> set fs" and fs: "distinct (map fst fs)"
    and names: "map fst ts = map fst fs" and e: "extends k k'"
    and x: "reads k' s x = map_of ts n" "addrs k' s x \<subseteq> {brk k..<brk k'}"
  shows "part_copied m fs ts (insert n ready) k' (set_field n x out)"
proof -
  from p obtain ws where ws: "out = Struct ws" "map fst ws = map fst fs" by (auto simp: part_copied_def)
  from p have mk: "extends m k" by (simp add: part_copied_def)
  have "n \<in> fst ` set fs" using n by (force simp: image_iff)
  then have nin: "n \<in> fst ` set ws" using ws(2) by (metis list.set_map)
  note f = field_set_field [OF nin, of _ x, folded ws(1)]
  have "reads k' r (field j (set_field n x out)) = map_of ts j \<and>
      (j \<in> insert n ready \<longrightarrow> addrs k' r (field j (set_field n x out)) \<subseteq> {brk m..<brk k'})"
    if j: "(j, r) \<in> set fs" for j r
  proof (cases "j = n")
    case True
    with n j fs have "r = s" by (metis eq_key_imp_eq_value)
    with True x mk show ?thesis by (auto simp: f extends_def)
  next
    case False
    from p j have old: "reads k r (field j out) = map_of ts j"
      "j \<in> ready \<Longrightarrow> addrs k r (field j out) \<subseteq> {brk m..<brk k}"
      by (auto simp: part_copied_def)
    have "j \<in> fst ` set ts" using j names by (metis fst_conv image_eqI list.set_map)
    then obtain t where t: "map_of ts j = Some t" by (metis map_of_eq_None_iff not_None_eq)
    from reads_extends [OF old(1) [unfolded t] e] have
      "reads k' r (field j out) = Some t" "addrs k' r (field j out) = addrs k r (field j out)" by simp_all
    moreover have "{brk m..<brk k} \<subseteq> {brk m..<brk k'}" using e by (auto simp: extends_def)
    then have "j \<in> ready \<Longrightarrow> addrs k r (field j out) \<subseteq> {brk m..<brk k'}" using old(2) by fast
    ultimately show ?thesis using False t by (simp add: f)
  qed
  moreover have "\<exists>us. set_field n x out = Struct us \<and> map fst us = map fst fs"
  proof -
    have "map fst (map (\<lambda>(k, y). if k = n then (k, x) else (k, y)) ws) = map fst ws"
      by (induction ws) auto
    with ws show ?thesis by (simp add: set_field_def)
  qed
  ultimately show ?thesis using extends_trans [OF mk e] by (auto simp: part_copied_def)
qed

lemma copy_fields_copies:
  assumes r: "reads_fields m fs vs = Some ts" and fs: "distinct (map fst fs)"
  shows "\<forall>(n, copy) \<in> set steps. \<exists>s. (n, s) \<in> set fs \<and> deep_copy s copy \<Longrightarrow>
     part_copied m fs ts ready k out \<Longrightarrow>
     run_state (copy_fields steps (Struct vs) out) k = (out', k') \<Longrightarrow>
     part_copied m fs ts (ready \<union> fst ` set steps) k' out'"
proof (induction steps arbitrary: ready k out)
  case Nil
  then show ?case by simp
next
  case (Cons st steps)
  obtain n copy where st: "st = (n, copy)" by fastforce
  with Cons.prems(1) obtain s where s: "(n, s) \<in> set fs" "deep_copy s copy" by auto
  note d = reads_fieldsD [OF r fs]
  obtain x k1 where x: "run_state (copy (field n (Struct vs))) k = (x, k1)" by fastforce
  have mk: "extends m k" using Cons.prems(2) by (simp add: part_copied_def)
  have "n \<in> fst ` set ts" using s(1) d by (metis fst_conv image_eqI list.set_map)
  then obtain t where t: "map_of ts n = Some t" by (metis map_of_eq_None_iff not_None_eq)
  with d s(1) have "reads m s (field n (Struct vs)) = Some t" by simp
  with reads_extends [OF _ mk] have "reads k s (field n (Struct vs)) = Some t" by blast
  note c = deep_copyD [OF s(2) this x]
  have "part_copied m fs ts (insert n ready) k1 (set_field n x out)"
    using part_copied_set [OF Cons.prems(2) s(1) fs _ c(1)] d c(2,3) t by simp
  from Cons.IH [OF _ this] Cons.prems(1,3) st x show ?case by simp
qed

lemma deep_copy_struct:
  assumes fs: "distinct (map fst fs)"
    and steps: "\<forall>(n, copy) \<in> set steps. \<exists>s. (n, s) \<in> set fs \<and> deep_copy s copy"
    and rest: "\<forall>(n, s) \<in> set fs. n \<in> fst ` set steps \<or> s = SFlat"
  shows "deep_copy (SStruct fs) (copy_struct steps)"
proof (unfold deep_copy_def, intro allI impI)
  fix m v t v' m'
  assume r: "reads m (SStruct fs) v = Some t" and run: "run_state (copy_struct steps v) m = (v', m')"
  from r obtain vs ts where v: "v = Struct vs" "reads_fields m fs vs = Some ts" "t = TStruct ts"
    by (cases v) auto
  note d = reads_fieldsD [OF v(2) fs]
  have flat: "addrs k SFlat w = {}" for k w by (cases w) simp_all
  have "part_copied m fs ts {} m v" using d v(1) by (auto simp: part_copied_def)
  from copy_fields_copies [OF v(2) fs steps this] run v(1)
  have p: "part_copied m fs ts (fst ` set steps) m' v'" by (simp add: copy_struct_def)
  then obtain ws where ws: "v' = Struct ws" "map fst ws = map fst fs" by (auto simp: part_copied_def)
  have "reads_fields m' fs ws = Some ts"
    using p d by (intro reads_fieldsI [OF ws(2) _ fs]) (auto simp: part_copied_def ws(1))
  moreover have "addrs m' s (field n (Struct ws)) \<subseteq> {brk m..<brk m'}" if "(n, s) \<in> set fs" for n s
  proof (cases "s = SFlat")
    case False
    with rest that have "n \<in> fst ` set steps" by auto
    with p that show ?thesis by (simp add: part_copied_def ws(1))
  qed (simp add: flat)
  then have "addrs_fields m' fs ws \<subseteq> {brk m..<brk m'}"
    using addrs_fields_Union [OF ws(2) fs, of m'] by fast
  ultimately show "extends m m' \<and> reads m' (SStruct fs) v' = Some t \<and> addrs m' (SStruct fs) v' \<subseteq> {brk m..<brk m'}"
    using p v(3) ws(1) by (simp add: part_copied_def)
qed


section \<open>The types of the API\<close>

text \<open>
  The shape of each type that holds references (the fields of its struct, in order) and its
  \<^verbatim>\<open>DeepCopyInto\<close>, \<^verbatim>\<open>DeepCopy\<close> and \<^verbatim>\<open>DeepCopyObject\<close>.  A type without references has the shape
  \<open>SFlat\<close>.  \<open>ext\<close> holds the types of other packages that have references.
\<close>

record ext =
  x_ObjectMeta :: "shape \<times> (gv \<Rightarrow> (memory, gv) state)"
  x_ListMeta :: "shape \<times> (gv \<Rightarrow> (memory, gv) state)"
  x_Condition :: "shape \<times> (gv \<Rightarrow> (memory, gv) state)"
  x_Affinity :: "shape \<times> (gv \<Rightarrow> (memory, gv) state)"
  x_TopologySpreadConstraint :: "shape \<times> (gv \<Rightarrow> (memory, gv) state)"
  x_ServicePort :: "shape \<times> (gv \<Rightarrow> (memory, gv) state)"
  x_PolicyRule :: "shape \<times> (gv \<Rightarrow> (memory, gv) state)"

definition good :: "shape \<times> (gv \<Rightarrow> (memory, gv) state) \<Rightarrow> bool" where
  "good p \<longleftrightarrow> deep_copy (fst p) (snd p)"

text \<open>What the packages document: their \<^verbatim>\<open>DeepCopyInto\<close> are deep copies.\<close>

definition good_ext :: "ext \<Rightarrow> bool" where
  "good_ext X \<longleftrightarrow> good (x_ObjectMeta X) \<and> good (x_ListMeta X) \<and> good (x_Condition X) \<and>
     good (x_Affinity X) \<and> good (x_TopologySpreadConstraint X) \<and> good (x_ServicePort X) \<and>
     good (x_PolicyRule X)"

named_theorems deep_copies

lemma good_ext_deep_copies [deep_copies]:
  assumes "good_ext X"
  shows "deep_copy (fst (x_ObjectMeta X)) (snd (x_ObjectMeta X))"
    "deep_copy (fst (x_ListMeta X)) (snd (x_ListMeta X))"
    "deep_copy (fst (x_Condition X)) (snd (x_Condition X))"
    "deep_copy (fst (x_Affinity X)) (snd (x_Affinity X))"
    "deep_copy (fst (x_TopologySpreadConstraint X)) (snd (x_TopologySpreadConstraint X))"
    "deep_copy (fst (x_ServicePort X)) (snd (x_ServicePort X))"
    "deep_copy (fst (x_PolicyRule X)) (snd (x_PolicyRule X))"
  using assms by (simp_all add: good_ext_def good_def)

definition AutoscalingSpec_DeepCopyInto :: "gv \<Rightarrow> (memory, gv) state" where
  "AutoscalingSpec_DeepCopyInto = assign"

definition AutoscalingSpec_DeepCopy :: "gv \<Rightarrow> (memory, gv) state" where
  "AutoscalingSpec_DeepCopy = new_copy AutoscalingSpec_DeepCopyInto"

lemma AutoscalingSpec_good [deep_copies]: "deep_copy SFlat AutoscalingSpec_DeepCopyInto"
  by (simp add: AutoscalingSpec_DeepCopyInto_def deep_copy_assign)

definition shape_SchedulingSpec :: "ext \<Rightarrow> shape" where
  "shape_SchedulingSpec X = SStruct
     [(''NodeSelector'', SSlice SFlat),
      (''Affinity'', fst (x_Affinity X)),
      (''TopologySpreadConstraints'', SSlice (fst (x_TopologySpreadConstraint X)))]"

definition SchedulingSpec_DeepCopyInto :: "ext \<Rightarrow> gv \<Rightarrow> (memory, gv) state" where
  "SchedulingSpec_DeepCopyInto X = copy_struct
     [(''NodeSelector'', copy_slice assign),
      (''Affinity'', snd (x_Affinity X)),
      (''TopologySpreadConstraints'', copy_slice (snd (x_TopologySpreadConstraint X)))]"

definition SchedulingSpec_DeepCopy :: "ext \<Rightarrow> gv \<Rightarrow> (memory, gv) state" where
  "SchedulingSpec_DeepCopy X = new_copy (SchedulingSpec_DeepCopyInto X)"

lemma SchedulingSpec_good [deep_copies]:
  "good_ext X \<Longrightarrow> deep_copy (shape_SchedulingSpec X) (SchedulingSpec_DeepCopyInto X)"
  unfolding shape_SchedulingSpec_def SchedulingSpec_DeepCopyInto_def
  by (rule deep_copy_struct) (simp_all add: deep_copies deep_copy_slice deep_copy_assign)

definition ResourceRef_DeepCopyInto :: "gv \<Rightarrow> (memory, gv) state" where
  "ResourceRef_DeepCopyInto = assign"

definition ResourceRef_DeepCopy :: "gv \<Rightarrow> (memory, gv) state" where
  "ResourceRef_DeepCopy = new_copy ResourceRef_DeepCopyInto"

lemma ResourceRef_good [deep_copies]: "deep_copy SFlat ResourceRef_DeepCopyInto"
  by (simp add: ResourceRef_DeepCopyInto_def deep_copy_assign)

definition PDBSpec_DeepCopyInto :: "gv \<Rightarrow> (memory, gv) state" where
  "PDBSpec_DeepCopyInto = assign"

definition PDBSpec_DeepCopy :: "gv \<Rightarrow> (memory, gv) state" where
  "PDBSpec_DeepCopy = new_copy PDBSpec_DeepCopyInto"

lemma PDBSpec_good [deep_copies]: "deep_copy SFlat PDBSpec_DeepCopyInto"
  by (simp add: PDBSpec_DeepCopyInto_def deep_copy_assign)

definition EscapeHatch_DeepCopyInto :: "gv \<Rightarrow> (memory, gv) state" where
  "EscapeHatch_DeepCopyInto = assign"

definition EscapeHatch_DeepCopy :: "gv \<Rightarrow> (memory, gv) state" where
  "EscapeHatch_DeepCopy = new_copy EscapeHatch_DeepCopyInto"

lemma EscapeHatch_good [deep_copies]: "deep_copy SFlat EscapeHatch_DeepCopyInto"
  by (simp add: EscapeHatch_DeepCopyInto_def deep_copy_assign)

definition shape_ComputeSpec :: "ext \<Rightarrow> shape" where
  "shape_ComputeSpec X = SStruct
     [(''TargetRef'', SFlat),
      (''Autoscaling'', SFlat),
      (''Scheduling'', shape_SchedulingSpec X),
      (''PodDisruptionBudget'', SFlat),
      (''EscapeHatches'', SSlice SFlat)]"

definition ComputeSpec_DeepCopyInto :: "ext \<Rightarrow> gv \<Rightarrow> (memory, gv) state" where
  "ComputeSpec_DeepCopyInto X = copy_struct
     [(''TargetRef'', assign),
      (''Autoscaling'', assign),
      (''Scheduling'', SchedulingSpec_DeepCopyInto X),
      (''PodDisruptionBudget'', assign),
      (''EscapeHatches'', copy_slice assign)]"

definition ComputeSpec_DeepCopy :: "ext \<Rightarrow> gv \<Rightarrow> (memory, gv) state" where
  "ComputeSpec_DeepCopy X = new_copy (ComputeSpec_DeepCopyInto X)"

lemma ComputeSpec_good [deep_copies]:
  "good_ext X \<Longrightarrow> deep_copy (shape_ComputeSpec X) (ComputeSpec_DeepCopyInto X)"
  unfolding shape_ComputeSpec_def ComputeSpec_DeepCopyInto_def
  by (rule deep_copy_struct) (simp_all add: deep_copies deep_copy_slice deep_copy_assign)

definition shape_ComputeStatus :: "ext \<Rightarrow> shape" where
  "shape_ComputeStatus X = SStruct
     [(''Conditions'', SSlice (fst (x_Condition X)))]"

definition ComputeStatus_DeepCopyInto :: "ext \<Rightarrow> gv \<Rightarrow> (memory, gv) state" where
  "ComputeStatus_DeepCopyInto X = copy_struct
     [(''Conditions'', copy_slice (snd (x_Condition X)))]"

definition ComputeStatus_DeepCopy :: "ext \<Rightarrow> gv \<Rightarrow> (memory, gv) state" where
  "ComputeStatus_DeepCopy X = new_copy (ComputeStatus_DeepCopyInto X)"

lemma ComputeStatus_good [deep_copies]:
  "good_ext X \<Longrightarrow> deep_copy (shape_ComputeStatus X) (ComputeStatus_DeepCopyInto X)"
  unfolding shape_ComputeStatus_def ComputeStatus_DeepCopyInto_def
  by (rule deep_copy_struct) (simp_all add: deep_copies deep_copy_slice deep_copy_assign)

definition shape_Compute :: "ext \<Rightarrow> shape" where
  "shape_Compute X = SStruct
     [(''TypeMeta'', SFlat),
      (''ObjectMeta'', fst (x_ObjectMeta X)),
      (''Spec'', shape_ComputeSpec X),
      (''Status'', shape_ComputeStatus X)]"

definition Compute_DeepCopyInto :: "ext \<Rightarrow> gv \<Rightarrow> (memory, gv) state" where
  "Compute_DeepCopyInto X = copy_struct
     [(''TypeMeta'', assign),
      (''ObjectMeta'', snd (x_ObjectMeta X)),
      (''Spec'', ComputeSpec_DeepCopyInto X),
      (''Status'', ComputeStatus_DeepCopyInto X)]"

definition Compute_DeepCopy :: "ext \<Rightarrow> gv \<Rightarrow> (memory, gv) state" where
  "Compute_DeepCopy X = new_copy (Compute_DeepCopyInto X)"

definition Compute_DeepCopyObject :: "ext \<Rightarrow> gv \<Rightarrow> (memory, gv) state" where
  "Compute_DeepCopyObject X = (\<lambda>p. do {
     c \<leftarrow> Compute_DeepCopy X p;
     State_Monad.return (if c \<noteq> Ref None then c else Ref None)
   })"

lemma Compute_good [deep_copies]:
  "good_ext X \<Longrightarrow> deep_copy (shape_Compute X) (Compute_DeepCopyInto X)"
  unfolding shape_Compute_def Compute_DeepCopyInto_def
  by (rule deep_copy_struct) (simp_all add: deep_copies deep_copy_slice deep_copy_assign)

definition shape_ComputeList :: "ext \<Rightarrow> shape" where
  "shape_ComputeList X = SStruct
     [(''TypeMeta'', SFlat),
      (''ListMeta'', fst (x_ListMeta X)),
      (''Items'', SSlice (shape_Compute X))]"

definition ComputeList_DeepCopyInto :: "ext \<Rightarrow> gv \<Rightarrow> (memory, gv) state" where
  "ComputeList_DeepCopyInto X = copy_struct
     [(''TypeMeta'', assign),
      (''ListMeta'', snd (x_ListMeta X)),
      (''Items'', copy_slice (Compute_DeepCopyInto X))]"

definition ComputeList_DeepCopy :: "ext \<Rightarrow> gv \<Rightarrow> (memory, gv) state" where
  "ComputeList_DeepCopy X = new_copy (ComputeList_DeepCopyInto X)"

definition ComputeList_DeepCopyObject :: "ext \<Rightarrow> gv \<Rightarrow> (memory, gv) state" where
  "ComputeList_DeepCopyObject X = (\<lambda>p. do {
     c \<leftarrow> ComputeList_DeepCopy X p;
     State_Monad.return (if c \<noteq> Ref None then c else Ref None)
   })"

lemma ComputeList_good [deep_copies]:
  "good_ext X \<Longrightarrow> deep_copy (shape_ComputeList X) (ComputeList_DeepCopyInto X)"
  unfolding shape_ComputeList_def ComputeList_DeepCopyInto_def
  by (rule deep_copy_struct) (simp_all add: deep_copies deep_copy_slice deep_copy_assign)

definition shape_GatewayRoute :: "ext \<Rightarrow> shape" where
  "shape_GatewayRoute X = SStruct
     [(''Hostnames'', SSlice SFlat),
      (''Paths'', SSlice SFlat)]"

definition GatewayRoute_DeepCopyInto :: "ext \<Rightarrow> gv \<Rightarrow> (memory, gv) state" where
  "GatewayRoute_DeepCopyInto X = copy_struct
     [(''Hostnames'', copy_slice assign),
      (''Paths'', copy_slice assign)]"

definition GatewayRoute_DeepCopy :: "ext \<Rightarrow> gv \<Rightarrow> (memory, gv) state" where
  "GatewayRoute_DeepCopy X = new_copy (GatewayRoute_DeepCopyInto X)"

lemma GatewayRoute_good [deep_copies]:
  "good_ext X \<Longrightarrow> deep_copy (shape_GatewayRoute X) (GatewayRoute_DeepCopyInto X)"
  unfolding shape_GatewayRoute_def GatewayRoute_DeepCopyInto_def
  by (rule deep_copy_struct) (simp_all add: deep_copies deep_copy_slice deep_copy_assign)

definition TLSSpec_DeepCopyInto :: "gv \<Rightarrow> (memory, gv) state" where
  "TLSSpec_DeepCopyInto = assign"

definition TLSSpec_DeepCopy :: "gv \<Rightarrow> (memory, gv) state" where
  "TLSSpec_DeepCopy = new_copy TLSSpec_DeepCopyInto"

lemma TLSSpec_good [deep_copies]: "deep_copy SFlat TLSSpec_DeepCopyInto"
  by (simp add: TLSSpec_DeepCopyInto_def deep_copy_assign)

definition shape_IngressSpec :: "ext \<Rightarrow> shape" where
  "shape_IngressSpec X = SStruct
     [(''PrivateRoutes'', SSlice (shape_GatewayRoute X)),
      (''PublicRoutes'', SSlice (shape_GatewayRoute X)),
      (''TLS'', SFlat)]"

definition IngressSpec_DeepCopyInto :: "ext \<Rightarrow> gv \<Rightarrow> (memory, gv) state" where
  "IngressSpec_DeepCopyInto X = copy_struct
     [(''PrivateRoutes'', copy_slice (GatewayRoute_DeepCopyInto X)),
      (''PublicRoutes'', copy_slice (GatewayRoute_DeepCopyInto X)),
      (''TLS'', assign)]"

definition IngressSpec_DeepCopy :: "ext \<Rightarrow> gv \<Rightarrow> (memory, gv) state" where
  "IngressSpec_DeepCopy X = new_copy (IngressSpec_DeepCopyInto X)"

lemma IngressSpec_good [deep_copies]:
  "good_ext X \<Longrightarrow> deep_copy (shape_IngressSpec X) (IngressSpec_DeepCopyInto X)"
  unfolding shape_IngressSpec_def IngressSpec_DeepCopyInto_def
  by (rule deep_copy_struct) (simp_all add: deep_copies deep_copy_slice deep_copy_assign)

definition shape_ServiceSpec :: "ext \<Rightarrow> shape" where
  "shape_ServiceSpec X = SStruct
     [(''Ports'', SSlice (fst (x_ServicePort X))),
      (''Type'', SFlat)]"

definition ServiceSpec_DeepCopyInto :: "ext \<Rightarrow> gv \<Rightarrow> (memory, gv) state" where
  "ServiceSpec_DeepCopyInto X = copy_struct
     [(''Ports'', copy_slice (snd (x_ServicePort X)))]"

definition ServiceSpec_DeepCopy :: "ext \<Rightarrow> gv \<Rightarrow> (memory, gv) state" where
  "ServiceSpec_DeepCopy X = new_copy (ServiceSpec_DeepCopyInto X)"

lemma ServiceSpec_good [deep_copies]:
  "good_ext X \<Longrightarrow> deep_copy (shape_ServiceSpec X) (ServiceSpec_DeepCopyInto X)"
  unfolding shape_ServiceSpec_def ServiceSpec_DeepCopyInto_def
  by (rule deep_copy_struct) (simp_all add: deep_copies deep_copy_slice deep_copy_assign)

definition shape_NetworkingSpec :: "ext \<Rightarrow> shape" where
  "shape_NetworkingSpec X = SStruct
     [(''TargetRef'', SFlat),
      (''Service'', shape_ServiceSpec X),
      (''Ingress'', shape_IngressSpec X),
      (''EscapeHatches'', SSlice SFlat)]"

definition NetworkingSpec_DeepCopyInto :: "ext \<Rightarrow> gv \<Rightarrow> (memory, gv) state" where
  "NetworkingSpec_DeepCopyInto X = copy_struct
     [(''TargetRef'', assign),
      (''Service'', ServiceSpec_DeepCopyInto X),
      (''Ingress'', IngressSpec_DeepCopyInto X),
      (''EscapeHatches'', copy_slice assign)]"

definition NetworkingSpec_DeepCopy :: "ext \<Rightarrow> gv \<Rightarrow> (memory, gv) state" where
  "NetworkingSpec_DeepCopy X = new_copy (NetworkingSpec_DeepCopyInto X)"

lemma NetworkingSpec_good [deep_copies]:
  "good_ext X \<Longrightarrow> deep_copy (shape_NetworkingSpec X) (NetworkingSpec_DeepCopyInto X)"
  unfolding shape_NetworkingSpec_def NetworkingSpec_DeepCopyInto_def
  by (rule deep_copy_struct) (simp_all add: deep_copies deep_copy_slice deep_copy_assign)

definition shape_NetworkingStatus :: "ext \<Rightarrow> shape" where
  "shape_NetworkingStatus X = SStruct
     [(''Conditions'', SSlice (fst (x_Condition X)))]"

definition NetworkingStatus_DeepCopyInto :: "ext \<Rightarrow> gv \<Rightarrow> (memory, gv) state" where
  "NetworkingStatus_DeepCopyInto X = copy_struct
     [(''Conditions'', copy_slice (snd (x_Condition X)))]"

definition NetworkingStatus_DeepCopy :: "ext \<Rightarrow> gv \<Rightarrow> (memory, gv) state" where
  "NetworkingStatus_DeepCopy X = new_copy (NetworkingStatus_DeepCopyInto X)"

lemma NetworkingStatus_good [deep_copies]:
  "good_ext X \<Longrightarrow> deep_copy (shape_NetworkingStatus X) (NetworkingStatus_DeepCopyInto X)"
  unfolding shape_NetworkingStatus_def NetworkingStatus_DeepCopyInto_def
  by (rule deep_copy_struct) (simp_all add: deep_copies deep_copy_slice deep_copy_assign)

definition shape_Networking :: "ext \<Rightarrow> shape" where
  "shape_Networking X = SStruct
     [(''TypeMeta'', SFlat),
      (''ObjectMeta'', fst (x_ObjectMeta X)),
      (''Spec'', shape_NetworkingSpec X),
      (''Status'', shape_NetworkingStatus X)]"

definition Networking_DeepCopyInto :: "ext \<Rightarrow> gv \<Rightarrow> (memory, gv) state" where
  "Networking_DeepCopyInto X = copy_struct
     [(''TypeMeta'', assign),
      (''ObjectMeta'', snd (x_ObjectMeta X)),
      (''Spec'', NetworkingSpec_DeepCopyInto X),
      (''Status'', NetworkingStatus_DeepCopyInto X)]"

definition Networking_DeepCopy :: "ext \<Rightarrow> gv \<Rightarrow> (memory, gv) state" where
  "Networking_DeepCopy X = new_copy (Networking_DeepCopyInto X)"

definition Networking_DeepCopyObject :: "ext \<Rightarrow> gv \<Rightarrow> (memory, gv) state" where
  "Networking_DeepCopyObject X = (\<lambda>p. do {
     c \<leftarrow> Networking_DeepCopy X p;
     State_Monad.return (if c \<noteq> Ref None then c else Ref None)
   })"

lemma Networking_good [deep_copies]:
  "good_ext X \<Longrightarrow> deep_copy (shape_Networking X) (Networking_DeepCopyInto X)"
  unfolding shape_Networking_def Networking_DeepCopyInto_def
  by (rule deep_copy_struct) (simp_all add: deep_copies deep_copy_slice deep_copy_assign)

definition shape_NetworkingList :: "ext \<Rightarrow> shape" where
  "shape_NetworkingList X = SStruct
     [(''TypeMeta'', SFlat),
      (''ListMeta'', fst (x_ListMeta X)),
      (''Items'', SSlice (shape_Networking X))]"

definition NetworkingList_DeepCopyInto :: "ext \<Rightarrow> gv \<Rightarrow> (memory, gv) state" where
  "NetworkingList_DeepCopyInto X = copy_struct
     [(''TypeMeta'', assign),
      (''ListMeta'', snd (x_ListMeta X)),
      (''Items'', copy_slice (Networking_DeepCopyInto X))]"

definition NetworkingList_DeepCopy :: "ext \<Rightarrow> gv \<Rightarrow> (memory, gv) state" where
  "NetworkingList_DeepCopy X = new_copy (NetworkingList_DeepCopyInto X)"

definition NetworkingList_DeepCopyObject :: "ext \<Rightarrow> gv \<Rightarrow> (memory, gv) state" where
  "NetworkingList_DeepCopyObject X = (\<lambda>p. do {
     c \<leftarrow> NetworkingList_DeepCopy X p;
     State_Monad.return (if c \<noteq> Ref None then c else Ref None)
   })"

lemma NetworkingList_good [deep_copies]:
  "good_ext X \<Longrightarrow> deep_copy (shape_NetworkingList X) (NetworkingList_DeepCopyInto X)"
  unfolding shape_NetworkingList_def NetworkingList_DeepCopyInto_def
  by (rule deep_copy_struct) (simp_all add: deep_copies deep_copy_slice deep_copy_assign)

definition ServiceMonitorSpec_DeepCopyInto :: "gv \<Rightarrow> (memory, gv) state" where
  "ServiceMonitorSpec_DeepCopyInto = assign"

definition ServiceMonitorSpec_DeepCopy :: "gv \<Rightarrow> (memory, gv) state" where
  "ServiceMonitorSpec_DeepCopy = new_copy ServiceMonitorSpec_DeepCopyInto"

lemma ServiceMonitorSpec_good [deep_copies]: "deep_copy SFlat ServiceMonitorSpec_DeepCopyInto"
  by (simp add: ServiceMonitorSpec_DeepCopyInto_def deep_copy_assign)

definition PodMonitorSpec_DeepCopyInto :: "gv \<Rightarrow> (memory, gv) state" where
  "PodMonitorSpec_DeepCopyInto = assign"

definition PodMonitorSpec_DeepCopy :: "gv \<Rightarrow> (memory, gv) state" where
  "PodMonitorSpec_DeepCopy = new_copy PodMonitorSpec_DeepCopyInto"

lemma PodMonitorSpec_good [deep_copies]: "deep_copy SFlat PodMonitorSpec_DeepCopyInto"
  by (simp add: PodMonitorSpec_DeepCopyInto_def deep_copy_assign)

definition shape_ObservabilitySpec :: "ext \<Rightarrow> shape" where
  "shape_ObservabilitySpec X = SStruct
     [(''TargetRef'', SFlat),
      (''ServiceMonitor'', SFlat),
      (''PodMonitor'', SFlat),
      (''EscapeHatches'', SSlice SFlat)]"

definition ObservabilitySpec_DeepCopyInto :: "ext \<Rightarrow> gv \<Rightarrow> (memory, gv) state" where
  "ObservabilitySpec_DeepCopyInto X = copy_struct
     [(''TargetRef'', assign),
      (''ServiceMonitor'', assign),
      (''PodMonitor'', assign),
      (''EscapeHatches'', copy_slice assign)]"

definition ObservabilitySpec_DeepCopy :: "ext \<Rightarrow> gv \<Rightarrow> (memory, gv) state" where
  "ObservabilitySpec_DeepCopy X = new_copy (ObservabilitySpec_DeepCopyInto X)"

lemma ObservabilitySpec_good [deep_copies]:
  "good_ext X \<Longrightarrow> deep_copy (shape_ObservabilitySpec X) (ObservabilitySpec_DeepCopyInto X)"
  unfolding shape_ObservabilitySpec_def ObservabilitySpec_DeepCopyInto_def
  by (rule deep_copy_struct) (simp_all add: deep_copies deep_copy_slice deep_copy_assign)

definition shape_ObservabilityStatus :: "ext \<Rightarrow> shape" where
  "shape_ObservabilityStatus X = SStruct
     [(''Conditions'', SSlice (fst (x_Condition X)))]"

definition ObservabilityStatus_DeepCopyInto :: "ext \<Rightarrow> gv \<Rightarrow> (memory, gv) state" where
  "ObservabilityStatus_DeepCopyInto X = copy_struct
     [(''Conditions'', copy_slice (snd (x_Condition X)))]"

definition ObservabilityStatus_DeepCopy :: "ext \<Rightarrow> gv \<Rightarrow> (memory, gv) state" where
  "ObservabilityStatus_DeepCopy X = new_copy (ObservabilityStatus_DeepCopyInto X)"

lemma ObservabilityStatus_good [deep_copies]:
  "good_ext X \<Longrightarrow> deep_copy (shape_ObservabilityStatus X) (ObservabilityStatus_DeepCopyInto X)"
  unfolding shape_ObservabilityStatus_def ObservabilityStatus_DeepCopyInto_def
  by (rule deep_copy_struct) (simp_all add: deep_copies deep_copy_slice deep_copy_assign)

definition shape_Observability :: "ext \<Rightarrow> shape" where
  "shape_Observability X = SStruct
     [(''TypeMeta'', SFlat),
      (''ObjectMeta'', fst (x_ObjectMeta X)),
      (''Spec'', shape_ObservabilitySpec X),
      (''Status'', shape_ObservabilityStatus X)]"

definition Observability_DeepCopyInto :: "ext \<Rightarrow> gv \<Rightarrow> (memory, gv) state" where
  "Observability_DeepCopyInto X = copy_struct
     [(''TypeMeta'', assign),
      (''ObjectMeta'', snd (x_ObjectMeta X)),
      (''Spec'', ObservabilitySpec_DeepCopyInto X),
      (''Status'', ObservabilityStatus_DeepCopyInto X)]"

definition Observability_DeepCopy :: "ext \<Rightarrow> gv \<Rightarrow> (memory, gv) state" where
  "Observability_DeepCopy X = new_copy (Observability_DeepCopyInto X)"

definition Observability_DeepCopyObject :: "ext \<Rightarrow> gv \<Rightarrow> (memory, gv) state" where
  "Observability_DeepCopyObject X = (\<lambda>p. do {
     c \<leftarrow> Observability_DeepCopy X p;
     State_Monad.return (if c \<noteq> Ref None then c else Ref None)
   })"

lemma Observability_good [deep_copies]:
  "good_ext X \<Longrightarrow> deep_copy (shape_Observability X) (Observability_DeepCopyInto X)"
  unfolding shape_Observability_def Observability_DeepCopyInto_def
  by (rule deep_copy_struct) (simp_all add: deep_copies deep_copy_slice deep_copy_assign)

definition shape_ObservabilityList :: "ext \<Rightarrow> shape" where
  "shape_ObservabilityList X = SStruct
     [(''TypeMeta'', SFlat),
      (''ListMeta'', fst (x_ListMeta X)),
      (''Items'', SSlice (shape_Observability X))]"

definition ObservabilityList_DeepCopyInto :: "ext \<Rightarrow> gv \<Rightarrow> (memory, gv) state" where
  "ObservabilityList_DeepCopyInto X = copy_struct
     [(''TypeMeta'', assign),
      (''ListMeta'', snd (x_ListMeta X)),
      (''Items'', copy_slice (Observability_DeepCopyInto X))]"

definition ObservabilityList_DeepCopy :: "ext \<Rightarrow> gv \<Rightarrow> (memory, gv) state" where
  "ObservabilityList_DeepCopy X = new_copy (ObservabilityList_DeepCopyInto X)"

definition ObservabilityList_DeepCopyObject :: "ext \<Rightarrow> gv \<Rightarrow> (memory, gv) state" where
  "ObservabilityList_DeepCopyObject X = (\<lambda>p. do {
     c \<leftarrow> ObservabilityList_DeepCopy X p;
     State_Monad.return (if c \<noteq> Ref None then c else Ref None)
   })"

lemma ObservabilityList_good [deep_copies]:
  "good_ext X \<Longrightarrow> deep_copy (shape_ObservabilityList X) (ObservabilityList_DeepCopyInto X)"
  unfolding shape_ObservabilityList_def ObservabilityList_DeepCopyInto_def
  by (rule deep_copy_struct) (simp_all add: deep_copies deep_copy_slice deep_copy_assign)

definition shape_RBACSpec :: "ext \<Rightarrow> shape" where
  "shape_RBACSpec X = SStruct
     [(''CreateRole'', SFlat),
      (''Rules'', SSlice (fst (x_PolicyRule X)))]"

definition RBACSpec_DeepCopyInto :: "ext \<Rightarrow> gv \<Rightarrow> (memory, gv) state" where
  "RBACSpec_DeepCopyInto X = copy_struct
     [(''Rules'', copy_slice (snd (x_PolicyRule X)))]"

definition RBACSpec_DeepCopy :: "ext \<Rightarrow> gv \<Rightarrow> (memory, gv) state" where
  "RBACSpec_DeepCopy X = new_copy (RBACSpec_DeepCopyInto X)"

lemma RBACSpec_good [deep_copies]:
  "good_ext X \<Longrightarrow> deep_copy (shape_RBACSpec X) (RBACSpec_DeepCopyInto X)"
  unfolding shape_RBACSpec_def RBACSpec_DeepCopyInto_def
  by (rule deep_copy_struct) (simp_all add: deep_copies deep_copy_slice deep_copy_assign)

definition shape_SecuritySpec :: "ext \<Rightarrow> shape" where
  "shape_SecuritySpec X = SStruct
     [(''TargetRef'', SFlat),
      (''RBAC'', shape_RBACSpec X),
      (''EscapeHatches'', SSlice SFlat)]"

definition SecuritySpec_DeepCopyInto :: "ext \<Rightarrow> gv \<Rightarrow> (memory, gv) state" where
  "SecuritySpec_DeepCopyInto X = copy_struct
     [(''TargetRef'', assign),
      (''RBAC'', RBACSpec_DeepCopyInto X),
      (''EscapeHatches'', copy_slice assign)]"

definition SecuritySpec_DeepCopy :: "ext \<Rightarrow> gv \<Rightarrow> (memory, gv) state" where
  "SecuritySpec_DeepCopy X = new_copy (SecuritySpec_DeepCopyInto X)"

lemma SecuritySpec_good [deep_copies]:
  "good_ext X \<Longrightarrow> deep_copy (shape_SecuritySpec X) (SecuritySpec_DeepCopyInto X)"
  unfolding shape_SecuritySpec_def SecuritySpec_DeepCopyInto_def
  by (rule deep_copy_struct) (simp_all add: deep_copies deep_copy_slice deep_copy_assign)

definition shape_SecurityStatus :: "ext \<Rightarrow> shape" where
  "shape_SecurityStatus X = SStruct
     [(''Conditions'', SSlice (fst (x_Condition X)))]"

definition SecurityStatus_DeepCopyInto :: "ext \<Rightarrow> gv \<Rightarrow> (memory, gv) state" where
  "SecurityStatus_DeepCopyInto X = copy_struct
     [(''Conditions'', copy_slice (snd (x_Condition X)))]"

definition SecurityStatus_DeepCopy :: "ext \<Rightarrow> gv \<Rightarrow> (memory, gv) state" where
  "SecurityStatus_DeepCopy X = new_copy (SecurityStatus_DeepCopyInto X)"

lemma SecurityStatus_good [deep_copies]:
  "good_ext X \<Longrightarrow> deep_copy (shape_SecurityStatus X) (SecurityStatus_DeepCopyInto X)"
  unfolding shape_SecurityStatus_def SecurityStatus_DeepCopyInto_def
  by (rule deep_copy_struct) (simp_all add: deep_copies deep_copy_slice deep_copy_assign)

definition shape_Security :: "ext \<Rightarrow> shape" where
  "shape_Security X = SStruct
     [(''TypeMeta'', SFlat),
      (''ObjectMeta'', fst (x_ObjectMeta X)),
      (''Spec'', shape_SecuritySpec X),
      (''Status'', shape_SecurityStatus X)]"

definition Security_DeepCopyInto :: "ext \<Rightarrow> gv \<Rightarrow> (memory, gv) state" where
  "Security_DeepCopyInto X = copy_struct
     [(''TypeMeta'', assign),
      (''ObjectMeta'', snd (x_ObjectMeta X)),
      (''Spec'', SecuritySpec_DeepCopyInto X),
      (''Status'', SecurityStatus_DeepCopyInto X)]"

definition Security_DeepCopy :: "ext \<Rightarrow> gv \<Rightarrow> (memory, gv) state" where
  "Security_DeepCopy X = new_copy (Security_DeepCopyInto X)"

definition Security_DeepCopyObject :: "ext \<Rightarrow> gv \<Rightarrow> (memory, gv) state" where
  "Security_DeepCopyObject X = (\<lambda>p. do {
     c \<leftarrow> Security_DeepCopy X p;
     State_Monad.return (if c \<noteq> Ref None then c else Ref None)
   })"

lemma Security_good [deep_copies]:
  "good_ext X \<Longrightarrow> deep_copy (shape_Security X) (Security_DeepCopyInto X)"
  unfolding shape_Security_def Security_DeepCopyInto_def
  by (rule deep_copy_struct) (simp_all add: deep_copies deep_copy_slice deep_copy_assign)

definition shape_SecurityList :: "ext \<Rightarrow> shape" where
  "shape_SecurityList X = SStruct
     [(''TypeMeta'', SFlat),
      (''ListMeta'', fst (x_ListMeta X)),
      (''Items'', SSlice (shape_Security X))]"

definition SecurityList_DeepCopyInto :: "ext \<Rightarrow> gv \<Rightarrow> (memory, gv) state" where
  "SecurityList_DeepCopyInto X = copy_struct
     [(''TypeMeta'', assign),
      (''ListMeta'', snd (x_ListMeta X)),
      (''Items'', copy_slice (Security_DeepCopyInto X))]"

definition SecurityList_DeepCopy :: "ext \<Rightarrow> gv \<Rightarrow> (memory, gv) state" where
  "SecurityList_DeepCopy X = new_copy (SecurityList_DeepCopyInto X)"

definition SecurityList_DeepCopyObject :: "ext \<Rightarrow> gv \<Rightarrow> (memory, gv) state" where
  "SecurityList_DeepCopyObject X = (\<lambda>p. do {
     c \<leftarrow> SecurityList_DeepCopy X p;
     State_Monad.return (if c \<noteq> Ref None then c else Ref None)
   })"

lemma SecurityList_good [deep_copies]:
  "good_ext X \<Longrightarrow> deep_copy (shape_SecurityList X) (SecurityList_DeepCopyInto X)"
  unfolding shape_SecurityList_def SecurityList_DeepCopyInto_def
  by (rule deep_copy_struct) (simp_all add: deep_copies deep_copy_slice deep_copy_assign)

definition shape_VolumeSpec :: "ext \<Rightarrow> shape" where
  "shape_VolumeSpec X = SStruct
     [(''Name'', SFlat),
      (''Size'', SFlat),
      (''MountPath'', SFlat),
      (''AccessModes'', SSlice SFlat)]"

definition VolumeSpec_DeepCopyInto :: "ext \<Rightarrow> gv \<Rightarrow> (memory, gv) state" where
  "VolumeSpec_DeepCopyInto X = copy_struct
     [(''AccessModes'', copy_slice assign)]"

definition VolumeSpec_DeepCopy :: "ext \<Rightarrow> gv \<Rightarrow> (memory, gv) state" where
  "VolumeSpec_DeepCopy X = new_copy (VolumeSpec_DeepCopyInto X)"

lemma VolumeSpec_good [deep_copies]:
  "good_ext X \<Longrightarrow> deep_copy (shape_VolumeSpec X) (VolumeSpec_DeepCopyInto X)"
  unfolding shape_VolumeSpec_def VolumeSpec_DeepCopyInto_def
  by (rule deep_copy_struct) (simp_all add: deep_copies deep_copy_slice deep_copy_assign)

definition shape_StorageSpec :: "ext \<Rightarrow> shape" where
  "shape_StorageSpec X = SStruct
     [(''TargetRef'', SFlat),
      (''StorageClassName'', SFlat),
      (''Volumes'', SSlice (shape_VolumeSpec X)),
      (''EscapeHatches'', SSlice SFlat)]"

definition StorageSpec_DeepCopyInto :: "ext \<Rightarrow> gv \<Rightarrow> (memory, gv) state" where
  "StorageSpec_DeepCopyInto X = copy_struct
     [(''TargetRef'', assign),
      (''Volumes'', copy_slice (VolumeSpec_DeepCopyInto X)),
      (''EscapeHatches'', copy_slice assign)]"

definition StorageSpec_DeepCopy :: "ext \<Rightarrow> gv \<Rightarrow> (memory, gv) state" where
  "StorageSpec_DeepCopy X = new_copy (StorageSpec_DeepCopyInto X)"

lemma StorageSpec_good [deep_copies]:
  "good_ext X \<Longrightarrow> deep_copy (shape_StorageSpec X) (StorageSpec_DeepCopyInto X)"
  unfolding shape_StorageSpec_def StorageSpec_DeepCopyInto_def
  by (rule deep_copy_struct) (simp_all add: deep_copies deep_copy_slice deep_copy_assign)

definition shape_StorageStatus :: "ext \<Rightarrow> shape" where
  "shape_StorageStatus X = SStruct
     [(''Conditions'', SSlice (fst (x_Condition X)))]"

definition StorageStatus_DeepCopyInto :: "ext \<Rightarrow> gv \<Rightarrow> (memory, gv) state" where
  "StorageStatus_DeepCopyInto X = copy_struct
     [(''Conditions'', copy_slice (snd (x_Condition X)))]"

definition StorageStatus_DeepCopy :: "ext \<Rightarrow> gv \<Rightarrow> (memory, gv) state" where
  "StorageStatus_DeepCopy X = new_copy (StorageStatus_DeepCopyInto X)"

lemma StorageStatus_good [deep_copies]:
  "good_ext X \<Longrightarrow> deep_copy (shape_StorageStatus X) (StorageStatus_DeepCopyInto X)"
  unfolding shape_StorageStatus_def StorageStatus_DeepCopyInto_def
  by (rule deep_copy_struct) (simp_all add: deep_copies deep_copy_slice deep_copy_assign)

definition shape_Storage :: "ext \<Rightarrow> shape" where
  "shape_Storage X = SStruct
     [(''TypeMeta'', SFlat),
      (''ObjectMeta'', fst (x_ObjectMeta X)),
      (''Spec'', shape_StorageSpec X),
      (''Status'', shape_StorageStatus X)]"

definition Storage_DeepCopyInto :: "ext \<Rightarrow> gv \<Rightarrow> (memory, gv) state" where
  "Storage_DeepCopyInto X = copy_struct
     [(''TypeMeta'', assign),
      (''ObjectMeta'', snd (x_ObjectMeta X)),
      (''Spec'', StorageSpec_DeepCopyInto X),
      (''Status'', StorageStatus_DeepCopyInto X)]"

definition Storage_DeepCopy :: "ext \<Rightarrow> gv \<Rightarrow> (memory, gv) state" where
  "Storage_DeepCopy X = new_copy (Storage_DeepCopyInto X)"

definition Storage_DeepCopyObject :: "ext \<Rightarrow> gv \<Rightarrow> (memory, gv) state" where
  "Storage_DeepCopyObject X = (\<lambda>p. do {
     c \<leftarrow> Storage_DeepCopy X p;
     State_Monad.return (if c \<noteq> Ref None then c else Ref None)
   })"

lemma Storage_good [deep_copies]:
  "good_ext X \<Longrightarrow> deep_copy (shape_Storage X) (Storage_DeepCopyInto X)"
  unfolding shape_Storage_def Storage_DeepCopyInto_def
  by (rule deep_copy_struct) (simp_all add: deep_copies deep_copy_slice deep_copy_assign)

definition shape_StorageList :: "ext \<Rightarrow> shape" where
  "shape_StorageList X = SStruct
     [(''TypeMeta'', SFlat),
      (''ListMeta'', fst (x_ListMeta X)),
      (''Items'', SSlice (shape_Storage X))]"

definition StorageList_DeepCopyInto :: "ext \<Rightarrow> gv \<Rightarrow> (memory, gv) state" where
  "StorageList_DeepCopyInto X = copy_struct
     [(''TypeMeta'', assign),
      (''ListMeta'', snd (x_ListMeta X)),
      (''Items'', copy_slice (Storage_DeepCopyInto X))]"

definition StorageList_DeepCopy :: "ext \<Rightarrow> gv \<Rightarrow> (memory, gv) state" where
  "StorageList_DeepCopy X = new_copy (StorageList_DeepCopyInto X)"

definition StorageList_DeepCopyObject :: "ext \<Rightarrow> gv \<Rightarrow> (memory, gv) state" where
  "StorageList_DeepCopyObject X = (\<lambda>p. do {
     c \<leftarrow> StorageList_DeepCopy X p;
     State_Monad.return (if c \<noteq> Ref None then c else Ref None)
   })"

lemma StorageList_good [deep_copies]:
  "good_ext X \<Longrightarrow> deep_copy (shape_StorageList X) (StorageList_DeepCopyInto X)"
  unfolding shape_StorageList_def StorageList_DeepCopyInto_def
  by (rule deep_copy_struct) (simp_all add: deep_copies deep_copy_slice deep_copy_assign)

definition shape_WorkloadSpec :: "ext \<Rightarrow> shape" where
  "shape_WorkloadSpec X = SStruct
     [(''TargetRef'', SFlat),
      (''Compute'', shape_ComputeSpec X),
      (''Storage'', shape_StorageSpec X),
      (''Networking'', shape_NetworkingSpec X),
      (''Observability'', shape_ObservabilitySpec X),
      (''Security'', shape_SecuritySpec X)]"

definition WorkloadSpec_DeepCopyInto :: "ext \<Rightarrow> gv \<Rightarrow> (memory, gv) state" where
  "WorkloadSpec_DeepCopyInto X = copy_struct
     [(''TargetRef'', assign),
      (''Compute'', ComputeSpec_DeepCopyInto X),
      (''Storage'', StorageSpec_DeepCopyInto X),
      (''Networking'', NetworkingSpec_DeepCopyInto X),
      (''Observability'', ObservabilitySpec_DeepCopyInto X),
      (''Security'', SecuritySpec_DeepCopyInto X)]"

definition WorkloadSpec_DeepCopy :: "ext \<Rightarrow> gv \<Rightarrow> (memory, gv) state" where
  "WorkloadSpec_DeepCopy X = new_copy (WorkloadSpec_DeepCopyInto X)"

lemma WorkloadSpec_good [deep_copies]:
  "good_ext X \<Longrightarrow> deep_copy (shape_WorkloadSpec X) (WorkloadSpec_DeepCopyInto X)"
  unfolding shape_WorkloadSpec_def WorkloadSpec_DeepCopyInto_def
  by (rule deep_copy_struct) (simp_all add: deep_copies deep_copy_slice deep_copy_assign)

definition shape_WorkloadStatus :: "ext \<Rightarrow> shape" where
  "shape_WorkloadStatus X = SStruct
     [(''Conditions'', SSlice (fst (x_Condition X)))]"

definition WorkloadStatus_DeepCopyInto :: "ext \<Rightarrow> gv \<Rightarrow> (memory, gv) state" where
  "WorkloadStatus_DeepCopyInto X = copy_struct
     [(''Conditions'', copy_slice (snd (x_Condition X)))]"

definition WorkloadStatus_DeepCopy :: "ext \<Rightarrow> gv \<Rightarrow> (memory, gv) state" where
  "WorkloadStatus_DeepCopy X = new_copy (WorkloadStatus_DeepCopyInto X)"

lemma WorkloadStatus_good [deep_copies]:
  "good_ext X \<Longrightarrow> deep_copy (shape_WorkloadStatus X) (WorkloadStatus_DeepCopyInto X)"
  unfolding shape_WorkloadStatus_def WorkloadStatus_DeepCopyInto_def
  by (rule deep_copy_struct) (simp_all add: deep_copies deep_copy_slice deep_copy_assign)

definition shape_Workload :: "ext \<Rightarrow> shape" where
  "shape_Workload X = SStruct
     [(''TypeMeta'', SFlat),
      (''ObjectMeta'', fst (x_ObjectMeta X)),
      (''Spec'', shape_WorkloadSpec X),
      (''Status'', shape_WorkloadStatus X)]"

definition Workload_DeepCopyInto :: "ext \<Rightarrow> gv \<Rightarrow> (memory, gv) state" where
  "Workload_DeepCopyInto X = copy_struct
     [(''TypeMeta'', assign),
      (''ObjectMeta'', snd (x_ObjectMeta X)),
      (''Spec'', WorkloadSpec_DeepCopyInto X),
      (''Status'', WorkloadStatus_DeepCopyInto X)]"

definition Workload_DeepCopy :: "ext \<Rightarrow> gv \<Rightarrow> (memory, gv) state" where
  "Workload_DeepCopy X = new_copy (Workload_DeepCopyInto X)"

definition Workload_DeepCopyObject :: "ext \<Rightarrow> gv \<Rightarrow> (memory, gv) state" where
  "Workload_DeepCopyObject X = (\<lambda>p. do {
     c \<leftarrow> Workload_DeepCopy X p;
     State_Monad.return (if c \<noteq> Ref None then c else Ref None)
   })"

lemma Workload_good [deep_copies]:
  "good_ext X \<Longrightarrow> deep_copy (shape_Workload X) (Workload_DeepCopyInto X)"
  unfolding shape_Workload_def Workload_DeepCopyInto_def
  by (rule deep_copy_struct) (simp_all add: deep_copies deep_copy_slice deep_copy_assign)

definition shape_WorkloadList :: "ext \<Rightarrow> shape" where
  "shape_WorkloadList X = SStruct
     [(''TypeMeta'', SFlat),
      (''ListMeta'', fst (x_ListMeta X)),
      (''Items'', SSlice (shape_Workload X))]"

definition WorkloadList_DeepCopyInto :: "ext \<Rightarrow> gv \<Rightarrow> (memory, gv) state" where
  "WorkloadList_DeepCopyInto X = copy_struct
     [(''TypeMeta'', assign),
      (''ListMeta'', snd (x_ListMeta X)),
      (''Items'', copy_slice (Workload_DeepCopyInto X))]"

definition WorkloadList_DeepCopy :: "ext \<Rightarrow> gv \<Rightarrow> (memory, gv) state" where
  "WorkloadList_DeepCopy X = new_copy (WorkloadList_DeepCopyInto X)"

definition WorkloadList_DeepCopyObject :: "ext \<Rightarrow> gv \<Rightarrow> (memory, gv) state" where
  "WorkloadList_DeepCopyObject X = (\<lambda>p. do {
     c \<leftarrow> WorkloadList_DeepCopy X p;
     State_Monad.return (if c \<noteq> Ref None then c else Ref None)
   })"

lemma WorkloadList_good [deep_copies]:
  "good_ext X \<Longrightarrow> deep_copy (shape_WorkloadList X) (WorkloadList_DeepCopyInto X)"
  unfolding shape_WorkloadList_def WorkloadList_DeepCopyInto_def
  by (rule deep_copy_struct) (simp_all add: deep_copies deep_copy_slice deep_copy_assign)

section \<open>All copies\<close>

text \<open>
  Every type with its shape and its \<^verbatim>\<open>DeepCopy\<close>, and the root types with their
  \<^verbatim>\<open>DeepCopyObject\<close>, which is what the client calls on an object it hands out.
\<close>

definition all_copies :: "ext \<Rightarrow> (string \<times> shape \<times> (gv \<Rightarrow> (memory, gv) state)) list" where
  "all_copies X =
     [(''AutoscalingSpec.DeepCopy'', SFlat, AutoscalingSpec_DeepCopy),
      (''SchedulingSpec.DeepCopy'', shape_SchedulingSpec X, SchedulingSpec_DeepCopy X),
      (''ResourceRef.DeepCopy'', SFlat, ResourceRef_DeepCopy),
      (''PDBSpec.DeepCopy'', SFlat, PDBSpec_DeepCopy),
      (''EscapeHatch.DeepCopy'', SFlat, EscapeHatch_DeepCopy),
      (''ComputeSpec.DeepCopy'', shape_ComputeSpec X, ComputeSpec_DeepCopy X),
      (''ComputeStatus.DeepCopy'', shape_ComputeStatus X, ComputeStatus_DeepCopy X),
      (''Compute.DeepCopy'', shape_Compute X, Compute_DeepCopy X),
      (''ComputeList.DeepCopy'', shape_ComputeList X, ComputeList_DeepCopy X),
      (''GatewayRoute.DeepCopy'', shape_GatewayRoute X, GatewayRoute_DeepCopy X),
      (''TLSSpec.DeepCopy'', SFlat, TLSSpec_DeepCopy),
      (''IngressSpec.DeepCopy'', shape_IngressSpec X, IngressSpec_DeepCopy X),
      (''ServiceSpec.DeepCopy'', shape_ServiceSpec X, ServiceSpec_DeepCopy X),
      (''NetworkingSpec.DeepCopy'', shape_NetworkingSpec X, NetworkingSpec_DeepCopy X),
      (''NetworkingStatus.DeepCopy'', shape_NetworkingStatus X, NetworkingStatus_DeepCopy X),
      (''Networking.DeepCopy'', shape_Networking X, Networking_DeepCopy X),
      (''NetworkingList.DeepCopy'', shape_NetworkingList X, NetworkingList_DeepCopy X),
      (''ServiceMonitorSpec.DeepCopy'', SFlat, ServiceMonitorSpec_DeepCopy),
      (''PodMonitorSpec.DeepCopy'', SFlat, PodMonitorSpec_DeepCopy),
      (''ObservabilitySpec.DeepCopy'', shape_ObservabilitySpec X, ObservabilitySpec_DeepCopy X),
      (''ObservabilityStatus.DeepCopy'', shape_ObservabilityStatus X, ObservabilityStatus_DeepCopy X),
      (''Observability.DeepCopy'', shape_Observability X, Observability_DeepCopy X),
      (''ObservabilityList.DeepCopy'', shape_ObservabilityList X, ObservabilityList_DeepCopy X),
      (''RBACSpec.DeepCopy'', shape_RBACSpec X, RBACSpec_DeepCopy X),
      (''SecuritySpec.DeepCopy'', shape_SecuritySpec X, SecuritySpec_DeepCopy X),
      (''SecurityStatus.DeepCopy'', shape_SecurityStatus X, SecurityStatus_DeepCopy X),
      (''Security.DeepCopy'', shape_Security X, Security_DeepCopy X),
      (''SecurityList.DeepCopy'', shape_SecurityList X, SecurityList_DeepCopy X),
      (''VolumeSpec.DeepCopy'', shape_VolumeSpec X, VolumeSpec_DeepCopy X),
      (''StorageSpec.DeepCopy'', shape_StorageSpec X, StorageSpec_DeepCopy X),
      (''StorageStatus.DeepCopy'', shape_StorageStatus X, StorageStatus_DeepCopy X),
      (''Storage.DeepCopy'', shape_Storage X, Storage_DeepCopy X),
      (''StorageList.DeepCopy'', shape_StorageList X, StorageList_DeepCopy X),
      (''WorkloadSpec.DeepCopy'', shape_WorkloadSpec X, WorkloadSpec_DeepCopy X),
      (''WorkloadStatus.DeepCopy'', shape_WorkloadStatus X, WorkloadStatus_DeepCopy X),
      (''Workload.DeepCopy'', shape_Workload X, Workload_DeepCopy X),
      (''WorkloadList.DeepCopy'', shape_WorkloadList X, WorkloadList_DeepCopy X),
      (''Compute.DeepCopyObject'', shape_Compute X,
       Compute_DeepCopyObject X),
      (''ComputeList.DeepCopyObject'', shape_ComputeList X,
       ComputeList_DeepCopyObject X),
      (''Networking.DeepCopyObject'', shape_Networking X,
       Networking_DeepCopyObject X),
      (''NetworkingList.DeepCopyObject'', shape_NetworkingList X,
       NetworkingList_DeepCopyObject X),
      (''Observability.DeepCopyObject'', shape_Observability X,
       Observability_DeepCopyObject X),
      (''ObservabilityList.DeepCopyObject'', shape_ObservabilityList X,
       ObservabilityList_DeepCopyObject X),
      (''Security.DeepCopyObject'', shape_Security X,
       Security_DeepCopyObject X),
      (''SecurityList.DeepCopyObject'', shape_SecurityList X,
       SecurityList_DeepCopyObject X),
      (''Storage.DeepCopyObject'', shape_Storage X,
       Storage_DeepCopyObject X),
      (''StorageList.DeepCopyObject'', shape_StorageList X,
       StorageList_DeepCopyObject X),
      (''Workload.DeepCopyObject'', shape_Workload X,
       Workload_DeepCopyObject X),
      (''WorkloadList.DeepCopyObject'', shape_WorkloadList X,
       WorkloadList_DeepCopyObject X)]"

lemmas object_copy_defs =
  Compute_DeepCopyObject_def
  ComputeList_DeepCopyObject_def
  Networking_DeepCopyObject_def
  NetworkingList_DeepCopyObject_def
  Observability_DeepCopyObject_def
  ObservabilityList_DeepCopyObject_def
  Security_DeepCopyObject_def
  SecurityList_DeepCopyObject_def
  Storage_DeepCopyObject_def
  StorageList_DeepCopyObject_def
  Workload_DeepCopyObject_def
  WorkloadList_DeepCopyObject_def

lemmas copy_defs =
  AutoscalingSpec_DeepCopy_def
  SchedulingSpec_DeepCopy_def
  ResourceRef_DeepCopy_def
  PDBSpec_DeepCopy_def
  EscapeHatch_DeepCopy_def
  ComputeSpec_DeepCopy_def
  ComputeStatus_DeepCopy_def
  Compute_DeepCopy_def
  ComputeList_DeepCopy_def
  GatewayRoute_DeepCopy_def
  TLSSpec_DeepCopy_def
  IngressSpec_DeepCopy_def
  ServiceSpec_DeepCopy_def
  NetworkingSpec_DeepCopy_def
  NetworkingStatus_DeepCopy_def
  Networking_DeepCopy_def
  NetworkingList_DeepCopy_def
  ServiceMonitorSpec_DeepCopy_def
  PodMonitorSpec_DeepCopy_def
  ObservabilitySpec_DeepCopy_def
  ObservabilityStatus_DeepCopy_def
  Observability_DeepCopy_def
  ObservabilityList_DeepCopy_def
  RBACSpec_DeepCopy_def
  SecuritySpec_DeepCopy_def
  SecurityStatus_DeepCopy_def
  Security_DeepCopy_def
  SecurityList_DeepCopy_def
  VolumeSpec_DeepCopy_def
  StorageSpec_DeepCopy_def
  StorageStatus_DeepCopy_def
  Storage_DeepCopy_def
  StorageList_DeepCopy_def
  WorkloadSpec_DeepCopy_def
  WorkloadStatus_DeepCopy_def
  Workload_DeepCopy_def
  WorkloadList_DeepCopy_def

lemma c_or_nil: "(if c \<noteq> Ref None then c else Ref None) = c"
  by simp

lemma copied_or_nil:
  "(\<lambda>p. do { c \<leftarrow> f p; State_Monad.return (if c \<noteq> Ref None then c else Ref None) }) = f"
  by (simp only: c_or_nil) simp

lemma deep_new_copy: "deep_copy s into \<Longrightarrow> \<exists>i. new_copy into = new_copy i \<and> deep_copy s i"
  by blast

lemma all_copies_deep:
  assumes "good_ext X"
  shows "\<forall>(n, s, copy) \<in> set (all_copies X). \<exists>into. copy = new_copy into \<and> deep_copy s into"
  unfolding all_copies_def object_copy_defs copied_or_nil copy_defs
  by (simp add: deep_new_copy deep_copies assms)

text \<open>
  C23: Every \<^verbatim>\<open>DeepCopy\<close> and every \<^verbatim>\<open>DeepCopyObject\<close> of the API returns a separate object: it reads
  exactly like the original, it shares no slice, map or pointer with it, at any depth, and
  whatever is later written through the copy, the original reads as before.
\<close>

theorem deep_copies_separate:
  assumes "good_ext X" and "(n, s, copy) \<in> set (all_copies X)"
    and "reads m (SSlice s) p = Some (TSlice [t])" and "run_state (copy p) m = (p', m')"
  shows "reads m' (SSlice s) p' = Some (TSlice [t]) \<and>
    addrs m' (SSlice s) p' \<inter> addrs m (SSlice s) p = {} \<and>
    (\<forall>m''. brk m' \<le> brk m'' \<and> (\<forall>a. a \<notin> addrs m' (SSlice s) p' \<longrightarrow> cells m'' a = cells m' a) \<longrightarrow>
       reads m'' (SSlice s) p = Some (TSlice [t]))"
proof -
  from all_copies_deep [OF assms(1)] assms(2) obtain into where "copy = new_copy into" "deep_copy s into"
    by fast
  with deep_copy_pointer [OF _ assms(3)] assms(4)
  have c: "extends m m'" "reads m' (SSlice s) p' = Some (TSlice [t])"
    "addrs m' (SSlice s) p' \<subseteq> {brk m..<brk m'}" by blast+
  have old: "addrs m (SSlice s) p \<subseteq> {..<brk m}" using addrs_below(1) [OF assms(3)] .
  have "reads m'' (SSlice s) p = Some (TSlice [t])"
    if "brk m' \<le> brk m''" and w: "\<forall>a. a \<notin> addrs m' (SSlice s) p' \<longrightarrow> cells m'' a = cells m' a" for m''
  proof (rule conjunct1 [OF reads_agree(1) [OF assms(3)]], intro ballI)
    fix a assume "a \<in> addrs m (SSlice s) p"
    with old have a: "a < brk m" by blast
    with c(3) have "a \<notin> addrs m' (SSlice s) p'" by (meson atLeastLessThan_iff leD subsetD)
    with w a c(1) that(1) show "a < brk m'' \<and> cells m'' a = cells m a" unfolding extends_def by simp
  qed
  with c old show ?thesis by fastforce
qed

text \<open>
  A Compute with labels and one escape hatch; of the types outside the repository only the
  labels of \<^verbatim>\<open>ObjectMeta\<close> hold a reference.
\<close>

definition labels_ext :: ext where
  "labels_ext =
     \<lparr>x_ObjectMeta = (SStruct [(''Name'', SFlat), (''Labels'', SSlice SFlat)],
                     copy_struct [(''Labels'', copy_slice assign)]),
      x_ListMeta = (SFlat, assign), x_Condition = (SFlat, assign), x_Affinity = (SFlat, assign),
      x_TopologySpreadConstraint = (SFlat, assign), x_ServicePort = (SFlat, assign),
      x_PolicyRule = (SFlat, assign)\<rparr>"

definition sample_memory :: memory where
  "sample_memory =
     \<lparr>cells = (\<lambda>_. [])(
        0 := [Struct
          [(''TypeMeta'', Flat (JStr ''Compute'')),
           (''ObjectMeta'', Struct [(''Name'', Flat (JStr ''web'')), (''Labels'', Ref (Some 1))]),
           (''Spec'', Struct
             [(''TargetRef'', Flat (JStr ''web'')),
              (''Autoscaling'', Flat JNull),
              (''Scheduling'', Struct
                [(''NodeSelector'', Ref None), (''Affinity'', Flat JNull),
                 (''TopologySpreadConstraints'', Ref None)]),
              (''PodDisruptionBudget'', Flat JNull),
              (''EscapeHatches'', Ref (Some 2))]),
           (''Status'', Struct [(''Conditions'', Ref None)])]],
        1 := [Flat (JStr ''app''), Flat (JStr ''team'')],
        2 := [Flat (JStr ''/spec/replicas'')]),
      brk = 3\<rparr>"

lemma labels_ext_good: "good_ext labels_ext"
  by (auto simp: good_ext_def labels_ext_def good_def deep_copy_assign
      intro!: deep_copy_struct deep_copy_slice)

lemma sample_memory_reads:
  "\<exists>t. reads sample_memory (SSlice (shape_Compute labels_ext)) (Ref (Some 0)) = Some (TSlice [t])"
  by (simp add: sample_memory_def shape_Compute_def shape_ComputeSpec_def shape_SchedulingSpec_def
      shape_ComputeStatus_def labels_ext_def)

lemma Compute_listed:
  "(''Compute.DeepCopyObject'', shape_Compute X, Compute_DeepCopyObject X) \<in> set (all_copies X)"
  unfolding all_copies_def by simp

theorem deep_copies_separate_witness:
  "\<exists>p' m'. run_state (Compute_DeepCopyObject labels_ext (Ref (Some 0))) sample_memory = (p', m') \<and>
     reads m' (SSlice (shape_Compute labels_ext)) p' =
       reads sample_memory (SSlice (shape_Compute labels_ext)) (Ref (Some 0)) \<and>
     addrs m' (SSlice (shape_Compute labels_ext)) p' \<inter>
       addrs sample_memory (SSlice (shape_Compute labels_ext)) (Ref (Some 0)) = {}"
proof -
  obtain p' m' where run: "run_state (Compute_DeepCopyObject labels_ext (Ref (Some 0))) sample_memory = (p', m')"
    by fastforce
  from sample_memory_reads obtain t where
    "reads sample_memory (SSlice (shape_Compute labels_ext)) (Ref (Some 0)) = Some (TSlice [t])" by blast
  from deep_copies_separate [OF labels_ext_good Compute_listed this run] this run show ?thesis by simp
qed

end
