(* ===== verification/Interplay.thy ===== *)
theory Interplay
  imports Service_Controller Monitor_Controllers
begin

text \<open>
  Two controllers that are meant to work together without knowing each other: the Service
  that the networking controller makes for a target, and the ServiceMonitor that the
  observability controller makes for the same target.
\<close>


abbreviation "sample_service_then_monitor \<equiv>
  snd (run_state (ServiceMonitorReconciler_Reconcile mem_lib observabilities_api servicemonitors_api
    (''shop'', ''front'')) (snd (sample_svc_run sample_cluster)))"


end
